(* ===== verification/Prelude.thy ===== *)
theory Prelude
  imports Main "HOL-Library.Word"
begin

text \<open>
  Shared vocabulary of the development: the machine types of the C++ sources, the
  faults that a C++ operation can end in, sequencing of operations that may fault,
  the range-for loop over a byte vector, and the standard containers the sources use.

  A C++ operation whose precondition is violated (\<open>pop_back\<close> of an empty vector, a
  failed \<open>assert\<close>, a read of an uninitialised variable), or that ends the process, has no result: it is modelled
  as \<open>Inl\<close> of the fault, and every caller propagates it.
\<close>

unbundle bit_operations_syntax

named_theorems framing \<open>how the framing loops consume bytes\<close>
named_theorems fault_simps \<open>sequencing of operations that may fault\<close>

section \<open>Machine types\<close>

type_synonym byte = "8 word"
type_synonym bytes = "8 word list"
type_synonym u16 = "16 word"
type_synonym u32 = "32 word"
type_synonym u64 = "64 word"
type_synonym c_int = "32 word"

lemma word_xor_right_cancel [simp]: "x XOR a = y XOR a \<longleftrightarrow> x = (y :: 'a::len word)"
  by (metis xor.assoc xor.right_neutral xor_self_eq)

lemma word_xor_left_cancel [simp]: "a XOR x = a XOR y \<longleftrightarrow> x = (y :: 'a::len word)"
  by (metis word_xor_right_cancel xor.commute)

lemma word_xor_twice [simp]: "(x XOR a) XOR a = (x :: 'a::len word)"
  by (simp add: xor.assoc)

lemma unat_byte_less [simp]: "unat (b :: byte) < 256"
  using unsigned_less [of b, where 'a = nat] by simp

lemma unat_ucast_byte: "unat (ucast (b :: byte) :: u16) = unat b"
  by (simp add: unsigned_ucast_eq take_bit_nat_eq_self order_less_trans [OF unat_byte_less])

lemma ucast_byte_inj: "(ucast (b :: byte) :: u16) = ucast c \<longleftrightarrow> b = c"
  by (metis unat_ucast_byte word_unat_eq_iff)

lemma xor_eq_0_iff_word: "b XOR c = 0 \<longleftrightarrow> b = (c :: 'a::len word)"
  by (metis xor.left_neutral word_xor_twice xor_self_eq)

lemma nth_in_tl: "0 < n \<Longrightarrow> n < length xs \<Longrightarrow> xs ! n \<in> set (tl xs)"
  by (cases xs; cases n) auto

lemma snoc2_exhaust: "2 \<le> length xs \<Longrightarrow> \<exists>q x y. xs = q @ [x, y]"
  by (cases xs rule: rev_cases; cases "butlast xs" rule: rev_cases) auto

section \<open>Faults and sequencing\<close>

datatype fault =
    PopBackEmpty
  | AssertFailed
  | UninitRead
  | NullDeref
  | OutOfBounds
  | ProcessExit

type_synonym 'a outcome = "fault + 'a"

fun seq :: "'a outcome \<Rightarrow> ('a \<Rightarrow> 'b outcome) \<Rightarrow> 'b outcome" where
  "seq (Inl e) k = Inl e"
| "seq (Inr x) k = k x"

lemma seq_assoc [fault_simps]: "seq (seq m k) l = seq m (\<lambda>x. seq (k x) l)"
  by (cases m) auto

lemma seq_InrE:
  assumes "seq m k = Inr y"
  obtains x where "m = Inr x" "k x = Inr y"
  using assms by (cases m) auto

lemma seq_Inr_right [simp]: "seq m Inr = m"
  by (cases m) auto

lemma seq_eq_Inr_iff: "seq m k = Inr y \<longleftrightarrow> (\<exists>x. m = Inr x \<and> k x = Inr y)"
  by (cases m) auto

text \<open>\<open>std::vector::pop_back\<close> has undefined behaviour on an empty vector.\<close>

definition pop_back :: "'a list \<Rightarrow> 'a list outcome" where
  "pop_back xs = (if xs = [] then Inl PopBackEmpty else Inr (butlast xs))"

lemma pop_back_snoc [simp]: "pop_back (xs @ [x]) = Inr xs"
  by (simp add: pop_back_def)

lemma pop_back_Nil [simp]: "pop_back [] = Inl PopBackEmpty"
  by (simp add: pop_back_def)

section \<open>The range-for loop over a vector\<close>

text \<open>
  \<open>for_each f i xs s\<close> runs the loop body \<open>f\<close> on the elements of \<open>xs\<close> in order; the
  body is told the position of its element, counted from \<open>i\<close>, and a fault ends the loop.
\<close>

fun for_each :: "(nat \<Rightarrow> 'a \<Rightarrow> 's \<Rightarrow> 's outcome) \<Rightarrow> nat \<Rightarrow> 'a list \<Rightarrow> 's \<Rightarrow> 's outcome" where
  "for_each f i [] s = Inr s"
| "for_each f i (x # xs) s = seq (f i x s) (for_each f (Suc i) xs)"

lemma for_each_append [fault_simps]:
  "for_each f i (xs @ ys) s = seq (for_each f i xs s) (for_each f (i + length xs) ys)"
proof (induction xs arbitrary: i s)
  case (Cons x xs)
  then show ?case by (cases "f i x s") simp_all
qed simp

lemma for_each_cong:
  assumes "\<And>k x s. x \<in> set xs \<Longrightarrow> f (i + k) x s = g (j + k) x s"
  shows "for_each f i xs s = for_each g j xs s"
  using assms
proof (induction xs arbitrary: i j s)
  case Nil
  then show ?case by simp
next
  case (Cons x xs)
  have "f i x s = g j x s"
    using Cons.prems [of x 0 s] by simp
  moreover have "for_each f (Suc i) xs t = for_each g (Suc j) xs t" for t
    by (rule Cons.IH) (use Cons.prems [where k = "Suc _"] in simp)
  ultimately show ?case by (cases "g j x s") simp_all
qed

section \<open>\<open>std::unordered_map\<close>\<close>

text \<open>
  An unordered map is an association list with distinct keys; the order of the list is
  the order in which the map is iterated, which the standard leaves open. \<open>emplace\<close> does
  nothing when the key is present.
\<close>

definition um_emplace :: "'k \<Rightarrow> 'v \<Rightarrow> ('k \<times> 'v) list \<Rightarrow> ('k \<times> 'v) list" where
  "um_emplace k v m = (case map_of m k of None \<Rightarrow> m @ [(k, v)] | Some _ \<Rightarrow> m)"

lemma map_of_um_emplace:
  "map_of (um_emplace k v m) = (case map_of m k of None \<Rightarrow> (map_of m)(k \<mapsto> v) | Some _ \<Rightarrow> map_of m)"
proof (cases "map_of m k")
  case None
  have "map_of (m @ [(k, v)]) x = ((map_of m)(k \<mapsto> v)) x" for x
    using None by (auto simp: map_add_def split: option.splits)
  then show ?thesis using None by (auto simp: um_emplace_def)
qed (simp add: um_emplace_def)

lemma distinct_um_emplace:
  "distinct (map fst m) \<Longrightarrow> distinct (map fst (um_emplace k v m))"
  by (auto simp: um_emplace_def map_of_eq_None_iff split: option.splits)

lemma set_um_emplace_subset: "set (um_emplace k v m) \<subseteq> insert (k, v) (set m)"
  by (auto simp: um_emplace_def split: option.splits)

end
