(* ===== verification/Util.thy ===== *)
theory Util
  imports Prelude
begin

text \<open>
  The helpers of \<open>src/util.h\<close>, \<open>src/util.cpp\<close> (and their copies under \<open>common/\<close>): the hex
  and character dumps used in the logs and the FNV-1 string hash. \<open>string_format\<close> belongs to
  the limero library; the text it makes of the format \<open>[%d]\<close> and the size is the parameter
  \<open>fmt\<close> of \<open>hexDump\<close>.
\<close>

section \<open>Definitions\<close>

definition HEX :: string where
  "HEX = ''0123456789ABCDEF''"

definition hexDump :: "(nat \<Rightarrow> string) \<Rightarrow> bytes \<Rightarrow> string \<Rightarrow> string" where
  "hexDump fmt bs spacer =
     foldl (\<lambda>out b. out @ [HEX ! unat (drop_bit 4 b)] @ [HEX ! unat (b AND 0xF)] @ spacer)
       (fmt (length bs)) bs"

text \<open>\<open>isprint\<close> of the C locale.\<close>

definition isprint :: "byte \<Rightarrow> bool" where
  "isprint b \<longleftrightarrow> 0x20 \<le> b \<and> b \<le> 0x7E"

definition charDump :: "bytes \<Rightarrow> string" where
  "charDump bs = foldl (\<lambda>out b. if isprint b then out @ [char_of (unat b)] else out @ ''.'') [] bs"

definition FNV_PRIME :: u32 where "FNV_PRIME = 16777619"
definition FNV_OFFSET :: u32 where "FNV_OFFSET = 2166136261"

text \<open>A C string is the list of its bytes up to, or ended by, the zero byte; \<open>char\<close> is signed.\<close>

fun fnv1 :: "u32 \<Rightarrow> bytes \<Rightarrow> u32" where
  "fnv1 h [] = h"
| "fnv1 h (c # s) = (if c = 0 then h else fnv1 ((h * FNV_PRIME) XOR scast c) s)"

definition H :: "bytes \<Rightarrow> u32" where
  "H s = fnv1 FNV_OFFSET s"

section \<open>The hex dump determines the bytes\<close>

lemma HEX_inj: "i < 16 \<Longrightarrow> j < 16 \<Longrightarrow> HEX ! i = HEX ! j \<longleftrightarrow> i = j"
proof -
  have "distinct HEX" "length HEX = 16"
    by (simp_all add: HEX_def)
  then show "i < 16 \<Longrightarrow> j < 16 \<Longrightarrow> HEX ! i = HEX ! j \<longleftrightarrow> i = j"
    by (simp add: nth_eq_iff_index_eq)
qed

lemma nibbles_less: "unat (drop_bit 4 (b :: byte)) < 16" "unat (b AND 0xF) < 16"
proof -
  show "unat (drop_bit 4 b) < 16"
    unfolding unat_drop_bit_eq using unat_byte_less [of b] by (simp add: drop_bit_eq_div less_mult_imp_div_less)
  have "b AND 0xF = take_bit 4 b"
    by (simp add: take_bit_eq_mask mask_eq_exp_minus_1)
  then show "unat (b AND 0xF) < 16"
    using take_bit_nat_less_exp [of 4 "unat b"] by (simp add: unsigned_take_bit_eq)
qed

lemma nibbles_inj:
  assumes "drop_bit 4 (b :: byte) = drop_bit 4 c" "b AND 0xF = c AND 0xF"
  shows "b = c"
proof -
  have "x = push_bit 4 (drop_bit 4 x) OR (x AND 0xF)" for x :: byte
    unfolding mask_eq_exp_minus_1 [where n = 4 and 'a = "8 word", simplified, symmetric]
    by (rule bit_word_eqI) (auto simp: bit_simps)
  with assms show ?thesis by metis
qed

lemma hexDump_concat:
  "hexDump fmt bs sp = fmt (length bs) @
     concat (map (\<lambda>b. [HEX ! unat (drop_bit 4 b), HEX ! unat (b AND 0xF)] @ sp) bs)"
proof -
  have "foldl (\<lambda>out b. out @ [HEX ! unat (drop_bit 4 b)] @ [HEX ! unat (b AND 0xF)] @ sp) out bs =
      out @ concat (map (\<lambda>b. [HEX ! unat (drop_bit 4 b), HEX ! unat (b AND 0xF)] @ sp) bs)" for out
    by (induction bs arbitrary: out) simp_all
  then show ?thesis by (simp add: hexDump_def)
qed

section \<open>Properties\<close>

text \<open>
  The hex dump loses nothing: for a given number of bytes and a given spacer two byte
  vectors with the same dump are equal, whatever the size prefix looks like.
\<close>

theorem hexDump_inj:
  assumes "length bs = length cs" and "hexDump fmt bs sp = hexDump fmt cs sp"
  shows "bs = cs"
proof -
  have "concat (map (\<lambda>b. [HEX ! unat (drop_bit 4 b), HEX ! unat (b AND 0xF)] @ sp) bs) =
      concat (map (\<lambda>b. [HEX ! unat (drop_bit 4 b), HEX ! unat (b AND 0xF)] @ sp) cs)"
    using assms by (simp add: hexDump_concat)
  with assms(1) show ?thesis
    by (induction rule: list_induct2)
      (auto simp: HEX_inj nibbles_less word_unat_eq_iff [symmetric] intro: nibbles_inj)
qed

lemma hexDump_inj_witness: "hexDump (\<lambda>_. ''#'') [0x1F, 0xA0] '' '' = ''#1F A0 '' \<and>
    ([0x1F, 0xA0] :: bytes) = [0x1F, 0xA0]"
  using hexDump_inj [of "[0x1F, 0xA0]" "[0x1F, 0xA0]" "\<lambda>_. ''#''" "'' ''"]
  by (simp add: hexDump_def HEX_def)

lemma ucast_scast_byte: "ucast (scast (c :: byte) :: u32) = c"
  by (rule bit_word_eqI) (auto simp: bit_simps)

lemma FNV_PRIME_inj: "x * FNV_PRIME = y * FNV_PRIME \<Longrightarrow> x = y"
proof -
  assume "x * FNV_PRIME = y * FNV_PRIME"
  then have "x * (FNV_PRIME * 899433627) = y * (FNV_PRIME * 899433627)"
    by (simp only: mult.assoc [symmetric])
  moreover have "FNV_PRIME * 899433627 = 1"
    by (simp add: FNV_PRIME_def)
  ultimately show "x = y" by simp
qed

lemma fnv1_seed_inj: "fnv1 h s = fnv1 g s \<Longrightarrow> h = g"
  by (induction s arbitrary: h g) (fastforce dest: FNV_PRIME_inj split: if_splits)+

lemma fnv1_append: "0 \<notin> set s \<Longrightarrow> fnv1 h (s @ t) = fnv1 (fnv1 h s) t"
  by (induction s arbitrary: h) auto

text \<open>
  The hash \<open>H\<close> separates strings that differ in exactly one character: replacing one
  nonzero character by a different nonzero one always changes the hash.
\<close>

theorem H_separates_one_char:
  assumes "0 \<notin> set (pre @ [c, d])" and "c \<noteq> d"
  shows "H (pre @ [c] @ post) \<noteq> H (pre @ [d] @ post)"
proof
  assume "H (pre @ [c] @ post) = H (pre @ [d] @ post)"
  with assms have "fnv1 ((fnv1 FNV_OFFSET pre * FNV_PRIME) XOR scast c) post =
      fnv1 ((fnv1 FNV_OFFSET pre * FNV_PRIME) XOR scast d) post"
    by (auto simp: H_def fnv1_append)
  then have "(scast c :: u32) = scast d"
    by (auto dest: fnv1_seed_inj)
  then have "(ucast (scast c :: u32) :: byte) = ucast (scast d :: u32)" by simp
  with \<open>c \<noteq> d\<close> show False
    by (simp add: ucast_scast_byte)
qed

lemma H_separates_one_char_witness: "H ([0x61] @ [0x62] @ [0x63]) \<noteq> H ([0x61] @ [0x78] @ [0x63])"
  by (rule H_separates_one_char) simp_all

end
