(* ===== verification/Broker_Protocol.thy ===== *)
theory Broker_Protocol
  imports Util
begin

text \<open>
  The messages of \<open>common/broker_protocol.h\<close>. The C++ \<open>reflect\<close> templates describe a message
  once and are instantiated with a serializer, a deserializer or a display; here a
  reflector is a record of the operations they call, and \<open>reflect\<close> passes the message and
  the reflector's state through them in the order of the source. The locales
  \<open>message_writer\<close> and \<open>message_reader\<close> state what a writing and a reading reflector promise;
  every message can be written by the one and read by the other.
\<close>

section \<open>Reflectors\<close>

text \<open>
  \<open>rf_const\<close> is the overload for \<open>const int &\<close>, which the message types use for their tag.
\<close>

record 'r reflector =
  rf_begin :: "'r \<Rightarrow> 'r outcome"
  rf_const :: "c_int \<Rightarrow> string \<Rightarrow> 'r \<Rightarrow> 'r outcome"
  rf_int :: "c_int \<Rightarrow> string \<Rightarrow> 'r \<Rightarrow> (c_int \<times> 'r) outcome"
  rf_text :: "bytes \<Rightarrow> string \<Rightarrow> 'r \<Rightarrow> (bytes \<times> 'r) outcome"
  rf_bytes :: "bytes \<Rightarrow> string \<Rightarrow> 'r \<Rightarrow> (bytes \<times> 'r) outcome"
  rf_end :: "'r \<Rightarrow> 'r outcome"

section \<open>Messages\<close>

definition B_CONNECT :: c_int where "B_CONNECT = 0"
definition B_DISCONNECT :: c_int where "B_DISCONNECT = 1"
definition B_SUBSCRIBER :: c_int where "B_SUBSCRIBER = 2"
definition B_PUBLISHER :: c_int where "B_PUBLISHER = 3"
definition B_PUBLISH :: c_int where "B_PUBLISH = 4"
definition B_RESOURCE :: c_int where "B_RESOURCE = 5"

lemmas msg_types = B_CONNECT_def B_DISCONNECT_def B_SUBSCRIBER_def B_PUBLISHER_def B_PUBLISH_def
  B_RESOURCE_def

record MsgBase =
  msgType :: c_int

record MsgConnect =
  clientId :: bytes

record MsgPublish =
  publish_id :: c_int
  publish_value :: bytes

record MsgPublisher =
  publisher_id :: c_int
  publisher_topic :: bytes

record MsgSubscriber =
  subscriber_id :: c_int
  subscriber_topic :: bytes

definition reflect_MsgBase :: "'r reflector \<Rightarrow> MsgBase \<Rightarrow> 'r \<Rightarrow> (MsgBase \<times> 'r) outcome" where
  "reflect_MsgBase R m r =
     seq (rf_begin R r) (\<lambda>r.
     seq (rf_int R (msgType m) ''msgType'' r) (\<lambda>(t, r).
     seq (rf_end R r) (\<lambda>r. Inr (m\<lparr>msgType := t\<rparr>, r))))"

definition reflect_MsgConnect :: "'r reflector \<Rightarrow> MsgConnect \<Rightarrow> 'r \<Rightarrow> (MsgConnect \<times> 'r) outcome" where
  "reflect_MsgConnect R m r =
     seq (rf_begin R r) (\<lambda>r.
     seq (rf_const R B_CONNECT ''msgType'' r) (\<lambda>r.
     seq (rf_text R (clientId m) ''clientId'' r) (\<lambda>(c, r).
     seq (rf_end R r) (\<lambda>r. Inr (m\<lparr>clientId := c\<rparr>, r)))))"

text \<open>\<open>MsgDisconnect\<close> has no fields.\<close>

definition reflect_MsgDisconnect :: "'r reflector \<Rightarrow> 'r \<Rightarrow> 'r outcome" where
  "reflect_MsgDisconnect R r =
     seq (rf_begin R r) (\<lambda>r.
     seq (rf_const R B_DISCONNECT ''msgType'' r) (rf_end R))"

definition reflect_MsgPublish :: "'r reflector \<Rightarrow> MsgPublish \<Rightarrow> 'r \<Rightarrow> (MsgPublish \<times> 'r) outcome" where
  "reflect_MsgPublish R m r =
     seq (rf_begin R r) (\<lambda>r.
     seq (rf_const R B_PUBLISH ''msgType'' r) (\<lambda>r.
     seq (rf_int R (publish_id m) ''id'' r) (\<lambda>(i, r).
     seq (rf_bytes R (publish_value m) ''value'' r) (\<lambda>(v, r).
     seq (rf_end R r) (\<lambda>r. Inr (m\<lparr>publish_id := i, publish_value := v\<rparr>, r))))))"

definition reflect_MsgPublisher :: "'r reflector \<Rightarrow> MsgPublisher \<Rightarrow> 'r \<Rightarrow> (MsgPublisher \<times> 'r) outcome" where
  "reflect_MsgPublisher R m r =
     seq (rf_begin R r) (\<lambda>r.
     seq (rf_const R B_PUBLISHER ''msgType'' r) (\<lambda>r.
     seq (rf_int R (publisher_id m) ''id'' r) (\<lambda>(i, r).
     seq (rf_text R (publisher_topic m) ''topic'' r) (\<lambda>(t, r).
     seq (rf_end R r) (\<lambda>r. Inr (m\<lparr>publisher_id := i, publisher_topic := t\<rparr>, r))))))"

definition reflect_MsgSubscriber :: "'r reflector \<Rightarrow> MsgSubscriber \<Rightarrow> 'r \<Rightarrow> (MsgSubscriber \<times> 'r) outcome" where
  "reflect_MsgSubscriber R m r =
     seq (rf_begin R r) (\<lambda>r.
     seq (rf_const R B_SUBSCRIBER ''msgType'' r) (\<lambda>r.
     seq (rf_int R (subscriber_id m) ''id'' r) (\<lambda>(i, r).
     seq (rf_text R (subscriber_topic m) ''topic'' r) (\<lambda>(t, r).
     seq (rf_end R r) (\<lambda>r. Inr (m\<lparr>subscriber_id := i, subscriber_topic := t\<rparr>, r))))))"

lemmas reflect_defs = reflect_MsgBase_def reflect_MsgConnect_def reflect_MsgDisconnect_def
  reflect_MsgPublish_def reflect_MsgPublisher_def reflect_MsgSubscriber_def

section \<open>The display reflector\<close>

text \<open>
  \<open>Display\<close> of \<open>common/Display.h\<close> prints every member as \<open>name:value,\<close>. How the stream
  prints an integer is the C++ library's: \<open>show_int\<close> stands for it, \<open>fmt\<close> for
  \<open>string_format\<close> in \<open>hexDump\<close>. \<open>toString\<close> appends the \<open>ends\<close> manipulator's zero byte.
\<close>

definition Display_reflector :: "(c_int \<Rightarrow> string) \<Rightarrow> (nat \<Rightarrow> string) \<Rightarrow> string reflector" where
  "Display_reflector show_int fmt =
     \<lparr>rf_begin = (\<lambda>ss. Inr []),
      rf_const = (\<lambda>t name ss. Inr (ss @ name @ '':'' @ show_int t @ '','')),
      rf_int = (\<lambda>t name ss. Inr (t, ss @ name @ '':'' @ show_int t @ '','')),
      rf_text = (\<lambda>t name ss. Inr (t, ss @ name @ '':'' @ map (\<lambda>b. char_of (unat b)) t @ '','')),
      rf_bytes = (\<lambda>t name ss. Inr (t, ss @ name @ '':'' @ hexDump fmt t '' '' @ '','')),
      rf_end = Inr\<rparr>"

definition Display_toString :: "string \<Rightarrow> string" where
  "Display_toString ss = ss @ [CHR 0x00]"

section \<open>Message items\<close>

text \<open>
  What a message looks like on the wire: the items of its array. \<open>CSimple\<close> stands for the
  fixed-size items that are not integers (booleans, null, floats).
\<close>

datatype cbor_item = CInt int | CText bytes | CBytes bytes | CSimple byte

fun fixed_size :: "cbor_item \<Rightarrow> bool" where
  "fixed_size (CInt _) = True"
| "fixed_size (CSimple _) = True"
| "fixed_size _ = False"

definition items_MsgConnect :: "MsgConnect \<Rightarrow> cbor_item list" where
  "items_MsgConnect m = [CInt (sint B_CONNECT), CText (clientId m)]"

definition items_MsgDisconnect :: "cbor_item list" where
  "items_MsgDisconnect = [CInt (sint B_DISCONNECT)]"

definition items_MsgPublish :: "MsgPublish \<Rightarrow> cbor_item list" where
  "items_MsgPublish m = [CInt (sint B_PUBLISH), CInt (sint (publish_id m)), CBytes (publish_value m)]"

definition items_MsgPublisher :: "MsgPublisher \<Rightarrow> cbor_item list" where
  "items_MsgPublisher m =
     [CInt (sint B_PUBLISHER), CInt (sint (publisher_id m)), CText (publisher_topic m)]"

definition items_MsgSubscriber :: "MsgSubscriber \<Rightarrow> cbor_item list" where
  "items_MsgSubscriber m =
     [CInt (sint B_SUBSCRIBER), CInt (sint (subscriber_id m)), CText (subscriber_topic m)]"

lemmas items_defs = items_MsgConnect_def items_MsgDisconnect_def items_MsgPublish_def
  items_MsgPublisher_def items_MsgSubscriber_def

text \<open>A C string assigned from a zero-terminated buffer ends at its first zero byte.\<close>

definition c_string :: "bytes \<Rightarrow> bytes" where
  "c_string s = takeWhile (\<lambda>b. b \<noteq> 0) s"

lemma c_string_no_nul [simp]: "0 \<notin> set s \<Longrightarrow> c_string s = s"
  unfolding c_string_def by (subst takeWhile_eq_all_conv) auto

section \<open>What a writer promises\<close>

locale message_writer =
  fixes W :: "'w reflector"
    and ready :: "'w \<Rightarrow> bool"
    and writing :: "'w \<Rightarrow> cbor_item list \<Rightarrow> bool"
    and written :: "'w \<Rightarrow> cbor_item list \<Rightarrow> bool"
    and fits :: "cbor_item list \<Rightarrow> bool"
  assumes fits_prefix: "fits (xs @ ys) \<Longrightarrow> fits xs"
    and w_begin: "ready w \<Longrightarrow> \<exists>w'. rf_begin W w = Inr w' \<and> writing w' []"
    and w_const: "writing w xs \<Longrightarrow> fits (xs @ [CInt (sint v)]) \<Longrightarrow>
      \<exists>w'. rf_const W v n w = Inr w' \<and> writing w' (xs @ [CInt (sint v)])"
    and w_int: "writing w xs \<Longrightarrow> fits (xs @ [CInt (sint v)]) \<Longrightarrow>
      \<exists>w'. rf_int W v n w = Inr (v, w') \<and> writing w' (xs @ [CInt (sint v)])"
    and w_text: "writing w xs \<Longrightarrow> fits (xs @ [CText t]) \<Longrightarrow>
      \<exists>w'. rf_text W t n w = Inr (t, w') \<and> writing w' (xs @ [CText t])"
    and w_bytes: "writing w xs \<Longrightarrow> fits (xs @ [CBytes b]) \<Longrightarrow>
      \<exists>w'. rf_bytes W b n w = Inr (b, w') \<and> writing w' (xs @ [CBytes b])"
    and w_end: "writing w xs \<Longrightarrow> fits xs \<Longrightarrow> \<exists>w'. rf_end W w = Inr w' \<and> written w' xs"
begin

lemma fits_take: "fits xs \<Longrightarrow> fits (take n xs)"
  using fits_prefix [of "take n xs" "drop n xs"] by simp

lemmas fits1 = fits_take [where n = 1, simplified]
lemmas fits2 = fits_take [where n = 2, simplified]

lemma write_connect:
  assumes "ready w" "fits (items_MsgConnect m)"
  shows "\<exists>w'. reflect_MsgConnect W m w = Inr (m, w') \<and> written w' (items_MsgConnect m)"
proof -
  from w_begin [OF assms(1)] obtain w0 where 0: "rf_begin W w = Inr w0" "writing w0 []" by blast
  from w_const [OF 0(2), of B_CONNECT] fits1 [OF assms(2)] obtain w1 where
    1: "rf_const W B_CONNECT ''msgType'' w0 = Inr w1" "writing w1 [CInt (sint B_CONNECT)]"
    by (auto simp: items_defs)
  from w_text [OF 1(2), of "clientId m"] assms(2) obtain w2 where
    2: "rf_text W (clientId m) ''clientId'' w1 = Inr (clientId m, w2)" "writing w2 (items_MsgConnect m)"
    by (auto simp: items_defs)
  from w_end [OF 2(2) assms(2)] 0 1 2 show ?thesis
    by (auto simp: reflect_defs)
qed

lemma write_disconnect:
  assumes "ready w" "fits items_MsgDisconnect"
  shows "\<exists>w'. reflect_MsgDisconnect W w = Inr w' \<and> written w' items_MsgDisconnect"
proof -
  from w_begin [OF assms(1)] obtain w0 where 0: "rf_begin W w = Inr w0" "writing w0 []" by blast
  from w_const [OF 0(2), of B_DISCONNECT] assms(2) obtain w1 where
    1: "rf_const W B_DISCONNECT ''msgType'' w0 = Inr w1" "writing w1 items_MsgDisconnect"
    by (auto simp: items_defs)
  from w_end [OF 1(2) assms(2)] 0 1 show ?thesis
    by (auto simp: reflect_defs)
qed

lemma write_head:
  assumes "ready w" "fits (CInt (sint t) # CInt (sint i) # xs)"
  obtains w0 w1 w2 where "rf_begin W w = Inr w0" "rf_const W t n w0 = Inr w1"
    "rf_int W i k w1 = Inr (i, w2)" "writing w2 [CInt (sint t), CInt (sint i)]"
proof -
  from w_begin [OF assms(1)] obtain w0 where 0: "rf_begin W w = Inr w0" "writing w0 []" by blast
  from w_const [OF 0(2), of t n] fits1 [OF assms(2)] obtain w1 where
    1: "rf_const W t n w0 = Inr w1" "writing w1 [CInt (sint t)]" by auto
  from w_int [OF 1(2), of i k] fits2 [OF assms(2)] obtain w2 where
    "rf_int W i k w1 = Inr (i, w2)" "writing w2 [CInt (sint t), CInt (sint i)]" by auto
  with 0 1 show thesis by (blast intro: that)
qed

lemma write_publish:
  assumes "ready w" "fits (items_MsgPublish m)"
  shows "\<exists>w'. reflect_MsgPublish W m w = Inr (m, w') \<and> written w' (items_MsgPublish m)"
proof -
  from write_head [OF assms(1) assms(2) [unfolded items_defs], of "''msgType''" "''id''"]
  obtain w0 w1 w2 where h: "rf_begin W w = Inr w0" "rf_const W B_PUBLISH ''msgType'' w0 = Inr w1"
    "rf_int W (publish_id m) ''id'' w1 = Inr (publish_id m, w2)"
    "writing w2 [CInt (sint B_PUBLISH), CInt (sint (publish_id m))]" by blast
  from w_bytes [OF h(4), of "publish_value m"] assms(2) obtain w3 where
    3: "rf_bytes W (publish_value m) ''value'' w2 = Inr (publish_value m, w3)"
      "writing w3 (items_MsgPublish m)"
    by (auto simp: items_defs)
  from w_end [OF 3(2) assms(2)] h 3 show ?thesis
    by (auto simp: reflect_defs)
qed

lemma write_publisher:
  assumes "ready w" "fits (items_MsgPublisher m)"
  shows "\<exists>w'. reflect_MsgPublisher W m w = Inr (m, w') \<and> written w' (items_MsgPublisher m)"
proof -
  from write_head [OF assms(1) assms(2) [unfolded items_defs], of "''msgType''" "''id''"]
  obtain w0 w1 w2 where h: "rf_begin W w = Inr w0" "rf_const W B_PUBLISHER ''msgType'' w0 = Inr w1"
    "rf_int W (publisher_id m) ''id'' w1 = Inr (publisher_id m, w2)"
    "writing w2 [CInt (sint B_PUBLISHER), CInt (sint (publisher_id m))]" by blast
  from w_text [OF h(4), of "publisher_topic m"] assms(2) obtain w3 where
    3: "rf_text W (publisher_topic m) ''topic'' w2 = Inr (publisher_topic m, w3)"
      "writing w3 (items_MsgPublisher m)"
    by (auto simp: items_defs)
  from w_end [OF 3(2) assms(2)] h 3 show ?thesis
    by (auto simp: reflect_defs)
qed

lemma write_subscriber:
  assumes "ready w" "fits (items_MsgSubscriber m)"
  shows "\<exists>w'. reflect_MsgSubscriber W m w = Inr (m, w') \<and> written w' (items_MsgSubscriber m)"
proof -
  from write_head [OF assms(1) assms(2) [unfolded items_defs], of "''msgType''" "''id''"]
  obtain w0 w1 w2 where h: "rf_begin W w = Inr w0" "rf_const W B_SUBSCRIBER ''msgType'' w0 = Inr w1"
    "rf_int W (subscriber_id m) ''id'' w1 = Inr (subscriber_id m, w2)"
    "writing w2 [CInt (sint B_SUBSCRIBER), CInt (sint (subscriber_id m))]" by blast
  from w_text [OF h(4), of "subscriber_topic m"] assms(2) obtain w3 where
    3: "rf_text W (subscriber_topic m) ''topic'' w2 = Inr (subscriber_topic m, w3)"
      "writing w3 (items_MsgSubscriber m)"
    by (auto simp: items_defs)
  from w_end [OF 3(2) assms(2)] h 3 show ?thesis
    by (auto simp: reflect_defs)
qed

end

section \<open>What a reader promises\<close>

locale message_reader =
  fixes R :: "'d reflector"
    and loaded :: "'d \<Rightarrow> cbor_item list \<Rightarrow> bool"
    and reading :: "'d \<Rightarrow> cbor_item list \<Rightarrow> bool"
  assumes r_begin: "loaded d xs \<Longrightarrow> \<exists>d'. rf_begin R d = Inr d' \<and> reading d' xs"
    and r_const: "reading d (x # xs) \<Longrightarrow> fixed_size x \<Longrightarrow> \<exists>d'. rf_const R t n d = Inr d' \<and> reading d' xs"
    and r_int: "reading d (CInt (sint v) # xs) \<Longrightarrow> \<exists>d'. rf_int R t n d = Inr (v, d') \<and> reading d' xs"
    and r_simple: "reading d (CSimple y # xs) \<Longrightarrow> \<exists>d'. rf_int R t n d = Inr (t, d') \<and> reading d' xs"
    and r_text: "reading d (CText s # xs) \<Longrightarrow> \<exists>d'. rf_text R s0 n d = Inr (c_string s, d') \<and> reading d' xs"
    and r_bytes: "reading d (CBytes b # xs) \<Longrightarrow> \<exists>d'. rf_bytes R s0 n d = Inr (b, d') \<and> reading d' xs"
    and r_end: "reading d xs \<Longrightarrow> \<exists>d'. rf_end R d = Inr d' \<and> reading d' xs"
begin

lemma read_base:
  assumes "loaded d (CInt (sint v) # xs)"
  shows "\<exists>d'. reflect_MsgBase R m d = Inr (m\<lparr>msgType := v\<rparr>, d') \<and> reading d' xs"
proof -
  from r_begin [OF assms] obtain d0 where 0: "rf_begin R d = Inr d0" "reading d0 (CInt (sint v) # xs)" by blast
  from r_int [OF 0(2), of "msgType m" "''msgType''"] obtain d1 where
    1: "rf_int R (msgType m) ''msgType'' d0 = Inr (v, d1)" "reading d1 xs" by blast
  from r_end [OF 1(2)] 0 1 show ?thesis by (auto simp: reflect_defs)
qed

text \<open>A first item of another fixed size leaves the message type as it was.\<close>

lemma read_base_simple:
  assumes "loaded d (CSimple b # xs)"
  shows "\<exists>d'. reflect_MsgBase R m d = Inr (m, d') \<and> reading d' xs"
proof -
  from r_begin [OF assms] obtain d0 where 0: "rf_begin R d = Inr d0" "reading d0 (CSimple b # xs)" by blast
  from r_simple [OF 0(2), of "msgType m" "''msgType''"] obtain d1 where
    1: "rf_int R (msgType m) ''msgType'' d0 = Inr (msgType m, d1)" "reading d1 xs" by blast
  from r_end [OF 1(2)] 0 1 show ?thesis by (auto simp: reflect_defs)
qed

lemma read_connect:
  assumes "loaded d (items_MsgConnect m)"
  shows "\<exists>d'. reflect_MsgConnect R m0 d = Inr (m0\<lparr>clientId := c_string (clientId m)\<rparr>, d') \<and> reading d' []"
proof -
  from r_begin [OF assms] obtain d0 where
    0: "rf_begin R d = Inr d0" "reading d0 (items_MsgConnect m)" by blast
  from r_const [OF 0(2) [unfolded items_defs], where t = B_CONNECT and n = "''msgType''"] obtain d1 where
    1: "rf_const R B_CONNECT ''msgType'' d0 = Inr d1" "reading d1 [CText (clientId m)]" by auto
  from r_text [OF 1(2), of "clientId m0" "''clientId''"] obtain d2 where
    2: "rf_text R (clientId m0) ''clientId'' d1 = Inr (c_string (clientId m), d2)" "reading d2 []" by blast
  from r_end [OF 2(2)] 0 1 2 show ?thesis by (auto simp: reflect_defs)
qed

lemma read_disconnect:
  assumes "loaded d items_MsgDisconnect"
  shows "\<exists>d'. reflect_MsgDisconnect R d = Inr d' \<and> reading d' []"
proof -
  from r_begin [OF assms] obtain d0 where 0: "rf_begin R d = Inr d0" "reading d0 items_MsgDisconnect" by blast
  from r_const [OF 0(2) [unfolded items_defs], where t = B_DISCONNECT and n = "''msgType''"] obtain d1 where
    1: "rf_const R B_DISCONNECT ''msgType'' d0 = Inr d1" "reading d1 []" by auto
  from r_end [OF 1(2)] 0 1 show ?thesis by (auto simp: reflect_defs)
qed

lemma read_head:
  assumes "loaded d (x # CInt (sint i) # xs)" "fixed_size x"
  obtains d0 d1 d2 where "rf_begin R d = Inr d0" "rf_const R t n d0 = Inr d1"
    "rf_int R j k d1 = Inr (i, d2)" "reading d2 xs"
  using r_begin [OF assms(1)] assms(2) by (meson r_const r_int)

text \<open>Reading does not look at the tag: any item of fixed size will do.\<close>

lemma read_publish_items:
  assumes "loaded d [x, CInt (sint i), CBytes v]" "fixed_size x"
  shows "\<exists>d'. reflect_MsgPublish R m0 d = Inr (m0\<lparr>publish_id := i, publish_value := v\<rparr>, d') \<and> reading d' []"
proof -
  from read_head [OF assms, of B_PUBLISH "''msgType''" "publish_id m0" "''id''"]
  obtain d0 d1 d2 where h: "rf_begin R d = Inr d0" "rf_const R B_PUBLISH ''msgType'' d0 = Inr d1"
    "rf_int R (publish_id m0) ''id'' d1 = Inr (i, d2)" "reading d2 [CBytes v]" by blast
  from r_bytes [OF h(4), of "publish_value m0" "''value''"] obtain d3 where
    3: "rf_bytes R (publish_value m0) ''value'' d2 = Inr (v, d3)" "reading d3 []" by blast
  from r_end [OF 3(2)] h 3 show ?thesis by (auto simp: reflect_defs)
qed

lemma read_publish:
  assumes "loaded d (items_MsgPublish m)"
  shows "\<exists>d'. reflect_MsgPublish R m0 d =
    Inr (m0\<lparr>publish_id := publish_id m, publish_value := publish_value m\<rparr>, d') \<and> reading d' []"
  by (rule read_publish_items [OF assms [unfolded items_defs]]) simp

lemma read_publisher:
  assumes "loaded d (items_MsgPublisher m)"
  shows "\<exists>d'. reflect_MsgPublisher R m0 d =
    Inr (m0\<lparr>publisher_id := publisher_id m, publisher_topic := c_string (publisher_topic m)\<rparr>, d') \<and> reading d' []"
proof -
  from read_head [OF assms [unfolded items_defs] fixed_size.simps(1) [THEN iffD2, OF TrueI], of B_PUBLISHER "''msgType''" "publisher_id m0" "''id''"]
  obtain d0 d1 d2 where h: "rf_begin R d = Inr d0" "rf_const R B_PUBLISHER ''msgType'' d0 = Inr d1"
    "rf_int R (publisher_id m0) ''id'' d1 = Inr (publisher_id m, d2)" "reading d2 [CText (publisher_topic m)]" by blast
  from r_text [OF h(4), of "publisher_topic m0" "''topic''"] obtain d3 where
    3: "rf_text R (publisher_topic m0) ''topic'' d2 = Inr (c_string (publisher_topic m), d3)" "reading d3 []" by blast
  from r_end [OF 3(2)] h 3 show ?thesis by (auto simp: reflect_defs)
qed

lemma read_subscriber:
  assumes "loaded d (items_MsgSubscriber m)"
  shows "\<exists>d'. reflect_MsgSubscriber R m0 d =
    Inr (m0\<lparr>subscriber_id := subscriber_id m, subscriber_topic := c_string (subscriber_topic m)\<rparr>, d') \<and> reading d' []"
proof -
  from read_head [OF assms [unfolded items_defs] fixed_size.simps(1) [THEN iffD2, OF TrueI], of B_SUBSCRIBER "''msgType''" "subscriber_id m0" "''id''"]
  obtain d0 d1 d2 where h: "rf_begin R d = Inr d0" "rf_const R B_SUBSCRIBER ''msgType'' d0 = Inr d1"
    "rf_int R (subscriber_id m0) ''id'' d1 = Inr (subscriber_id m, d2)" "reading d2 [CText (subscriber_topic m)]" by blast
  from r_text [OF h(4), of "subscriber_topic m0" "''topic''"] obtain d3 where
    3: "rf_text R (subscriber_topic m0) ''topic'' d2 = Inr (c_string (subscriber_topic m), d3)" "reading d3 []" by blast
  from r_end [OF 3(2)] h 3 show ?thesis by (auto simp: reflect_defs)
qed

end

end
