(* ===== verification/Cbor_Codec.thy ===== *)
theory Cbor_Codec
  imports Broker_Protocol
begin

text \<open>
  The classes \<open>CborSerializer\<close> and \<open>CborDeserializer\<close> of \<open>common/\<close>. The tinycbor library
  they drive is not part of the repository: its functions are the fields of the record
  \<open>tinycbor\<close>, a parameter of every operation, and the locale \<open>tinycbor_laws\<close> states what its
  documentation promises: an encoder writes items into an open array while they fit and
  reports an error when they do not, and a parser over the bytes of a closed array reads
  the same items back. A serializer and a deserializer over a lawful library are a message
  writer and a message reader (theory \<open>Broker_Protocol\<close>).
\<close>

section \<open>The tinycbor library\<close>

type_synonym CborError = nat

definition CborNoError :: CborError where
  "CborNoError = 0"

text \<open>
  \<open>'e\<close> is a \<open>CborEncoder\<close> with the buffer it writes to, \<open>'i\<close> a \<open>CborValue\<close>. A double is
  passed as its bit pattern. \<open>encoder_buffer\<close> gives the first \<open>cbor_encoder_get_buffer_size\<close>
  bytes of the buffer.
\<close>

record ('e, 'i) tinycbor =
  encoder_init :: "nat \<Rightarrow> 'e"
  encoder_create_array :: "'e \<Rightarrow> CborError \<times> 'e \<times> 'e"
  encode_int :: "'e \<Rightarrow> int \<Rightarrow> CborError \<times> 'e"
  encode_uint :: "'e \<Rightarrow> u64 \<Rightarrow> CborError \<times> 'e"
  encode_double :: "'e \<Rightarrow> u64 \<Rightarrow> CborError \<times> 'e"
  encode_text_string :: "'e \<Rightarrow> bytes \<Rightarrow> CborError \<times> 'e"
  encode_byte_string :: "'e \<Rightarrow> bytes \<Rightarrow> CborError \<times> 'e"
  encoder_close_container :: "'e \<Rightarrow> 'e \<Rightarrow> CborError \<times> 'e"
  encoder_buffer :: "'e \<Rightarrow> bytes"
  parser_init :: "bytes \<Rightarrow> CborError \<times> 'i"
  value_enter_container :: "'i \<Rightarrow> CborError \<times> 'i"
  value_is_integer :: "'i \<Rightarrow> bool"
  value_is_unsigned_integer :: "'i \<Rightarrow> bool"
  value_is_byte_string :: "'i \<Rightarrow> bool"
  value_is_text_string :: "'i \<Rightarrow> bool"
  value_calculate_string_length :: "'i \<Rightarrow> CborError"
  value_get_int :: "'i \<Rightarrow> CborError \<times> c_int"
  value_get_uint64 :: "'i \<Rightarrow> CborError \<times> u64"
  value_dup_byte_string :: "'i \<Rightarrow> CborError \<times> bytes"
  value_dup_text_string :: "'i \<Rightarrow> CborError \<times> bytes"
  value_advance :: "'i \<Rightarrow> CborError \<times> 'i"
  value_advance_fixed :: "'i \<Rightarrow> CborError \<times> 'i"

section \<open>Class \<open>CborSerializer\<close>\<close>

text \<open>\<open>ser_out\<close> is the content of \<open>_buffer\<close> up to \<open>_size\<close>, which only \<open>end\<close> assigns.\<close>

record 'e CborSerializer =
  ser_capacity :: nat
  ser_err :: CborError
  ser_root :: 'e
  ser_encoder :: 'e
  ser_out :: "bytes option"

definition CborSerializer_new :: "nat \<Rightarrow> 'e \<Rightarrow> 'e \<Rightarrow> 'e CborSerializer" where
  "CborSerializer_new sz root enc =
     \<lparr>ser_capacity = sz, ser_err = 0, ser_root = root, ser_encoder = enc, ser_out = None\<rparr>"

definition assert_ok :: "CborError \<Rightarrow> 'a \<Rightarrow> 'a outcome" where
  "assert_ok err x = (if err = 0 then Inr x else Inl AssertFailed)"

definition ser_begin :: "('e, 'i) tinycbor \<Rightarrow> 'e CborSerializer \<Rightarrow> 'e CborSerializer outcome" where
  "ser_begin tc s =
     (let root = encoder_init tc (ser_capacity s);
          (err, root, enc) = encoder_create_array tc root
      in assert_ok err (s\<lparr>ser_root := root, ser_encoder := enc, ser_err := err\<rparr>))"

definition ser_int :: "('e, 'i) tinycbor \<Rightarrow> c_int \<Rightarrow> 'e CborSerializer \<Rightarrow> 'e CborSerializer outcome" where
  "ser_int tc t s =
     (let (err, enc) = encode_int tc (ser_encoder s) (sint t)
      in assert_ok err (s\<lparr>ser_encoder := enc, ser_err := err\<rparr>))"

definition ser_uint64 :: "('e, 'i) tinycbor \<Rightarrow> u64 \<Rightarrow> 'e CborSerializer \<Rightarrow> 'e CborSerializer outcome" where
  "ser_uint64 tc t s =
     (let (err, enc) = encode_uint tc (ser_encoder s) t
      in assert_ok err (s\<lparr>ser_encoder := enc, ser_err := err\<rparr>))"

definition ser_int64 :: "('e, 'i) tinycbor \<Rightarrow> 64 word \<Rightarrow> 'e CborSerializer \<Rightarrow> 'e CborSerializer outcome" where
  "ser_int64 tc t s =
     (let (err, enc) = encode_int tc (ser_encoder s) (sint t)
      in assert_ok err (s\<lparr>ser_encoder := enc, ser_err := err\<rparr>))"

text \<open>The string overload records the error but does not assert.\<close>

definition ser_text :: "('e, 'i) tinycbor \<Rightarrow> bytes \<Rightarrow> 'e CborSerializer \<Rightarrow> 'e CborSerializer outcome" where
  "ser_text tc t s =
     (let (err, enc) = encode_text_string tc (ser_encoder s) t
      in Inr (s\<lparr>ser_encoder := enc, ser_err := err\<rparr>))"

definition ser_double :: "('e, 'i) tinycbor \<Rightarrow> u64 \<Rightarrow> 'e CborSerializer \<Rightarrow> 'e CborSerializer outcome" where
  "ser_double tc t s =
     (let (err, enc) = encode_double tc (ser_encoder s) t
      in assert_ok err (s\<lparr>ser_encoder := enc, ser_err := err\<rparr>))"

definition ser_bytes :: "('e, 'i) tinycbor \<Rightarrow> bytes \<Rightarrow> 'e CborSerializer \<Rightarrow> 'e CborSerializer outcome" where
  "ser_bytes tc t s =
     (let (err, enc) = encode_byte_string tc (ser_encoder s) t
      in assert_ok err (s\<lparr>ser_encoder := enc, ser_err := err\<rparr>))"

definition ser_end :: "('e, 'i) tinycbor \<Rightarrow> 'e CborSerializer \<Rightarrow> 'e CborSerializer outcome" where
  "ser_end tc s =
     (let (err, root) = encoder_close_container tc (ser_root s) (ser_encoder s)
      in seq (assert_ok err (s\<lparr>ser_root := root, ser_err := err\<rparr>)) (\<lambda>s.
         Inr (s\<lparr>ser_out := Some (encoder_buffer tc root)\<rparr>)))"

definition toBytes :: "'e CborSerializer \<Rightarrow> bytes outcome" where
  "toBytes s = (case ser_out s of None \<Rightarrow> Inl UninitRead | Some bs \<Rightarrow> Inr bs)"

definition ser_reflector :: "('e, 'i) tinycbor \<Rightarrow> 'e CborSerializer reflector" where
  "ser_reflector tc =
     \<lparr>rf_begin = ser_begin tc,
      rf_const = (\<lambda>t _. ser_int tc t),
      rf_int = (\<lambda>t _ s. seq (ser_int tc t s) (\<lambda>s. Inr (t, s))),
      rf_text = (\<lambda>t _ s. seq (ser_text tc t s) (\<lambda>s. Inr (t, s))),
      rf_bytes = (\<lambda>t _ s. seq (ser_bytes tc t s) (\<lambda>s. Inr (t, s))),
      rf_end = ser_end tc\<rparr>"

section \<open>Class \<open>CborDeserializer\<close>\<close>

text \<open>
  In this class \<open>assert\<close> is redefined to log a warning. A read that tinycbor refuses leaves
  the temporaries it should fill uninitialised, and the code copies from them.
\<close>

record 'i CborDeserializer =
  de_capacity :: nat
  de_buffer :: bytes
  de_root :: 'i
  de_it :: 'i
  de_err :: CborError

definition CborDeserializer_new :: "nat \<Rightarrow> 'i \<Rightarrow> 'i \<Rightarrow> 'i CborDeserializer" where
  "CborDeserializer_new sz root it =
     \<lparr>de_capacity = sz, de_buffer = [], de_root = root, de_it = it, de_err = 0\<rparr>"

definition de_begin :: "('e, 'i) tinycbor \<Rightarrow> 'i CborDeserializer \<Rightarrow> 'i CborDeserializer outcome" where
  "de_begin tc d =
     (let (_, root) = parser_init tc (de_buffer d);
          (err, it) = value_enter_container tc root
      in Inr (d\<lparr>de_root := root, de_it := it, de_err := err\<rparr>))"

definition de_end :: "'i CborDeserializer \<Rightarrow> 'i CborDeserializer outcome" where
  "de_end d = Inr d"

definition de_advance :: "('e, 'i) tinycbor \<Rightarrow> 'i CborDeserializer \<Rightarrow> 'i CborDeserializer" where
  "de_advance tc d = (let (err, it) = value_advance tc (de_it d) in d\<lparr>de_it := it, de_err := err\<rparr>)"

definition de_advance_fixed :: "('e, 'i) tinycbor \<Rightarrow> 'i CborDeserializer \<Rightarrow> 'i CborDeserializer" where
  "de_advance_fixed tc d = (let (err, it) = value_advance_fixed tc (de_it d) in d\<lparr>de_it := it, de_err := err\<rparr>)"

definition de_bytes :: "('e, 'i) tinycbor \<Rightarrow> bytes \<Rightarrow> 'i CborDeserializer \<Rightarrow> (bytes \<times> 'i CborDeserializer) outcome" where
  "de_bytes tc t d =
     seq (if de_err d = 0 \<and> value_is_byte_string tc (de_it d) \<and>
             value_calculate_string_length tc (de_it d) = 0
          then (let (err, temp) = value_dup_byte_string tc (de_it d)
                in if err = 0 then Inr temp else Inl UninitRead)
          else Inr t)
       (\<lambda>t. Inr (t, de_advance tc d))"

definition de_text :: "('e, 'i) tinycbor \<Rightarrow> bytes \<Rightarrow> 'i CborDeserializer \<Rightarrow> (bytes \<times> 'i CborDeserializer) outcome" where
  "de_text tc t d =
     seq (if de_err d = 0 \<and> value_is_text_string tc (de_it d)
          then (let (err, temp) = value_dup_text_string tc (de_it d)
                in if err = 0 then Inr (c_string temp) else Inl UninitRead)
          else Inr t)
       (\<lambda>t. Inr (t, de_advance tc d))"

definition de_int :: "('e, 'i) tinycbor \<Rightarrow> c_int \<Rightarrow> 'i CborDeserializer \<Rightarrow> (c_int \<times> 'i CborDeserializer) outcome" where
  "de_int tc t d =
     (let t = (if de_err d = 0 \<and> value_is_integer tc (de_it d)
               then snd (value_get_int tc (de_it d)) else t)
      in Inr (t, de_advance_fixed tc d))"

definition de_uint64 :: "('e, 'i) tinycbor \<Rightarrow> u64 \<Rightarrow> 'i CborDeserializer \<Rightarrow> (u64 \<times> 'i CborDeserializer) outcome" where
  "de_uint64 tc t d =
     (let t = (if de_err d = 0 \<and> value_is_unsigned_integer tc (de_it d)
               then snd (value_get_uint64 tc (de_it d)) else t)
      in Inr (t, de_advance_fixed tc d))"

text \<open>The overload for \<open>const int &\<close> reads into a local variable: the tag is not compared.\<close>

definition de_const_int :: "('e, 'i) tinycbor \<Rightarrow> c_int \<Rightarrow> 'i CborDeserializer \<Rightarrow> 'i CborDeserializer outcome" where
  "de_const_int tc t d = Inr (de_advance_fixed tc d)"

definition fromBytes :: "bytes \<Rightarrow> 'i CborDeserializer \<Rightarrow> 'i CborDeserializer" where
  "fromBytes bs d =
     (let n = (if length bs < de_capacity d then length bs else de_capacity d)
      in d\<lparr>de_buffer := take n bs\<rparr>)"

definition success :: "'i CborDeserializer \<Rightarrow> bool" where
  "success d \<longleftrightarrow> de_err d = 0"

definition de_reflector :: "('e, 'i) tinycbor \<Rightarrow> 'i CborDeserializer reflector" where
  "de_reflector tc =
     \<lparr>rf_begin = de_begin tc,
      rf_const = (\<lambda>t _. de_const_int tc t),
      rf_int = (\<lambda>t _. de_int tc t),
      rf_text = (\<lambda>t _. de_text tc t),
      rf_bytes = (\<lambda>t _. de_bytes tc t),
      rf_end = de_end\<rparr>"

section \<open>What the library promises\<close>

text \<open>
  \<open>open_array cap xs root enc\<close>: \<open>enc\<close> has written the items \<open>xs\<close> into an array opened on
  \<open>root\<close> in a buffer of \<open>cap\<close> bytes. \<open>at xs it\<close>: the value \<open>it\<close> stands in front of the
  items \<open>xs\<close> of an array. \<open>item_size\<close> is the number of bytes of an item; an indefinite-length
  array takes one byte to open and one to close.
\<close>

locale tinycbor_encoder =
  fixes tc :: "('e, 'i) tinycbor"
    and open_array :: "nat \<Rightarrow> cbor_item list \<Rightarrow> 'e \<Rightarrow> 'e \<Rightarrow> bool"
    and item_size :: "cbor_item \<Rightarrow> nat"
  assumes create: "1 \<le> cap \<Longrightarrow> cap < 2 ^ 32 \<Longrightarrow>
      \<exists>r c. encoder_create_array tc (encoder_init tc cap) = (0, r, c) \<and> open_array cap [] r c"
    and put_int: "open_array cap xs r c \<Longrightarrow> - (2 ^ 63) \<le> v \<Longrightarrow> v < 2 ^ 63 \<Longrightarrow>
      1 + sum_list (map item_size (xs @ [CInt v])) \<le> cap \<Longrightarrow>
      \<exists>c'. encode_int tc c v = (0, c') \<and> open_array cap (xs @ [CInt v]) r c'"
    and put_text: "open_array cap xs r c \<Longrightarrow> 1 + sum_list (map item_size (xs @ [CText s])) \<le> cap \<Longrightarrow>
      \<exists>c'. encode_text_string tc c s = (0, c') \<and> open_array cap (xs @ [CText s]) r c'"
    and put_bytes: "open_array cap xs r c \<Longrightarrow> 1 + sum_list (map item_size (xs @ [CBytes s])) \<le> cap \<Longrightarrow>
      \<exists>c'. encode_byte_string tc c s = (0, c') \<and> open_array cap (xs @ [CBytes s]) r c'"
    and full_bytes: "open_array cap xs r c \<Longrightarrow> cap < 1 + sum_list (map item_size (xs @ [CBytes s])) \<Longrightarrow>
      fst (encode_byte_string tc c s) \<noteq> 0"
    and bytes_size: "length s < item_size (CBytes s)"

locale tinycbor_parser =
  fixes tc :: "('e, 'i) tinycbor"
    and at :: "cbor_item list \<Rightarrow> 'i \<Rightarrow> bool"
  assumes get_int: "at (CInt (sint (w :: c_int)) # xs) it \<Longrightarrow>
      value_is_integer tc it \<and> value_get_int tc it = (0, w)"
    and not_int: "at (CSimple y # xs) it \<Longrightarrow> \<not> value_is_integer tc it"
    and get_uint: "at (CInt v # xs) it \<Longrightarrow> 0 \<le> v \<Longrightarrow> v < 2 ^ 64 \<Longrightarrow>
      value_is_unsigned_integer tc it \<and> value_get_uint64 tc it = (0, word_of_int v)"
    and not_uint: "at (CInt v # xs) it \<Longrightarrow> v < 0 \<Longrightarrow> \<not> value_is_unsigned_integer tc it"
    and get_text: "at (CText s # xs) it \<Longrightarrow>
      value_is_text_string tc it \<and> value_dup_text_string tc it = (0, s)"
    and get_bytes: "at (CBytes s # xs) it \<Longrightarrow> value_is_byte_string tc it \<and>
      value_calculate_string_length tc it = 0 \<and> value_dup_byte_string tc it = (0, s)"
    and advance: "at (x # xs) it \<Longrightarrow> \<exists>it'. value_advance tc it = (0, it') \<and> at xs it'"
    and advance_fixed: "at (x # xs) it \<Longrightarrow> fixed_size x \<Longrightarrow>
      \<exists>it'. value_advance_fixed tc it = (0, it') \<and> at xs it'"

locale tinycbor_laws = tinycbor_encoder tc open_array item_size + tinycbor_parser tc at
  for tc :: "('e, 'i) tinycbor"
    and open_array :: "nat \<Rightarrow> cbor_item list \<Rightarrow> 'e \<Rightarrow> 'e \<Rightarrow> bool"
    and at :: "cbor_item list \<Rightarrow> 'i \<Rightarrow> bool"
    and item_size :: "cbor_item \<Rightarrow> nat" +
  assumes close: "open_array cap xs r c \<Longrightarrow> 2 + sum_list (map item_size xs) \<le> cap \<Longrightarrow>
      \<exists>r' root it. encoder_close_container tc r c = (0, r') \<and>
        length (encoder_buffer tc r') = 2 + sum_list (map item_size xs) \<and>
        parser_init tc (encoder_buffer tc r') = (0, root) \<and>
        value_enter_container tc root = (0, it) \<and> at xs it"

text \<open>\<open>bs\<close> is a non-empty encoding of an array of the items \<open>xs\<close> that fits a buffer of \<open>cap\<close> bytes.\<close>

definition cbor_encodes ::
    "('e, 'i) tinycbor \<Rightarrow> (cbor_item list \<Rightarrow> 'i \<Rightarrow> bool) \<Rightarrow> nat \<Rightarrow> cbor_item list \<Rightarrow> bytes \<Rightarrow> bool" where
  "cbor_encodes tc at cap xs bs \<longleftrightarrow> bs \<noteq> [] \<and> length bs \<le> cap \<and>
     (\<exists>root it. parser_init tc bs = (0, root) \<and> value_enter_container tc root = (0, it) \<and> at xs it)"

text \<open>
  A channel: messages serialized with a capacity \<open>cap\<close> and read with a buffer of \<open>dcap\<close>
  bytes; the program uses 1024 for both.
\<close>

locale cbor_channel = tinycbor_laws tc open_array at item_size
  for tc :: "('e, 'i) tinycbor"
    and open_array :: "nat \<Rightarrow> cbor_item list \<Rightarrow> 'e \<Rightarrow> 'e \<Rightarrow> bool"
    and at :: "cbor_item list \<Rightarrow> 'i \<Rightarrow> bool"
    and item_size :: "cbor_item \<Rightarrow> nat" +
  fixes cap dcap :: nat
  assumes cap_bounds: "2 \<le> cap" "cap < 2 ^ 32" "cap \<le> dcap"
begin

definition fits :: "cbor_item list \<Rightarrow> bool" where
  "fits xs \<longleftrightarrow> 2 + sum_list (map item_size xs) \<le> cap"

definition ser_ready :: "'e CborSerializer \<Rightarrow> bool" where
  "ser_ready s \<longleftrightarrow> ser_capacity s = cap"

definition ser_writing :: "'e CborSerializer \<Rightarrow> cbor_item list \<Rightarrow> bool" where
  "ser_writing s xs \<longleftrightarrow> ser_capacity s = cap \<and> open_array cap xs (ser_root s) (ser_encoder s)"

abbreviation encodes :: "cbor_item list \<Rightarrow> bytes \<Rightarrow> bool" where
  "encodes \<equiv> cbor_encodes tc at cap"

definition ser_written :: "'e CborSerializer \<Rightarrow> cbor_item list \<Rightarrow> bool" where
  "ser_written s xs \<longleftrightarrow> ser_capacity s = cap \<and>
     (\<exists>bs. toBytes s = Inr bs \<and> encodes xs bs \<and> length bs = 2 + sum_list (map item_size xs))"

definition de_loaded :: "'i CborDeserializer \<Rightarrow> cbor_item list \<Rightarrow> bool" where
  "de_loaded d xs \<longleftrightarrow> de_capacity d = dcap \<and> encodes xs (de_buffer d)"

definition de_reading :: "'i CborDeserializer \<Rightarrow> cbor_item list \<Rightarrow> bool" where
  "de_reading d xs \<longleftrightarrow> de_capacity d = dcap \<and> de_err d = 0 \<and> at xs (de_it d)"

lemma loads:
  assumes "encodes xs bs" "de_capacity d = dcap"
  shows "de_loaded (fromBytes bs d) xs"
  using assms cap_bounds by (auto simp: de_loaded_def fromBytes_def cbor_encodes_def Let_def)

lemma reading_success: "de_reading d xs \<Longrightarrow> success d"
  by (simp add: de_reading_def success_def)

lemma reading_capacity: "de_reading d xs \<Longrightarrow> de_capacity d = dcap"
  by (simp add: de_reading_def)

lemma sint_c_int: "- (2 ^ 63) \<le> sint (w :: c_int)" "sint (w :: c_int) < 2 ^ 63"
  using sint_ge [of w] sint_lt [of w] by simp_all

lemmas ser_defs = ser_ready_def ser_writing_def ser_written_def ser_reflector_def ser_begin_def
  ser_int_def ser_text_def ser_bytes_def ser_end_def assert_ok_def toBytes_def cbor_encodes_def fits_def

lemma ser_put_int:
  assumes "ser_writing s xs" "fits (xs @ [CInt (sint v)])"
  shows "\<exists>s'. ser_int tc v s = Inr s' \<and> ser_writing s' (xs @ [CInt (sint v)])"
  using put_int [of cap xs "ser_root s" "ser_encoder s" "sint v"] assms sint_c_int [of v]
  by (auto simp: ser_defs)

lemma writer: "message_writer (ser_reflector tc) ser_ready ser_writing ser_written fits"
proof (unfold_locales, goal_cases)
  case (1 xs ys)
  then show ?case by (simp add: fits_def)
next
  case (2 w)
  then show ?case using create [of cap] cap_bounds by (auto simp: ser_defs)
next
  case (3 w xs v n)
  then show ?case using ser_put_int by (simp add: ser_reflector_def)
next
  case (4 w xs v n)
  then obtain s' where "ser_int tc v w = Inr s'" "ser_writing s' (xs @ [CInt (sint v)])"
    using ser_put_int by blast
  then show ?case by (simp add: ser_reflector_def)
next
  case (5 w xs t n)
  then show ?case
    using put_text [of cap xs "ser_root w" "ser_encoder w" t] by (auto simp: ser_defs)
next
  case (6 w xs b n)
  then show ?case
    using put_bytes [of cap xs "ser_root w" "ser_encoder w" b] by (auto simp: ser_defs)
next
  case (7 w xs)
  then show ?case
    using close [of cap xs "ser_root w" "ser_encoder w"] by (auto simp: ser_defs)
qed

lemma reader: "message_reader (de_reflector tc) de_loaded de_reading"
proof (unfold_locales, goal_cases)
  case (1 d xs)
  then show ?case by (auto simp: de_loaded_def de_reading_def cbor_encodes_def de_reflector_def de_begin_def)
next
  case (2 d x xs t n)
  then show ?case using advance_fixed [of x xs "de_it d"]
    by (auto simp: de_reading_def de_reflector_def de_const_int_def de_advance_fixed_def)
next
  case (3 d v xs t n)
  then show ?case using advance_fixed [of "CInt (sint v)" xs "de_it d"] get_int [of v xs "de_it d"]
    by (auto simp: de_reading_def de_reflector_def de_int_def de_advance_fixed_def Let_def)
next
  case (4 d y xs t n)
  then show ?case using advance_fixed [of "CSimple y" xs "de_it d"] not_int [of y xs "de_it d"]
    by (auto simp: de_reading_def de_reflector_def de_int_def de_advance_fixed_def Let_def)
next
  case (5 d s xs s0 n)
  then show ?case using advance [of "CText s" xs "de_it d"] get_text [of s xs "de_it d"]
    by (auto simp: de_reading_def de_reflector_def de_text_def de_advance_def)
next
  case (6 d b xs s0 n)
  then show ?case using advance [of "CBytes b" xs "de_it d"] get_bytes [of b xs "de_it d"]
    by (auto simp: de_reading_def de_reflector_def de_bytes_def de_advance_def)
next
  case (7 d xs)
  then show ?case by (auto simp: de_reflector_def de_end_def)
qed

end

sublocale cbor_channel \<subseteq> ser: message_writer "ser_reflector tc" ser_ready ser_writing ser_written fits
  by (rule writer)

sublocale cbor_channel \<subseteq> de: message_reader "de_reflector tc" de_loaded de_reading
  by (rule reader)

end
