(* ===== verification/Cbor_Wire.thy ===== *)
theory Cbor_Wire
  imports Cbor_Codec
begin

text \<open>
  A codec for the wire format the repository's tests pin down (\<open>src/test.cpp\<close> spells out the
  bytes of a \<open>MsgPublisher\<close>): RFC 8949 CBOR with shortest heads and indefinite-length
  arrays. It satisfies \<open>tinycbor_laws\<close>, which shows that the laws can hold together, and
  lets the message properties be evaluated on concrete bytes.
\<close>

section \<open>Big-endian numbers\<close>

fun be :: "nat \<Rightarrow> nat \<Rightarrow> bytes" where
  "be 0 n = []"
| "be (Suc k) n = be k (n div 256) @ [word_of_nat (n mod 256)]"

definition unbe :: "bytes \<Rightarrow> nat" where
  "unbe bs = foldl (\<lambda>a b. a * 256 + unat b) 0 bs"

lemma length_be [simp]: "length (be k n) = k"
  by (induction k arbitrary: n) simp_all

lemma unat_byte_of_nat: "n < 256 \<Longrightarrow> unat (word_of_nat n :: byte) = n"
  by (simp add: unat_of_nat)

lemma unbe_be: "n < 256 ^ k \<Longrightarrow> unbe (be k n) = n"
proof (induction k arbitrary: n)
  case (Suc k)
  then have "unbe (be k (n div 256)) = n div 256"
    by (simp add: less_mult_imp_div_less mult.commute)
  then show ?case
    by (simp add: unbe_def unat_byte_of_nat)
qed (simp add: unbe_def)

section \<open>Heads\<close>

definition initial_byte :: "nat \<Rightarrow> nat \<Rightarrow> byte" where
  "initial_byte major info = word_of_nat (major * 32 + info)"

lemma initial_byte_fields:
  assumes "major < 8" "info < 32"
  shows "unat (initial_byte major info) div 32 = major" "unat (initial_byte major info) mod 32 = info"
proof -
  have "unat (initial_byte major info) = major * 32 + info"
    unfolding initial_byte_def using assms by (intro unat_byte_of_nat) simp
  then show "unat (initial_byte major info) div 32 = major" "unat (initial_byte major info) mod 32 = info"
    using assms(2) by simp_all
qed

definition wire_head :: "nat \<Rightarrow> nat \<Rightarrow> bytes" where
  "wire_head major n =
     (if n < 24 then [initial_byte major n]
      else if n < 2 ^ 8 then initial_byte major 24 # be 1 n
      else if n < 2 ^ 16 then initial_byte major 25 # be 2 n
      else if n < 2 ^ 32 then initial_byte major 26 # be 4 n
      else initial_byte major 27 # be 8 n)"

text \<open>The head in front of a value: its major type, its argument and what follows.\<close>

fun wire_unhead :: "bytes \<Rightarrow> (nat \<times> nat \<times> bytes) option" where
  "wire_unhead [] = None"
| "wire_unhead (b # bs) =
     (let major = unat b div 32; info = unat b mod 32;
          k = (if info = 24 then 1 else if info = 25 then 2 else if info = 26 then 4 else 8)
      in if info < 24 then Some (major, info, bs)
         else if info < 28 \<and> k \<le> length bs then Some (major, unbe (take k bs), drop k bs)
         else None)"

lemma wire_unhead_head:
  assumes "major < 8" "n < 2 ^ 64"
  shows "wire_unhead (wire_head major n @ bs) = Some (major, n, bs)"
proof -
  consider "n < 24" | "24 \<le> n" "n < 2 ^ 8" | "2 ^ 8 \<le> n" "n < 2 ^ 16"
    | "2 ^ 16 \<le> n" "n < 2 ^ 32" | "2 ^ 32 \<le> n" "n < 2 ^ 64"
    using assms(2) by linarith
  then show ?thesis
    by cases (simp_all add: wire_head_def initial_byte_fields assms(1) Let_def unbe_be del: be.simps)
qed

section \<open>Items\<close>

fun wire_item :: "cbor_item \<Rightarrow> bytes" where
  "wire_item (CInt v) = (if 0 \<le> v then wire_head 0 (nat v) else wire_head 1 (nat (- v - 1)))"
| "wire_item (CBytes b) = wire_head 2 (length b) @ b"
| "wire_item (CText t) = wire_head 3 (length t) @ t"
| "wire_item (CSimple y) = wire_head 7 (unat y mod 24)"

definition wire_size :: "cbor_item \<Rightarrow> nat" where
  "wire_size x = length (wire_item x)"

section \<open>Encoder and parser\<close>

text \<open>An encoder is its capacity, the bytes written and whether everything has fitted.\<close>

type_synonym wire_encoder = "nat \<times> bytes \<times> bool"

fun wire_put :: "wire_encoder \<Rightarrow> bytes \<Rightarrow> CborError \<times> wire_encoder" where
  "wire_put (cap, out, ok) bs =
     (if ok \<and> length out + length bs \<le> cap then (0, (cap, out @ bs, True)) else (1, (cap, out, False)))"

definition wire_int_value :: "bytes \<Rightarrow> int" where
  "wire_int_value it = (case wire_unhead it of
      Some (major, n, _) \<Rightarrow> if major = 0 then int n else - int n - 1 | None \<Rightarrow> 0)"

definition wire_string :: "bytes \<Rightarrow> bytes option" where
  "wire_string it = (case wire_unhead it of
      Some (_, n, rest) \<Rightarrow> if n \<le> length rest then Some (take n rest) else None | None \<Rightarrow> None)"

definition wire_major :: "bytes \<Rightarrow> nat" where
  "wire_major it = (case wire_unhead it of Some (major, _, _) \<Rightarrow> major | None \<Rightarrow> 8)"

definition wire_dup :: "bytes \<Rightarrow> CborError \<times> bytes" where
  "wire_dup it = (case wire_string it of Some s \<Rightarrow> (0, s) | None \<Rightarrow> (1, []))"

definition wire_advance :: "bytes \<Rightarrow> CborError \<times> bytes" where
  "wire_advance it = (case wire_unhead it of
      Some (major, n, rest) \<Rightarrow>
        if major = 2 \<or> major = 3 then
          (if n \<le> length rest then (0, drop n rest) else (1, it))
        else (0, rest)
    | None \<Rightarrow> (1, it))"

definition wire :: "(wire_encoder, bytes) tinycbor" where
  "wire =
     \<lparr>encoder_init = (\<lambda>cap. (cap, [], True)),
      encoder_create_array = (\<lambda>e. let (err, e) = wire_put e [0x9F] in (err, e, e)),
      encode_int = (\<lambda>e v. wire_put e (wire_item (CInt v))),
      encode_uint = (\<lambda>e v. wire_put e (wire_head 0 (unat v))),
      encode_double = (\<lambda>e v. wire_put e (0xFB # be 8 (unat v))),
      encode_text_string = (\<lambda>e t. wire_put e (wire_item (CText t))),
      encode_byte_string = (\<lambda>e b. wire_put e (wire_item (CBytes b))),
      encoder_close_container = (\<lambda>_ e. wire_put e [0xFF]),
      encoder_buffer = (\<lambda>(_, out, _). out),
      parser_init = (\<lambda>bs. (if bs = [] then 1 else 0, bs)),
      value_enter_container = (\<lambda>it. case it of b # bs \<Rightarrow> if b = 0x9F then (0, bs) else (1, it) | [] \<Rightarrow> (1, it)),
      value_is_integer = (\<lambda>it. wire_major it < 2),
      value_is_unsigned_integer = (\<lambda>it. wire_major it = 0),
      value_is_byte_string = (\<lambda>it. wire_major it = 2),
      value_is_text_string = (\<lambda>it. wire_major it = 3),
      value_calculate_string_length = (\<lambda>it. if wire_string it = None then 1 else 0),
      value_get_int = (\<lambda>it. (0, word_of_int (wire_int_value it))),
      value_get_uint64 = (\<lambda>it. (0, word_of_int (wire_int_value it))),
      value_dup_byte_string = wire_dup,
      value_dup_text_string = wire_dup,
      value_advance = wire_advance,
      value_advance_fixed = wire_advance\<rparr>"

section \<open>The laws hold\<close>

text \<open>
  The format covers integers of 64 bits and strings of fewer than \<open>2 ^ 64\<close> bytes.
\<close>

fun wire_ok :: "cbor_item \<Rightarrow> bool" where
  "wire_ok (CInt v) = (- (2 ^ 64) \<le> v \<and> v < 2 ^ 64)"
| "wire_ok (CText t) = (length t < 2 ^ 64)"
| "wire_ok (CBytes b) = (length b < 2 ^ 64)"
| "wire_ok (CSimple _) = True"

definition wire_open :: "nat \<Rightarrow> cbor_item list \<Rightarrow> wire_encoder \<Rightarrow> wire_encoder \<Rightarrow> bool" where
  "wire_open cap xs root enc \<longleftrightarrow> cap < 2 ^ 32 \<and> list_all wire_ok xs \<and>
     enc = (cap, 0x9F # concat (map wire_item xs), True)"

definition wire_at :: "cbor_item list \<Rightarrow> bytes \<Rightarrow> bool" where
  "wire_at xs it \<longleftrightarrow> list_all wire_ok xs \<and> it = concat (map wire_item xs) @ [0xFF]"

lemma length_items: "length (concat (map wire_item xs)) = sum_list (map wire_size xs)"
  by (induction xs) (simp_all add: wire_size_def)

lemma wire_put_open:
  assumes "wire_open cap xs r c" "wire_ok x" "1 + sum_list (map wire_size (xs @ [x])) \<le> cap"
  shows "\<exists>c'. wire_put c (wire_item x) = (0, c') \<and> wire_open cap (xs @ [x]) r c'"
  using assms by (simp add: wire_open_def length_items wire_size_def)

lemma wire_unhead_item:
  "wire_ok (CInt v) \<Longrightarrow> wire_unhead (wire_item (CInt v) @ bs) =
     Some (if 0 \<le> v then (0, nat v, bs) else (1, nat (- v - 1), bs))"
  "wire_ok (CText t) \<Longrightarrow> wire_unhead (wire_item (CText t) @ bs) = Some (3, length t, t @ bs)"
  "wire_ok (CBytes b) \<Longrightarrow> wire_unhead (wire_item (CBytes b) @ bs) = Some (2, length b, b @ bs)"
  "wire_unhead (wire_item (CSimple y) @ bs) = Some (7, unat y mod 24, bs)"
  by (simp_all add: wire_unhead_head nat_less_iff)

lemma wire_advance_item: "wire_ok x \<Longrightarrow> wire_advance (wire_item x @ bs) = (0, bs)"
  by (cases x) (simp_all add: wire_advance_def wire_unhead_item del: wire_item.simps)

lemma wire_at_Cons: "wire_at (x # xs) it \<Longrightarrow> wire_ok x \<and> (\<exists>it'. it = wire_item x @ it' \<and> wire_at xs it')"
  by (simp add: wire_at_def)

lemma wire_length_ok: "length s < wire_size (CText s)" "length s < wire_size (CBytes s)"
  by (simp_all add: wire_size_def wire_head_def)

interpretation wire_enc: tinycbor_encoder wire wire_open wire_size
proof (unfold_locales, goal_cases)
  case (1 cap)
  then show ?case by (auto simp: wire_def wire_open_def)
next
  case (2 cap xs r c v)
  then show ?case using wire_put_open [of cap xs r c "CInt v"]
    by (auto simp: wire_def simp del: wire_item.simps)
next
  case (3 cap xs r c s)
  then have "length s < 2 ^ 32"
    using wire_length_ok(1) [of s] by (simp add: wire_open_def)
  then show ?case using 3 wire_put_open [of cap xs r c "CText s"]
    by (auto simp: wire_def simp del: wire_item.simps)
next
  case (4 cap xs r c s)
  then have "length s < 2 ^ 32"
    using wire_length_ok(2) [of s] by (simp add: wire_open_def)
  then show ?case using 4 wire_put_open [of cap xs r c "CBytes s"]
    by (auto simp: wire_def simp del: wire_item.simps)
next
  case (5 cap xs r c s)
  then show ?case
    by (simp add: wire_def wire_open_def length_items wire_size_def del: wire_item.simps)
next
  case (6 s)
  then show ?case by (rule wire_length_ok)
qed

lemmas wire_reading = wire_def wire_major_def wire_int_value_def wire_dup_def wire_string_def wire_unhead_item
  wire_advance_item

interpretation wire_par: tinycbor_parser wire wire_at
  by unfold_locales (auto dest!: wire_at_Cons simp: wire_reading simp del: wire_item.simps)

lemma wire_laws: "tinycbor_laws wire wire_open wire_at wire_size"
  by unfold_locales
    (auto simp: wire_def wire_open_def wire_at_def length_items)

interpretation wire: cbor_channel wire wire_open wire_at wire_size 1024 1024
  using wire_laws by (simp add: cbor_channel_def cbor_channel_axioms_def)

definition wire_array :: "cbor_item list \<Rightarrow> bytes" where
  "wire_array xs = 0x9F # concat (map wire_item xs) @ [0xFF]"

lemma wire_array_encodes:
  "list_all wire_ok xs \<Longrightarrow> length (wire_array xs) \<le> cap \<Longrightarrow> cbor_encodes wire wire_at cap xs (wire_array xs)"
  by (simp add: cbor_encodes_def wire_array_def wire_def wire_at_def)

lemmas wire_eval = wire_array_def wire_head_def initial_byte_def

end
