(* ===== verification/Message_Roundtrip.thy ===== *)
theory Message_Roundtrip
  imports Cbor_Wire
begin

text \<open>
  Every message of the broker protocol survives serialization by \<open>CborSerializer\<close> and
  deserialization by \<open>CborDeserializer\<close>, over any lawful tinycbor (\<open>cbor_channel\<close>), with the
  limits of the code: topics and client ids are cut at their first zero byte, and a value that
  does not fit the serializer's buffer ends in a failed assertion. The witnesses run the
  properties on the wire codec.
\<close>

section \<open>Round trips\<close>

abbreviation message_bytes :: "(cbor_item \<Rightarrow> nat) \<Rightarrow> cbor_item list \<Rightarrow> nat" where
  "message_bytes item_size xs \<equiv> 2 + sum_list (map item_size xs)"

context cbor_channel begin

lemma written_connect:
  assumes "message_bytes item_size (items_MsgConnect m) \<le> cap" "ser_capacity s = cap"
  shows "\<exists>s' bs. reflect_MsgConnect (ser_reflector tc) m s = Inr (m, s') \<and> ser_capacity s' = cap \<and>
    toBytes s' = Inr bs \<and> encodes (items_MsgConnect m) bs \<and> length bs = message_bytes item_size (items_MsgConnect m)"
  using ser.write_connect [of s m] assms by (auto simp: ser_ready_def fits_def ser_written_def)

lemma written_subscriber:
  assumes "message_bytes item_size (items_MsgSubscriber m) \<le> cap" "ser_capacity s = cap"
  shows "\<exists>s' bs. reflect_MsgSubscriber (ser_reflector tc) m s = Inr (m, s') \<and> ser_capacity s' = cap \<and>
    toBytes s' = Inr bs \<and> encodes (items_MsgSubscriber m) bs \<and> length bs = message_bytes item_size (items_MsgSubscriber m)"
  using ser.write_subscriber [of s m] assms by (auto simp: ser_ready_def fits_def ser_written_def)

lemma written_publisher:
  assumes "message_bytes item_size (items_MsgPublisher m) \<le> cap" "ser_capacity s = cap"
  shows "\<exists>s' bs. reflect_MsgPublisher (ser_reflector tc) m s = Inr (m, s') \<and> ser_capacity s' = cap \<and>
    toBytes s' = Inr bs \<and> encodes (items_MsgPublisher m) bs \<and> length bs = message_bytes item_size (items_MsgPublisher m)"
  using ser.write_publisher [of s m] assms by (auto simp: ser_ready_def fits_def ser_written_def)

lemma written_publish:
  assumes "message_bytes item_size (items_MsgPublish m) \<le> cap" "ser_capacity s = cap"
  shows "\<exists>s' bs. reflect_MsgPublish (ser_reflector tc) m s = Inr (m, s') \<and> ser_capacity s' = cap \<and>
    toBytes s' = Inr bs \<and> encodes (items_MsgPublish m) bs \<and> length bs = message_bytes item_size (items_MsgPublish m)"
  using ser.write_publish [of s m] assms by (auto simp: ser_ready_def fits_def ser_written_def)

lemma roundtrip_publish:
  assumes "message_bytes item_size (items_MsgPublish m) \<le> cap" "ser_capacity s = cap" "de_capacity d = dcap"
  shows "\<exists>s' bs d'. reflect_MsgPublish (ser_reflector tc) m s = Inr (m, s') \<and> toBytes s' = Inr bs \<and>
    reflect_MsgPublish (de_reflector tc) m0 (fromBytes bs d) = Inr (m, d') \<and> success d'"
proof -
  obtain s' bs where w: "reflect_MsgPublish (ser_reflector tc) m s = Inr (m, s')"
    "toBytes s' = Inr bs" "encodes (items_MsgPublish m) bs"
    using written_publish [OF assms(1,2)] by blast
  then obtain d' where "reflect_MsgPublish (de_reflector tc) m0 (fromBytes bs d) = Inr (m, d')" "success d'"
    using de.read_publish [OF loads [OF w(3) assms(3)], of m0] reading_success by auto
  with w show ?thesis by blast
qed

lemma roundtrip_subscriber:
  assumes "message_bytes item_size (items_MsgSubscriber m) \<le> cap" "ser_capacity s = cap" "de_capacity d = dcap"
  shows "\<exists>s' bs d'. reflect_MsgSubscriber (ser_reflector tc) m s = Inr (m, s') \<and> toBytes s' = Inr bs \<and>
    reflect_MsgSubscriber (de_reflector tc) m0 (fromBytes bs d) =
      Inr (m\<lparr>subscriber_topic := c_string (subscriber_topic m)\<rparr>, d') \<and> success d'"
proof -
  obtain s' bs where w: "reflect_MsgSubscriber (ser_reflector tc) m s = Inr (m, s')"
    "toBytes s' = Inr bs" "encodes (items_MsgSubscriber m) bs"
    using written_subscriber [OF assms(1,2)] by blast
  then obtain d' where "reflect_MsgSubscriber (de_reflector tc) m0 (fromBytes bs d) =
      Inr (m\<lparr>subscriber_topic := c_string (subscriber_topic m)\<rparr>, d')" "success d'"
    using de.read_subscriber [OF loads [OF w(3) assms(3)], of m0] reading_success by auto
  with w show ?thesis by blast
qed

lemma roundtrip_publisher:
  assumes "message_bytes item_size (items_MsgPublisher m) \<le> cap" "ser_capacity s = cap" "de_capacity d = dcap"
  shows "\<exists>s' bs d'. reflect_MsgPublisher (ser_reflector tc) m s = Inr (m, s') \<and> toBytes s' = Inr bs \<and>
    reflect_MsgPublisher (de_reflector tc) m0 (fromBytes bs d) =
      Inr (m\<lparr>publisher_topic := c_string (publisher_topic m)\<rparr>, d') \<and> success d'"
proof -
  obtain s' bs where w: "reflect_MsgPublisher (ser_reflector tc) m s = Inr (m, s')"
    "toBytes s' = Inr bs" "encodes (items_MsgPublisher m) bs"
    using written_publisher [OF assms(1,2)] by blast
  then obtain d' where "reflect_MsgPublisher (de_reflector tc) m0 (fromBytes bs d) =
      Inr (m\<lparr>publisher_topic := c_string (publisher_topic m)\<rparr>, d')" "success d'"
    using de.read_publisher [OF loads [OF w(3) assms(3)], of m0] reading_success by auto
  with w show ?thesis by blast
qed

lemma roundtrip_connect:
  assumes "message_bytes item_size (items_MsgConnect m) \<le> cap" "ser_capacity s = cap" "de_capacity d = dcap"
  shows "\<exists>s' bs d'. reflect_MsgConnect (ser_reflector tc) m s = Inr (m, s') \<and> toBytes s' = Inr bs \<and>
    reflect_MsgConnect (de_reflector tc) m0 (fromBytes bs d) =
      Inr (m\<lparr>clientId := c_string (clientId m)\<rparr>, d') \<and> success d'"
proof -
  obtain s' bs where w: "reflect_MsgConnect (ser_reflector tc) m s = Inr (m, s')"
    "toBytes s' = Inr bs" "encodes (items_MsgConnect m) bs"
    using written_connect [OF assms(1,2)] by blast
  then obtain d' where "reflect_MsgConnect (de_reflector tc) m0 (fromBytes bs d) =
      Inr (m\<lparr>clientId := c_string (clientId m)\<rparr>, d')" "success d'"
    using de.read_connect [OF loads [OF w(3) assms(3)], of m0] reading_success by auto
  with w show ?thesis by blast
qed

lemma oversize_publish:
  assumes "message_bytes item_size [CInt (sint B_PUBLISH), CInt (sint (publish_id m))] \<le> cap"
    and "ser_capacity s = cap" "cap \<le> length (publish_value m)"
  shows "reflect_MsgPublish (ser_reflector tc) m s = Inl AssertFailed"
proof -
  have "fits [CInt (sint B_PUBLISH), CInt (sint (publish_id m))]" "ser_ready s"
    using assms by (simp_all add: fits_def ser_ready_def)
  then obtain s0 s1 s2 where h: "rf_begin (ser_reflector tc) s = Inr s0"
    "rf_const (ser_reflector tc) B_PUBLISH ''msgType'' s0 = Inr s1"
    "rf_int (ser_reflector tc) (publish_id m) ''id'' s1 = Inr (publish_id m, s2)"
    "ser_writing s2 [CInt (sint B_PUBLISH), CInt (sint (publish_id m))]"
    using ser.write_head [OF \<open>ser_ready s\<close> \<open>fits [CInt (sint B_PUBLISH), CInt (sint (publish_id m))]\<close>,
        of "''msgType''" "''id''"] by blast
  then have "fst (encode_byte_string tc (ser_encoder s2) (publish_value m)) \<noteq> 0"
    using full_bytes bytes_size [of "publish_value m"] assms(3) by (fastforce simp: ser_writing_def)
  then have "ser_bytes tc (publish_value m) s2 = Inl AssertFailed"
    by (auto simp: ser_bytes_def assert_ok_def split: prod.splits)
  with h show ?thesis
    by (simp add: reflect_MsgPublish_def) (simp add: ser_reflector_def)
qed

end

section \<open>Properties\<close>

text \<open>The states of a new serializer and deserializer over the wire codec.\<close>

definition wire_serializer :: "wire_encoder CborSerializer" where
  "wire_serializer = CborSerializer_new 1024 (0, [], False) (0, [], False)"

definition wire_deserializer :: "bytes CborDeserializer" where
  "wire_deserializer = CborDeserializer_new 1024 [] []"

lemma wire_capacities [simp]:
  "ser_capacity wire_serializer = 1024" "de_capacity wire_deserializer = 1024"
  by (simp_all add: wire_serializer_def CborSerializer_new_def wire_deserializer_def CborDeserializer_new_def)

lemmas wire_size_eval = items_defs msg_types wire_size_def wire_head_def

text \<open>
  C19: Publish round trip. A \<open>MsgPublish\<close> that fits the serializer's buffer is serialized, and
  reading the bytes into any \<open>MsgPublish\<close> yields the same identifier and the same value
  bytes, with success reported.
\<close>

theorem publish_roundtrip:
  assumes "cbor_channel tc open_array at item_size cap dcap"
    and "message_bytes item_size (items_MsgPublish m) \<le> cap"
    and "ser_capacity s = cap" and "de_capacity d = dcap"
  shows "\<exists>s' bs d'. reflect_MsgPublish (ser_reflector tc) m s = Inr (m, s') \<and> toBytes s' = Inr bs \<and>
    reflect_MsgPublish (de_reflector tc) m0 (fromBytes bs d) = Inr (m, d') \<and> success d'"
  using assms by (rule cbor_channel.roundtrip_publish)

lemma publish_roundtrip_witness:
  "\<exists>s' bs d'. reflect_MsgPublish (ser_reflector wire) \<lparr>publish_id = 3, publish_value = [1, 2]\<rparr> wire_serializer =
      Inr (\<lparr>publish_id = 3, publish_value = [1, 2]\<rparr>, s') \<and> toBytes s' = Inr bs \<and>
    reflect_MsgPublish (de_reflector wire) \<lparr>publish_id = 0, publish_value = []\<rparr> (fromBytes bs wire_deserializer) =
      Inr (\<lparr>publish_id = 3, publish_value = [1, 2]\<rparr>, d') \<and> success d'"
  by (rule publish_roundtrip [OF wire.cbor_channel_axioms]) (simp_all add: wire_size_eval)

text \<open>
  Subscriber, publisher and connect round trips. The identifiers survive unchanged; topic and
  client id arrive cut at their first zero byte, so unchanged when they hold none.
\<close>

theorem topic_roundtrip:
  assumes "cbor_channel tc open_array at item_size cap dcap"
    and "ser_capacity s = cap" and "de_capacity d = dcap"
    and "message_bytes item_size (items_MsgSubscriber sub) \<le> cap"
    and "message_bytes item_size (items_MsgPublisher pub) \<le> cap"
    and "message_bytes item_size (items_MsgConnect con) \<le> cap"
  shows "(\<exists>s' bs d'. reflect_MsgSubscriber (ser_reflector tc) sub s = Inr (sub, s') \<and> toBytes s' = Inr bs \<and>
      reflect_MsgSubscriber (de_reflector tc) sub0 (fromBytes bs d) =
        Inr (sub\<lparr>subscriber_topic := c_string (subscriber_topic sub)\<rparr>, d') \<and> success d') \<and>
    (\<exists>s' bs d'. reflect_MsgPublisher (ser_reflector tc) pub s = Inr (pub, s') \<and> toBytes s' = Inr bs \<and>
      reflect_MsgPublisher (de_reflector tc) pub0 (fromBytes bs d) =
        Inr (pub\<lparr>publisher_topic := c_string (publisher_topic pub)\<rparr>, d') \<and> success d') \<and>
    (\<exists>s' bs d'. reflect_MsgConnect (ser_reflector tc) con s = Inr (con, s') \<and> toBytes s' = Inr bs \<and>
      reflect_MsgConnect (de_reflector tc) con0 (fromBytes bs d) =
        Inr (con\<lparr>clientId := c_string (clientId con)\<rparr>, d') \<and> success d')"
  using cbor_channel.roundtrip_subscriber [OF assms(1,4,2,3), of sub0]
    cbor_channel.roundtrip_publisher [OF assms(1,5,2,3), of pub0]
    cbor_channel.roundtrip_connect [OF assms(1,6,2,3), of con0] by (intro conjI)

text \<open>The topic \<open>system/uptime\<close> and a client id with a zero byte in it.\<close>

definition uptime_topic :: bytes where
  "uptime_topic = [0x73, 0x79, 0x73, 0x74, 0x65, 0x6D, 0x2F, 0x75, 0x70, 0x74, 0x69, 0x6D, 0x65]"

lemma topic_roundtrip_witness:
  "(\<exists>s' bs d'. reflect_MsgSubscriber (ser_reflector wire) \<lparr>subscriber_id = 2, subscriber_topic = uptime_topic\<rparr>
        wire_serializer = Inr (\<lparr>subscriber_id = 2, subscriber_topic = uptime_topic\<rparr>, s') \<and> toBytes s' = Inr bs \<and>
      reflect_MsgSubscriber (de_reflector wire) \<lparr>subscriber_id = 0, subscriber_topic = []\<rparr> (fromBytes bs wire_deserializer) =
        Inr (\<lparr>subscriber_id = 2, subscriber_topic = uptime_topic\<rparr>
          \<lparr>subscriber_topic := c_string (subscriber_topic \<lparr>subscriber_id = 2, subscriber_topic = uptime_topic\<rparr>)\<rparr>, d') \<and> success d') \<and>
   (\<exists>s' bs d'. reflect_MsgPublisher (ser_reflector wire) \<lparr>publisher_id = 2, publisher_topic = uptime_topic\<rparr>
        wire_serializer = Inr (\<lparr>publisher_id = 2, publisher_topic = uptime_topic\<rparr>, s') \<and> toBytes s' = Inr bs \<and>
      reflect_MsgPublisher (de_reflector wire) \<lparr>publisher_id = 0, publisher_topic = []\<rparr> (fromBytes bs wire_deserializer) =
        Inr (\<lparr>publisher_id = 2, publisher_topic = uptime_topic\<rparr>
          \<lparr>publisher_topic := c_string (publisher_topic \<lparr>publisher_id = 2, publisher_topic = uptime_topic\<rparr>)\<rparr>, d') \<and> success d') \<and>
   (\<exists>s' bs d'. reflect_MsgConnect (ser_reflector wire) \<lparr>clientId = [0x41, 0, 0x42]\<rparr> wire_serializer =
        Inr (\<lparr>clientId = [0x41, 0, 0x42]\<rparr>, s') \<and> toBytes s' = Inr bs \<and>
      reflect_MsgConnect (de_reflector wire) \<lparr>clientId = []\<rparr> (fromBytes bs wire_deserializer) =
        Inr (\<lparr>clientId = [0x41, 0, 0x42]\<rparr>\<lparr>clientId := c_string (clientId \<lparr>clientId = [0x41, 0, 0x42]\<rparr>)\<rparr>, d') \<and>
        success d')"
  by (rule topic_roundtrip [OF wire.cbor_channel_axioms]) (simp_all add: wire_size_eval uptime_topic_def)

text \<open>
  Oversize publish. A value at least as long as the serializer's buffer ends in a failed
  assertion: such a sample from Zenoh aborts the process.
\<close>

theorem oversize_publish_aborts:
  assumes "cbor_channel tc open_array at item_size cap dcap"
    and "message_bytes item_size [CInt (sint B_PUBLISH), CInt (sint (publish_id m))] \<le> cap"
    and "ser_capacity s = cap" and "cap \<le> length (publish_value m)"
  shows "reflect_MsgPublish (ser_reflector tc) m s = Inl AssertFailed"
  using assms by (rule cbor_channel.oversize_publish)

lemma oversize_publish_aborts_witness:
  "reflect_MsgPublish (ser_reflector wire) \<lparr>publish_id = 3, publish_value = replicate 1024 0\<rparr> wire_serializer =
    Inl AssertFailed"
  by (rule oversize_publish_aborts [OF wire.cbor_channel_axioms]) (simp_all add: wire_size_eval)

text \<open>
  The bytes of \<open>src/test.cpp\<close>. Over the wire codec the serializer turns the publisher
  message with identifier 2 and topic \<open>system/uptime\<close> into the 18 bytes the test expects, from
  any state of the serializer.
\<close>

theorem publisher_test_vector:
  "\<exists>s'. reflect_MsgPublisher (ser_reflector wire) \<lparr>publisher_id = 2, publisher_topic = uptime_topic\<rparr>
      (CborSerializer_new 1024 r e\<lparr>ser_err := x, ser_out := out\<rparr>) =
      Inr (\<lparr>publisher_id = 2, publisher_topic = uptime_topic\<rparr>, s') \<and>
    toBytes s' = Inr [0x9F, 0x03, 0x02, 0x6D, 0x73, 0x79, 0x73, 0x74, 0x65,
      0x6D, 0x2F, 0x75, 0x70, 0x74, 0x69, 0x6D, 0x65, 0xFF]"
  by (simp add: reflect_defs ser_reflector_def ser_begin_def ser_int_def ser_text_def ser_end_def assert_ok_def
      CborSerializer_new_def toBytes_def wire_def wire_eval uptime_topic_def msg_types)

end
