(* ===== verification/Fcs_Checksum.thy ===== *)
theory Fcs_Checksum
  imports Prelude
begin

text \<open>
  The frame check sequence of \<open>common/ppp_frame.cpp\<close>: the lookup table \<open>fcsTable\<close> and the
  class \<open>Fcs\<close>. The lemmas show that the table-driven update computes the bitwise CRC of
  RFC 1662, that the update is injective in the register, in the byte and in two
  consecutive bytes, and that appending the complemented register gives the good-frame residue.
\<close>

section \<open>The checksum table\<close>

definition fcsTable :: "u16 list" where
  "fcsTable = [
     0x0000, 0x1189, 0x2312, 0x329B, 0x4624, 0x57AD, 0x6536, 0x74BF,
     0x8C48, 0x9DC1, 0xAF5A, 0xBED3, 0xCA6C, 0xDBE5, 0xE97E, 0xF8F7,
     0x1081, 0x0108, 0x3393, 0x221A, 0x56A5, 0x472C, 0x75B7, 0x643E,
     0x9CC9, 0x8D40, 0xBFDB, 0xAE52, 0xDAED, 0xCB64, 0xF9FF, 0xE876,
     0x2102, 0x308B, 0x0210, 0x1399, 0x6726, 0x76AF, 0x4434, 0x55BD,
     0xAD4A, 0xBCC3, 0x8E58, 0x9FD1, 0xEB6E, 0xFAE7, 0xC87C, 0xD9F5,
     0x3183, 0x200A, 0x1291, 0x0318, 0x77A7, 0x662E, 0x54B5, 0x453C,
     0xBDCB, 0xAC42, 0x9ED9, 0x8F50, 0xFBEF, 0xEA66, 0xD8FD, 0xC974,
     0x4204, 0x538D, 0x6116, 0x709F, 0x0420, 0x15A9, 0x2732, 0x36BB,
     0xCE4C, 0xDFC5, 0xED5E, 0xFCD7, 0x8868, 0x99E1, 0xAB7A, 0xBAF3,
     0x5285, 0x430C, 0x7197, 0x601E, 0x14A1, 0x0528, 0x37B3, 0x263A,
     0xDECD, 0xCF44, 0xFDDF, 0xEC56, 0x98E9, 0x8960, 0xBBFB, 0xAA72,
     0x6306, 0x728F, 0x4014, 0x519D, 0x2522, 0x34AB, 0x0630, 0x17B9,
     0xEF4E, 0xFEC7, 0xCC5C, 0xDDD5, 0xA96A, 0xB8E3, 0x8A78, 0x9BF1,
     0x7387, 0x620E, 0x5095, 0x411C, 0x35A3, 0x242A, 0x16B1, 0x0738,
     0xFFCF, 0xEE46, 0xDCDD, 0xCD54, 0xB9EB, 0xA862, 0x9AF9, 0x8B70,
     0x8408, 0x9581, 0xA71A, 0xB693, 0xC22C, 0xD3A5, 0xE13E, 0xF0B7,
     0x0840, 0x19C9, 0x2B52, 0x3ADB, 0x4E64, 0x5FED, 0x6D76, 0x7CFF,
     0x9489, 0x8500, 0xB79B, 0xA612, 0xD2AD, 0xC324, 0xF1BF, 0xE036,
     0x18C1, 0x0948, 0x3BD3, 0x2A5A, 0x5EE5, 0x4F6C, 0x7DF7, 0x6C7E,
     0xA50A, 0xB483, 0x8618, 0x9791, 0xE32E, 0xF2A7, 0xC03C, 0xD1B5,
     0x2942, 0x38CB, 0x0A50, 0x1BD9, 0x6F66, 0x7EEF, 0x4C74, 0x5DFD,
     0xB58B, 0xA402, 0x9699, 0x8710, 0xF3AF, 0xE226, 0xD0BD, 0xC134,
     0x39C3, 0x284A, 0x1AD1, 0x0B58, 0x7FE7, 0x6E6E, 0x5CF5, 0x4D7C,
     0xC60C, 0xD785, 0xE51E, 0xF497, 0x8028, 0x91A1, 0xA33A, 0xB2B3,
     0x4A44, 0x5BCD, 0x6956, 0x78DF, 0x0C60, 0x1DE9, 0x2F72, 0x3EFB,
     0xD68D, 0xC704, 0xF59F, 0xE416, 0x90A9, 0x8120, 0xB3BB, 0xA232,
     0x5AC5, 0x4B4C, 0x79D7, 0x685E, 0x1CE1, 0x0D68, 0x3FF3, 0x2E7A,
     0xE70E, 0xF687, 0xC41C, 0xD595, 0xA12A, 0xB0A3, 0x8238, 0x93B1,
     0x6B46, 0x7ACF, 0x4854, 0x59DD, 0x2D62, 0x3CEB, 0x0E70, 0x1FF9,
     0xF78F, 0xE606, 0xD49D, 0xC514, 0xB1AB, 0xA022, 0x92B9, 0x8330,
     0x7BC7, 0x6A4E, 0x58D5, 0x495C, 0x3DE3, 0x2C6A, 0x1EF1, 0x0F78]"

section \<open>Class \<open>Fcs\<close>\<close>

record Fcs =
  fcs_reg :: u16

definition Fcs_new :: Fcs where
  "Fcs_new = \<lparr>fcs_reg = 0xFFFF\<rparr>"

definition Fcs_write :: "Fcs \<Rightarrow> byte \<Rightarrow> Fcs" where
  "Fcs_write f b = f\<lparr>fcs_reg :=
     drop_bit 8 (fcs_reg f) XOR fcsTable ! unat ((fcs_reg f AND 0xFF) XOR ucast b)\<rparr>"

definition Fcs_result :: "Fcs \<Rightarrow> u16" where
  "Fcs_result f = NOT (fcs_reg f)"

text \<open>The members that framing has no use for.\<close>

definition Fcs_hasSpace :: "c_int \<Rightarrow> Fcs \<Rightarrow> bool" where
  "Fcs_hasSpace n f = True"

definition Fcs_intermediate :: "Fcs \<Rightarrow> u16" where
  "Fcs_intermediate f = fcs_reg f"

definition Fcs_clear :: "Fcs \<Rightarrow> Fcs" where
  "Fcs_clear f = f\<lparr>fcs_reg := 0xFFFF\<rparr>"

lemma Fcs_clear_new [simp]: "Fcs_clear f = Fcs_new"
  by (simp add: Fcs_clear_def Fcs_new_def)

section \<open>The bitwise checksum of RFC 1662\<close>

definition crc16_bit :: "u16 \<Rightarrow> u16" where
  "crc16_bit s = (if bit s 0 then drop_bit 1 s XOR 0x8408 else drop_bit 1 s)"

definition crc16_byte :: "u16 \<Rightarrow> byte \<Rightarrow> u16" where
  "crc16_byte s b = (crc16_bit ^^ 8) (s XOR ucast b)"

lemma crc16_bit_xor: "crc16_bit (x XOR y) = crc16_bit x XOR crc16_bit y"
  by (auto simp: crc16_bit_def bit_simps intro!: bit_word_eqI)

lemma crc16_bit_even: "\<not> bit s 0 \<Longrightarrow> crc16_bit s = drop_bit 1 s"
  by (simp add: crc16_bit_def)

lemma crc16_bits_xor: "(crc16_bit ^^ n) (x XOR y) = (crc16_bit ^^ n) x XOR (crc16_bit ^^ n) y"
  by (induction n) (simp_all add: crc16_bit_xor)

lemma crc16_bits_shift: "(\<And>i. i < n \<Longrightarrow> \<not> bit s i) \<Longrightarrow> (crc16_bit ^^ n) s = drop_bit n s"
proof (induction n)
  case 0
  then show ?case by simp
next
  case (Suc n)
  then have "(crc16_bit ^^ n) s = drop_bit n s" by simp
  moreover have "\<not> bit (drop_bit n s) 0"
    using Suc.prems [of n] by (simp add: bit_drop_bit_eq)
  ultimately show ?case by (simp add: crc16_bit_even drop_bit_drop_bit)
qed

lemma crc16_bit_inj: "crc16_bit x = crc16_bit y \<Longrightarrow> x = y"
proof -
  have top: "bit (crc16_bit z) 15 = bit z 0" for z
    by (auto simp: crc16_bit_def bit_simps dest: bit_imp_le_length)
  assume eq: "crc16_bit x = crc16_bit y"
  then have b0: "bit x 0 = bit y 0" using top by metis
  then have "drop_bit 1 x = drop_bit 1 y"
    using eq by (auto simp: crc16_bit_def split: if_splits)
  then have "bit x (Suc i) = bit y (Suc i)" for i
    by (metis bit_drop_bit_eq comp_apply plus_1_eq_Suc)
  with b0 show "x = y"
    by (metis bit_word_eqI not0_implies_Suc)
qed

lemma crc16_bits_inj: "(crc16_bit ^^ n) x = (crc16_bit ^^ n) y \<Longrightarrow> x = y"
  by (induction n) (auto dest: crc16_bit_inj)

section \<open>The table is the bitwise checksum\<close>

lemma upt_256: "[0..<256] = 0 # 1 # [2..<256]"
  by (simp add: upt_conv_Cons numeral_2_eq_2)

lemma crc16_bits_8:
  "(crc16_bit ^^ 8) s =
     crc16_bit (crc16_bit (crc16_bit (crc16_bit
       (crc16_bit (crc16_bit (crc16_bit (crc16_bit s)))))))"
  by (simp add: numeral_eq_Suc)

lemma fcsTable_map: "map (crc16_bit ^^ 8) (map word_of_nat [0..<256]) = fcsTable"
  by (simp only: upt_256 upt_rec_numeral)
    (simp add: fcsTable_def crc16_bits_8 crc16_bit_def)

lemma length_fcsTable [simp]: "length fcsTable = 256"
  by (simp add: fcsTable_map [symmetric])

lemma fcsTable_nth:
  assumes "unat w < 256"
  shows "fcsTable ! unat w = (crc16_bit ^^ 8) w"
  using assms by (simp add: fcsTable_map [symmetric])

lemma split_bytes_xor: "s = push_bit 8 (drop_bit 8 s) XOR take_bit 8 (s :: u16)"
  by (rule bit_word_eqI) (auto simp: bit_simps)

lemma mask_FF: "(0xFF :: 'a::len word) = mask 8"
  by (simp add: mask_eq_exp_minus_1)

lemma table_index_less: "unat (take_bit 8 (s :: u16) XOR ucast (b :: byte)) < 256"
proof -
  have "take_bit 8 s XOR ucast b = take_bit 8 (s XOR ucast b)"
    by (rule bit_word_eqI) (auto simp: bit_simps dest: bit_imp_le_length)
  then have "unat (take_bit 8 s XOR ucast b) = take_bit 8 (unat (s XOR ucast b))"
    by (simp only: unsigned_take_bit_eq)
  then show ?thesis
    using take_bit_nat_less_exp [of 8 "unat (s XOR ucast b)"] by simp
qed

lemma Fcs_write_bitwise: "fcs_reg (Fcs_write f b) = crc16_byte (fcs_reg f) b"
proof -
  define s where "s = fcs_reg f"
  define i where "i = take_bit 8 s XOR ucast b"
  have "s XOR ucast b = push_bit 8 (drop_bit 8 s) XOR i"
    unfolding i_def by (subst split_bytes_xor [of s]) (simp add: xor.assoc)
  then have "crc16_byte s b = (crc16_bit ^^ 8) (push_bit 8 (drop_bit 8 s)) XOR (crc16_bit ^^ 8) i"
    by (simp add: crc16_byte_def crc16_bits_xor)
  also have "(crc16_bit ^^ 8) (push_bit 8 (drop_bit 8 s)) = drop_bit 8 (push_bit 8 (drop_bit 8 s))"
    by (rule crc16_bits_shift) (simp add: bit_simps)
  also have "drop_bit 8 (push_bit 8 (drop_bit 8 s)) = drop_bit 8 s"
    by (rule bit_word_eqI) (auto simp: bit_simps dest: bit_imp_le_length)
  also have "(crc16_bit ^^ 8) i = fcsTable ! unat i"
    using table_index_less [of s b] by (simp add: fcsTable_nth i_def)
  finally show ?thesis
    by (simp add: Fcs_write_def s_def i_def mask_FF take_bit_eq_mask)
qed

text \<open>Evaluation of the checksum on concrete bytes.\<close>

lemma Fcs_write_eq: "Fcs_write f b = \<lparr>fcs_reg = crc16_byte (fcs_reg f) b\<rparr>"
  by (cases f) (metis Fcs.surjective Fcs_write_bitwise old.unit.exhaust)

lemmas fcs_eval = Fcs_write_eq Fcs_new_def Fcs_result_def crc16_byte_def crc16_bits_8 crc16_bit_def

section \<open>What the checksum distinguishes\<close>

abbreviation fcs_bytes :: "Fcs \<Rightarrow> bytes \<Rightarrow> Fcs" where
  "fcs_bytes f bs \<equiv> foldl Fcs_write f bs"

lemma Fcs_eqI: "fcs_reg f = fcs_reg g \<Longrightarrow> f = (g :: Fcs)"
  by simp

lemma Fcs_write_inj_byte: "Fcs_write f b = Fcs_write f c \<Longrightarrow> b = c"
  using Fcs_write_bitwise [of f b] Fcs_write_bitwise [of f c]
  by (auto simp: crc16_byte_def ucast_byte_inj dest!: crc16_bits_inj)

lemma Fcs_write_inj_reg: "Fcs_write f b = Fcs_write g b \<Longrightarrow> f = g"
  using Fcs_write_bitwise [of f b] Fcs_write_bitwise [of g b]
  by (auto simp: crc16_byte_def dest!: crc16_bits_inj intro: Fcs_eqI)

lemma fcs_bytes_inj: "fcs_bytes f bs = fcs_bytes g bs \<Longrightarrow> f = g"
  by (induction bs arbitrary: f g) (auto dest: Fcs_write_inj_reg)

lemma table_high_byte: "list_all (\<lambda>w. drop_bit 8 w \<noteq> 0) (tl fcsTable)"
  by (simp add: fcsTable_def)

lemma crc_high_byte_zero:
  assumes "drop_bit 8 ((crc16_bit ^^ 8) (ucast (b :: byte))) = 0"
  shows "b = 0"
proof (rule ccontr)
  assume "b \<noteq> 0"
  let ?w = "ucast b :: u16"
  have lt: "unat ?w < 256"
    by (simp add: unat_ucast_byte)
  have "unat ?w \<noteq> 0"
    using \<open>b \<noteq> 0\<close> by (simp add: unat_ucast_byte unsigned_eq_0_iff)
  with lt have "fcsTable ! unat ?w \<in> set (tl fcsTable)"
    by (simp add: nth_in_tl)
  then have "drop_bit 8 (fcsTable ! unat ?w) \<noteq> 0"
    using table_high_byte by (auto simp: list_all_iff)
  with assms lt show False by (simp add: fcsTable_nth)
qed

lemma Fcs_write2_inj:
  assumes "Fcs_write (Fcs_write f b1) b2 = Fcs_write (Fcs_write f c1) c2"
  shows "b1 = c1 \<and> b2 = c2"
proof -
  let ?s = "fcs_reg f"
  have "crc16_byte ?s b1 XOR ucast b2 = crc16_byte ?s c1 XOR ucast c2"
    using assms Fcs_write_bitwise by (metis crc16_byte_def crc16_bits_inj)
  then have "drop_bit 8 (crc16_byte ?s b1 XOR ucast b2) = drop_bit 8 (crc16_byte ?s c1 XOR ucast c2)"
    by simp
  moreover have "drop_bit 8 (x XOR ucast (y :: byte)) = drop_bit 8 (x :: u16)" for x y
    by (rule bit_word_eqI) (auto simp: bit_simps dest: bit_imp_le_length)
  ultimately have "drop_bit 8 (crc16_byte ?s b1 XOR crc16_byte ?s c1) = 0"
    by (simp add: drop_bit_xor)
  moreover have "crc16_byte ?s b1 XOR crc16_byte ?s c1 = (crc16_bit ^^ 8) (ucast (b1 XOR c1))"
    by (simp add: crc16_byte_def crc16_bits_xor [symmetric] unsigned_xor_eq ac_simps)
  ultimately have "b1 XOR c1 = 0"
    by (simp add: crc_high_byte_zero)
  then have "b1 = c1" by (simp add: xor_eq_0_iff_word)
  then show ?thesis
    using assms Fcs_write_inj_byte by blast
qed

section \<open>The good-frame residue\<close>

text \<open>The two bytes \<open>ppp_frame\<close> appends, least significant first.\<close>

definition fcs_trailer :: "Fcs \<Rightarrow> bytes" where
  "fcs_trailer f = [ucast (Fcs_result f AND 0xFF), ucast (drop_bit 8 (Fcs_result f))]"

lemma crc16_trailer:
  fixes s :: u16
  shows "crc16_byte (crc16_byte s (ucast (NOT s AND 0xFF))) (ucast (drop_bit 8 (NOT s))) = 0xF0B8"
proof -
  have lo: "s XOR ucast (ucast (NOT s AND 0xFF) :: byte) = push_bit 8 (drop_bit 8 s) XOR 0xFF"
    unfolding mask_FF
    by (rule bit_word_eqI) (auto simp: bit_simps dest: bit_imp_le_length)
  have hi: "drop_bit 8 s XOR ucast (ucast (drop_bit 8 (NOT s)) :: byte) = 0xFF"
    unfolding mask_FF
    by (rule bit_word_eqI) (auto simp: bit_simps dest: bit_imp_le_length)
  have ff: "(crc16_bit ^^ 8) 0xFF = 0x0F78"
    by (simp add: crc16_bits_8 crc16_bit_def)
  have "(crc16_bit ^^ 8) (push_bit 8 (drop_bit 8 s)) = drop_bit 8 (push_bit 8 (drop_bit 8 s))"
    by (rule crc16_bits_shift) (simp add: bit_simps)
  also have "\<dots> = drop_bit 8 s"
    by (rule bit_word_eqI) (auto simp: bit_simps dest: bit_imp_le_length)
  finally have "crc16_byte s (ucast (NOT s AND 0xFF)) = drop_bit 8 s XOR 0x0F78"
    unfolding crc16_byte_def lo crc16_bits_xor ff by simp
  moreover have "(drop_bit 8 s XOR 0x0F78) XOR ucast (ucast (drop_bit 8 (NOT s)) :: byte) = 0xFF XOR 0x0F78"
    by (simp only: hi [symmetric] xor.assoc xor.commute [of "0x0F78"] xor.left_commute [of "0x0F78"])
  ultimately have "crc16_byte (crc16_byte s (ucast (NOT s AND 0xFF))) (ucast (drop_bit 8 (NOT s))) =
      (crc16_bit ^^ 8) (0xFF XOR 0x0F78)"
    by (simp only: crc16_byte_def [of "drop_bit 8 s XOR 0x0F78"])
  then show ?thesis
    by (simp add: crc16_bits_8 crc16_bit_def)
qed

lemma fcs_trailer_residue: "Fcs_result (fcs_bytes f (fcs_trailer f)) = 0x0F47"
  by (simp add: fcs_trailer_def Fcs_result_def Fcs_write_bitwise crc16_trailer)

lemma Fcs_result_inj: "Fcs_result g = Fcs_result h \<Longrightarrow> g = h"
  by (metis Fcs_result_def bit.double_compl Fcs_eqI)

lemma residue_trailer:
  assumes "Fcs_result (Fcs_write (Fcs_write f x) y) = 0x0F47"
  shows "[x, y] = fcs_trailer f"
proof -
  have "Fcs_write (Fcs_write f x) y = fcs_bytes f (fcs_trailer f)"
    using assms fcs_trailer_residue Fcs_result_inj by metis
  then show ?thesis
    using Fcs_write2_inj by (simp add: fcs_trailer_def)
qed

end
