(* ===== verification/Ppp_Frame.thy ===== *)
theory Ppp_Frame
  imports Fcs_Checksum
begin

text \<open>
  The PPP-style framing of \<open>common/ppp_frame.h\<close> and \<open>common/ppp_frame.cpp\<close>: byte stuffing
  (\<open>addEscaped\<close>), \<open>ppp_frame\<close> and \<open>ppp_deframe\<close>. The lemmas show that deframing inverts
  framing, that an accepted frame carries the checksum of its payload, which corruptions
  the checksum detects, and on which inputs the decoder runs into undefined behaviour.
\<close>

section \<open>Constants\<close>

definition PPP_MASK_CHAR :: byte where "PPP_MASK_CHAR = 0x20"
definition PPP_ESC_CHAR :: byte where "PPP_ESC_CHAR = 0x7D"
definition PPP_FLAG_CHAR :: byte where "PPP_FLAG_CHAR = 0x7E"

section \<open>Framing\<close>

definition addEscaped :: "bytes \<Rightarrow> byte \<Rightarrow> bytes" where
  "addEscaped out c =
     (if c = PPP_ESC_CHAR \<or> c = PPP_FLAG_CHAR then out @ [PPP_ESC_CHAR] @ [c XOR PPP_MASK_CHAR]
      else out @ [c])"

fun frame_loop :: "bytes \<Rightarrow> bytes \<times> Fcs \<Rightarrow> bytes \<times> Fcs" where
  "frame_loop [] (out, fcs) = (out, fcs)"
| "frame_loop (c # cs) (out, fcs) = frame_loop cs (addEscaped out c, Fcs_write fcs c)"

definition ppp_frame :: "bytes \<Rightarrow> bytes" where
  "ppp_frame inp =
     (let (out, fcs) = frame_loop inp ([PPP_FLAG_CHAR], Fcs_new);
          out = addEscaped out (ucast (Fcs_result fcs AND 0xFF));
          out = addEscaped out (ucast (drop_bit 8 (Fcs_result fcs)))
      in out @ [PPP_FLAG_CHAR])"

section \<open>Deframing\<close>

record deframe_state =
  df_out :: bytes
  df_escFlag :: bool
  df_fcs :: Fcs

text \<open>The loop returns whether it ran to the end of the input (\<open>False\<close>: it met a flag).\<close>

fun deframe_loop :: "bytes \<Rightarrow> deframe_state \<Rightarrow> bool \<times> deframe_state" where
  "deframe_loop [] st = (True, st)"
| "deframe_loop (c # cs) st =
     (if c = PPP_ESC_CHAR then deframe_loop cs (st\<lparr>df_escFlag := True\<rparr>)
      else if c = PPP_FLAG_CHAR then (False, st)
      else if df_escFlag st then
        deframe_loop cs (st\<lparr>df_out := df_out st @ [c XOR PPP_MASK_CHAR],
                           df_fcs := Fcs_write (df_fcs st) (c XOR PPP_MASK_CHAR),
                           df_escFlag := False\<rparr>)
      else deframe_loop cs (st\<lparr>df_fcs := Fcs_write (df_fcs st) c, df_out := df_out st @ [c]\<rparr>))"

definition ppp_deframe :: "bytes \<Rightarrow> (bool \<times> bytes) outcome" where
  "ppp_deframe inp =
     (if length inp < 3 then Inr (False, [])
      else
        let (ended, st) = deframe_loop inp \<lparr>df_out = [], df_escFlag = False, df_fcs = Fcs_new\<rparr> in
        if \<not> ended then Inr (False, df_out st)
        else
          let fcsCheck = (Fcs_result (df_fcs st) = 0x0F47) in
          seq (pop_back (df_out st)) (\<lambda>out.
          seq (pop_back out) (\<lambda>out.
          Inr (\<not> df_escFlag st \<and> fcsCheck, out))))"

section \<open>Stuffing and unstuffing\<close>

definition escape :: "byte \<Rightarrow> bytes" where
  "escape c = (if c = PPP_ESC_CHAR \<or> c = PPP_FLAG_CHAR then [PPP_ESC_CHAR, c XOR PPP_MASK_CHAR] else [c])"

abbreviation stuff :: "bytes \<Rightarrow> bytes" where
  "stuff bs \<equiv> concat (map escape bs)"

text \<open>What stands between the two flags of a frame.\<close>

definition frame_body :: "bytes \<Rightarrow> bytes" where
  "frame_body p = stuff (p @ fcs_trailer (fcs_bytes Fcs_new p))"

lemma addEscaped_escape: "addEscaped out c = out @ escape c"
  by (simp add: addEscaped_def escape_def)

lemma frame_loop_stuff: "frame_loop bs (out, f) = (out @ stuff bs, fcs_bytes f bs)"
  by (induction bs arbitrary: out f) (simp_all add: addEscaped_escape)

lemma ppp_frame_body: "ppp_frame p = PPP_FLAG_CHAR # frame_body p @ [PPP_FLAG_CHAR]"
  by (simp add: ppp_frame_def frame_loop_stuff addEscaped_escape frame_body_def fcs_trailer_def
      del: foldl.simps)

lemmas ppp_chars = PPP_ESC_CHAR_def PPP_FLAG_CHAR_def PPP_MASK_CHAR_def

lemma special_chars [simp]:
  "PPP_ESC_CHAR \<noteq> PPP_FLAG_CHAR" "PPP_FLAG_CHAR \<noteq> PPP_ESC_CHAR"
  "PPP_ESC_CHAR XOR PPP_MASK_CHAR = 0x5D" "PPP_FLAG_CHAR XOR PPP_MASK_CHAR = 0x5E"
  by (simp_all add: ppp_chars)

lemma flag_not_in_escape: "PPP_FLAG_CHAR \<notin> set (escape c)"
  by (auto simp: escape_def) (simp_all add: ppp_chars)

lemma flag_not_in_body: "PPP_FLAG_CHAR \<notin> set (frame_body p)"
  by (auto simp: frame_body_def flag_not_in_escape)

lemma length_stuff: "length bs \<le> length (stuff bs)"
  by (induction bs) (auto simp: escape_def)

text \<open>
  The decoder loop computes \<open>unstuff\<close>: the bytes that are not escape characters, those
  after an escape character complemented in bit 5.
\<close>

fun unstuff :: "bool \<Rightarrow> bytes \<Rightarrow> bytes" where
  "unstuff esc [] = []"
| "unstuff esc (c # cs) =
     (if c = PPP_ESC_CHAR then unstuff True cs
      else (if esc then c XOR PPP_MASK_CHAR else c) # unstuff False cs)"

fun ends_escaped :: "bool \<Rightarrow> bytes \<Rightarrow> bool" where
  "ends_escaped esc [] = esc"
| "ends_escaped esc (c # cs) = ends_escaped (c = PPP_ESC_CHAR) cs"

lemma unstuff_append: "unstuff esc (xs @ ys) = unstuff esc xs @ unstuff (ends_escaped esc xs) ys"
  by (induction xs arbitrary: esc) auto

lemma ends_escaped_append: "ends_escaped esc (xs @ ys) = ends_escaped (ends_escaped esc xs) ys"
  by (induction xs arbitrary: esc) auto

lemma ends_escaped_last: "ends_escaped esc xs = (if xs = [] then esc else last xs = PPP_ESC_CHAR)"
  by (induction xs arbitrary: esc) auto

lemma length_unstuff: "length (unstuff esc xs) = length (filter (\<lambda>c. c \<noteq> PPP_ESC_CHAR) xs)"
  by (induction xs arbitrary: esc) auto

lemma unstuff_escape: "unstuff False (escape c) = [c]" "\<not> ends_escaped False (escape c)"
  by (auto simp: escape_def) (auto simp: ppp_chars)

lemma unstuff_stuff: "unstuff False (stuff bs) = bs" "\<not> ends_escaped False (stuff bs)"
  by (induction bs) (auto simp: unstuff_append ends_escaped_append unstuff_escape)

lemma deframe_loop_unstuff:
  "PPP_FLAG_CHAR \<notin> set inp \<Longrightarrow>
   deframe_loop inp st =
     (True, st\<lparr>df_out := df_out st @ unstuff (df_escFlag st) inp,
              df_fcs := fcs_bytes (df_fcs st) (unstuff (df_escFlag st) inp),
              df_escFlag := ends_escaped (df_escFlag st) inp\<rparr>)"
  by (induction inp arbitrary: st) auto

lemma deframe_loop_flag:
  "PPP_FLAG_CHAR \<in> set inp \<Longrightarrow> \<not> fst (deframe_loop inp st) \<and>
   df_out (snd (deframe_loop inp st)) =
     df_out st @ unstuff (df_escFlag st) (takeWhile (\<lambda>c. c \<noteq> PPP_FLAG_CHAR) inp)"
  by (induction inp arbitrary: st) auto

lemma pop_back_twice:
  "seq (pop_back xs) pop_back = (if length xs < 2 then Inl PopBackEmpty else Inr (butlast (butlast xs)))"
  by (cases xs rule: rev_cases; cases "butlast xs" rule: rev_cases) (auto simp: pop_back_def butlast_append)

text \<open>What \<open>ppp_deframe\<close> computes, on every branch.\<close>

lemma ppp_deframe_cases:
  "ppp_deframe inp =
    (if length inp < 3 then Inr (False, [])
     else if PPP_FLAG_CHAR \<in> set inp then
       Inr (False, unstuff False (takeWhile (\<lambda>c. c \<noteq> PPP_FLAG_CHAR) inp))
     else if length (unstuff False inp) < 2 then Inl PopBackEmpty
     else Inr (last inp \<noteq> PPP_ESC_CHAR \<and> Fcs_result (fcs_bytes Fcs_new (unstuff False inp)) = 0x0F47,
               butlast (butlast (unstuff False inp))))"
proof (cases "PPP_FLAG_CHAR \<in> set inp")
  case True
  then show ?thesis
    using deframe_loop_flag [OF True, of "\<lparr>df_out = [], df_escFlag = False, df_fcs = Fcs_new\<rparr>"]
    by (auto simp: ppp_deframe_def split: prod.splits)
next
  case False
  have "seq (seq (pop_back xs) pop_back) (\<lambda>out. Inr (b, out)) =
      (if length xs < 2 then Inl PopBackEmpty else Inr (b, butlast (butlast xs)))" for xs :: bytes and b :: bool
    by (simp add: pop_back_twice)
  with False show ?thesis
    by (auto simp: ppp_deframe_def deframe_loop_unstuff ends_escaped_last fault_simps Let_def)
qed

lemma length_frame_body: "length p + 2 \<le> length (frame_body p)"
  using length_stuff [of "p @ fcs_trailer (fcs_bytes Fcs_new p)"]
  by (simp add: frame_body_def fcs_trailer_def)

lemma unstuff_frame_body: "unstuff False (frame_body p) = p @ fcs_trailer (fcs_bytes Fcs_new p)"
  by (simp only: frame_body_def unstuff_stuff)

lemma frame_body_ends: "last (frame_body p) \<noteq> PPP_ESC_CHAR"
  using unstuff_stuff(2) [of "p @ fcs_trailer (fcs_bytes Fcs_new p)"] length_frame_body [of p]
  unfolding frame_body_def [symmetric] ends_escaped_last by (auto split: if_splits)

lemma deframe_frame_body: "p \<noteq> [] \<Longrightarrow> ppp_deframe (frame_body p) = Inr (True, p)"
  using length_frame_body [of p] fcs_trailer_residue [of "fcs_bytes Fcs_new p"]
  by (cases p)
    (auto simp: ppp_deframe_cases flag_not_in_body unstuff_frame_body frame_body_ends
      butlast_append fcs_trailer_def)

section \<open>Properties\<close>

text \<open>
  C8: Deframing inverts framing. The bytes \<open>ppp_frame\<close> puts between its two flags are decoded
  to the payload and accepted exactly when the payload is not empty; the frame of an empty
  payload has two bytes only and is refused as too short.
\<close>

theorem ppp_roundtrip: "ppp_deframe (butlast (tl (ppp_frame p))) = Inr (p \<noteq> [], p)"
proof (cases "p = []")
  case True
  then show ?thesis
    by (simp add: ppp_frame_body frame_body_def fcs_trailer_def Fcs_new_def Fcs_result_def
        escape_def ppp_chars ppp_deframe_def)
next
  case False
  then show ?thesis by (simp add: ppp_frame_body deframe_frame_body)
qed

lemma ppp_frame_length: "length (ppp_frame p) \<le> 2 * length p + 6"
proof -
  have "length (stuff bs) \<le> 2 * length bs" for bs
    by (induction bs) (auto simp: escape_def)
  from this [of "p @ fcs_trailer (fcs_bytes Fcs_new p)"]
  have "length (frame_body p) \<le> 2 * length p + 4"
    unfolding frame_body_def [symmetric] by (simp add: fcs_trailer_def)
  then show ?thesis by (simp add: ppp_frame_body)
qed

text \<open>
  Transparency and size of a frame: it starts and ends with a flag, no flag stands
  between them whatever the payload, and it is at least four bytes longer than the payload
  and at most twice as long plus six.
\<close>

theorem ppp_frame_shape:
  "hd (ppp_frame p) = PPP_FLAG_CHAR \<and> last (ppp_frame p) = PPP_FLAG_CHAR \<and>
   PPP_FLAG_CHAR \<notin> set (butlast (tl (ppp_frame p))) \<and>
   length p + 4 \<le> length (ppp_frame p) \<and> length (ppp_frame p) \<le> 2 * length p + 6"
  using length_frame_body [of p] flag_not_in_body [of p] ppp_frame_length [of p] by (simp add: ppp_frame_body)

text \<open>
  C24: The table-driven register update of \<open>Fcs::write\<close> computes the bitwise CRC-16 of RFC 1662
  (polynomial 0x8408, least significant bit first) on every byte sequence.
\<close>

theorem fcs_is_crc16:
  "fcs_reg (foldl Fcs_write Fcs_new bs) = foldl crc16_byte 0xFFFF bs"
proof -
  have "fcs_reg (foldl Fcs_write f bs) = foldl crc16_byte (fcs_reg f) bs" for f
    by (induction bs arbitrary: f) (simp_all add: Fcs_write_bitwise)
  then show ?thesis by (simp add: Fcs_new_def)
qed

text \<open>
  C21: Soundness of acceptance. Whatever bytes \<open>ppp_deframe\<close> accepts contain no flag, do not end
  in an escape character, and unstuff to the returned payload followed by exactly the two
  checksum bytes \<open>ppp_frame\<close> would have appended to it.
\<close>

theorem ppp_deframe_sound:
  assumes "ppp_deframe inp = Inr (True, p)"
  shows "PPP_FLAG_CHAR \<notin> set inp \<and> last inp \<noteq> PPP_ESC_CHAR \<and>
    unstuff False inp = p @ fcs_trailer (foldl Fcs_write Fcs_new p)"
proof -
  let ?u = "unstuff False inp"
  from assms have inp: "PPP_FLAG_CHAR \<notin> set inp" "last inp \<noteq> PPP_ESC_CHAR" "2 \<le> length ?u"
    and res: "Fcs_result (fcs_bytes Fcs_new ?u) = 0x0F47" and p: "p = butlast (butlast ?u)"
    by (auto simp: ppp_deframe_cases split: if_splits)
  from inp(3) obtain q x y where u: "?u = q @ [x, y]"
    by (blast dest: snoc2_exhaust)
  with res have "[x, y] = fcs_trailer (fcs_bytes Fcs_new q)"
    by (intro residue_trailer) simp
  moreover from p u have "p = q"
    by (simp add: butlast_append)
  ultimately show ?thesis
    using inp u by simp
qed

lemma ppp_deframe_sound_witness:
  "ppp_deframe [0x41, 0xF5, 0xA3] = Inr (True, [0x41]) \<and>
   unstuff False [0x41, 0xF5, 0xA3] = [0x41] @ fcs_trailer (foldl Fcs_write Fcs_new [0x41])"
proof -
  have "ppp_deframe [0x41, 0xF5, 0xA3] = Inr (True, [0x41])"
    by (simp add: ppp_deframe_def fcs_eval ppp_chars pop_back_def)
  then show ?thesis
    using ppp_deframe_sound [of "[0x41, 0xF5, 0xA3]" "[0x41]"] by blast
qed



text \<open>
  C40: Undefined behaviour of the decoder. \<open>ppp_deframe\<close> removes two bytes from its output
  without checking that it has them: it faults exactly on the inputs of three or more
  bytes without a flag in which fewer than two bytes differ from the escape character.
\<close>

theorem ppp_deframe_faults_iff:
  "ppp_deframe inp = Inl f \<longleftrightarrow>
     f = PopBackEmpty \<and> 3 \<le> length inp \<and> PPP_FLAG_CHAR \<notin> set inp \<and>
     length (filter (\<lambda>c. c \<noteq> PPP_ESC_CHAR) inp) < 2"
  by (auto simp: ppp_deframe_cases length_unstuff)

lemma ppp_deframe_fault_example:
  "ppp_deframe [PPP_ESC_CHAR, PPP_ESC_CHAR, PPP_ESC_CHAR] = Inl PopBackEmpty"
  by (simp add: ppp_deframe_def)

end
