(* ===== verification/Msg_Filter.thy ===== *)
theory Msg_Filter
  imports Message_Roundtrip Ppp_Frame
begin

text \<open>
  The class \<open>MsgFilter\<close>, which \<open>src/proxy.cpp\<close> and \<open>zenoh-arduino/src/BrokerSerial.cpp\<close> both
  define: it passes on the frames whose first item is the message type it was made for. It has
  a deserializer and a \<open>MsgBase\<close> of its own, and the \<open>MsgBase\<close> keeps its value between frames.
\<close>

section \<open>Frames of messages\<close>

text \<open>The frames in \<open>out\<close> carry messages with the items \<open>xss\<close>, in order.\<close>

definition frames_of ::
    "('e, 'i) tinycbor \<Rightarrow> (cbor_item list \<Rightarrow> 'i \<Rightarrow> bool) \<Rightarrow> nat \<Rightarrow> cbor_item list list \<Rightarrow> bytes list \<Rightarrow> bool" where
  "frames_of tc at cap xss out \<longleftrightarrow>
     (\<exists>rs. out = map ppp_frame rs \<and> list_all2 (cbor_encodes tc at cap) xss rs)"

lemma frames_of_Nil [simp]: "frames_of tc at cap [] out \<longleftrightarrow> out = []"
  by (auto simp: frames_of_def)

lemma frames_of_append:
  "frames_of tc at cap xss out \<Longrightarrow> frames_of tc at cap yss out' \<Longrightarrow> frames_of tc at cap (xss @ yss) (out @ out')"
  unfolding frames_of_def by (metis list_all2_appendI map_append)

lemma frames_of_single: "cbor_encodes tc at cap xs bs \<Longrightarrow> frames_of tc at cap [xs] [ppp_frame bs]"
  unfolding frames_of_def by (intro exI [of _ "[bs]"]) simp

section \<open>The filter\<close>

record 'i MsgFilter =
  filter_msgType :: c_int
  filter_msgBase :: MsgBase
  filter_fromCbor :: "'i CborDeserializer"

text \<open>\<open>msgBase\<close> is not initialised: \<open>garbage\<close> is its first value.\<close>

definition MsgFilter_new :: "c_int \<Rightarrow> MsgBase \<Rightarrow> 'i \<Rightarrow> 'i \<Rightarrow> 'i MsgFilter" where
  "MsgFilter_new msg_type garbage root it =
     \<lparr>filter_msgType = msg_type, filter_msgBase = garbage, filter_fromCbor = CborDeserializer_new 1024 root it\<rparr>"

definition MsgFilter_on :: "('e, 'i) tinycbor \<Rightarrow> bytes \<Rightarrow> 'i MsgFilter \<Rightarrow> (bytes option \<times> 'i MsgFilter) outcome" where
  "MsgFilter_on tc inp f =
     seq (reflect_MsgBase (de_reflector tc) (filter_msgBase f) (fromBytes inp (filter_fromCbor f))) (\<lambda>(m, d).
       let f = f\<lparr>filter_msgBase := m, filter_fromCbor := d\<rparr>
       in Inr (if success d \<and> msgType m = filter_msgType f then Some inp else None, f))"

text \<open>A flow \<open>source >> filter >> handler\<close>: the handler runs on the frames that pass.\<close>

definition filter_flow ::
    "('e, 'i) tinycbor \<Rightarrow> (bytes \<Rightarrow> 's \<Rightarrow> 's outcome) \<Rightarrow> bytes \<Rightarrow> 'i MsgFilter \<Rightarrow> 's \<Rightarrow> ('i MsgFilter \<times> 's) outcome" where
  "filter_flow tc handler inp f s =
     seq (MsgFilter_on tc inp f) (\<lambda>(out, f).
       case out of None \<Rightarrow> Inr (f, s) | Some frame \<Rightarrow> seq (handler frame s) (\<lambda>s. Inr (f, s)))"

text \<open>
  A source with several such flows emits to them in the order they were connected; each
  filter's state is kept beside its handler.
\<close>

fun filter_flows ::
    "('e, 'i) tinycbor \<Rightarrow> (bytes \<Rightarrow> 's \<Rightarrow> 's outcome) list \<Rightarrow> bytes \<Rightarrow> 'i MsgFilter list \<Rightarrow> 's \<Rightarrow>
      ('i MsgFilter list \<times> 's) outcome" where
  "filter_flows tc (h # hs) inp (f # fs) s =
     seq (filter_flow tc h inp f s) (\<lambda>(f, s).
     seq (filter_flows tc hs inp fs s) (\<lambda>(fs, s). Inr (f # fs, s)))"
| "filter_flows tc _ inp fs s = Inr (fs, s)"

text \<open>What every handler keeps, the flows keep.\<close>

lemma filter_flows_keep:
  assumes "filter_flows tc hs frame fs s = Inr (fs', s')" "P s"
    and "\<And>h inp t t'. h \<in> set hs \<Longrightarrow> h inp t = Inr t' \<Longrightarrow> P t \<Longrightarrow> P t'"
  shows "P s'"
  using assms
proof (induction tc hs frame fs s arbitrary: fs' rule: filter_flows.induct)
  case (1 tc h hs inp f fs s)
  then obtain f1 s1 fs2 where flow: "filter_flow tc h inp f s = Inr (f1, s1)"
    "filter_flows tc hs inp fs s1 = Inr (fs2, s')"
    by (auto elim!: seq_InrE)
  have "P s1"
    using flow(1) "1.prems"(2) "1.prems"(3) [of h]
    by (auto simp: filter_flow_def elim!: seq_InrE split: option.splits)
  show ?case
    by (rule "1.IH" [OF flow(2) \<open>P s1\<close>]) (use "1.prems"(3) in \<open>auto intro: list.set_intros\<close>)
qed simp_all

section \<open>Which handler runs\<close>

definition filters_ok :: "nat \<Rightarrow> 'i MsgFilter list \<Rightarrow> bool" where
  "filters_ok dcap fs \<longleftrightarrow> list_all (\<lambda>f. de_capacity (filter_fromCbor f) = dcap) fs"

lemma filters_ok_Cons [simp]:
  "filters_ok dcap (f # fs) \<longleftrightarrow> de_capacity (filter_fromCbor f) = dcap \<and> filters_ok dcap fs"
  by (simp add: filters_ok_def)

lemma filters_ok_Nil [simp]: "filters_ok dcap []"
  by (simp add: filters_ok_def)

text \<open>On the frame \<open>bs\<close> the filter decides as for a message of type \<open>t\<close>, and remembers \<open>t\<close>.\<close>

definition selects :: "('e, 'i) tinycbor \<Rightarrow> bytes \<Rightarrow> c_int \<Rightarrow> 'i MsgFilter \<Rightarrow> bool" where
  "selects tc bs t f \<longleftrightarrow> (\<exists>f'. MsgFilter_on tc bs f = Inr (if filter_msgType f = t then Some bs else None, f') \<and>
     filter_msgType f' = filter_msgType f \<and> de_capacity (filter_fromCbor f') = de_capacity (filter_fromCbor f) \<and>
     msgType (filter_msgBase f') = t)"

definition remembers :: "c_int \<Rightarrow> 'i MsgFilter list \<Rightarrow> bool" where
  "remembers t fs \<longleftrightarrow> list_all (\<lambda>f. msgType (filter_msgBase f) = t) fs"

text \<open>Of flows with different types, at most one handler runs: the one of the frame's type.\<close>

lemma filter_flows_none:
  assumes "list_all (selects tc bs t) fs" "filters_ok dcap fs" "t \<notin> filter_msgType ` set fs"
    and "length hs = length fs"
  shows "\<exists>fs'. filter_flows tc hs bs fs s = Inr (fs', s) \<and> filters_ok dcap fs' \<and>
    map filter_msgType fs' = map filter_msgType fs \<and> remembers t fs'"
  using assms
proof (induction fs arbitrary: hs s)
  case (Cons f fs)
  then obtain h hs' where hs: "hs = h # hs'" by (cases hs) auto
  from Cons.prems(1) obtain f' where
    f': "MsgFilter_on tc bs f = Inr (if filter_msgType f = t then Some bs else None, f')"
      "filter_msgType f' = filter_msgType f" "de_capacity (filter_fromCbor f') = de_capacity (filter_fromCbor f)"
      "msgType (filter_msgBase f') = t" by (auto simp: selects_def)
  from Cons.IH [of hs' s] Cons.prems hs f' show ?case
    by (auto simp: filter_flow_def remembers_def)
qed (simp add: remembers_def)

lemma filter_flows_one:
  assumes "list_all (selects tc bs t) fs" "filters_ok dcap fs" "distinct (map filter_msgType fs)"
    and "length hs = length fs" "n < length fs" "filter_msgType (fs ! n) = t" "(hs ! n) bs s = Inr s'"
  shows "\<exists>fs'. filter_flows tc hs bs fs s = Inr (fs', s') \<and> filters_ok dcap fs' \<and>
    map filter_msgType fs' = map filter_msgType fs \<and> remembers t fs'"
  using assms
proof (induction fs arbitrary: hs n)
  case (Cons f fs)
  then obtain h hs' where hs: "hs = h # hs'" by (cases hs) auto
  from Cons.prems(1) obtain f' where
    f': "MsgFilter_on tc bs f = Inr (if filter_msgType f = t then Some bs else None, f')"
      "filter_msgType f' = filter_msgType f" "de_capacity (filter_fromCbor f') = de_capacity (filter_fromCbor f)"
      "msgType (filter_msgBase f') = t" by (auto simp: selects_def)
  show ?case
  proof (cases n)
    case 0
    with Cons.prems have t: "filter_msgType f = t" "t \<notin> filter_msgType ` set fs" "h bs s = Inr s'"
      by (auto simp: hs)
    with filter_flows_none [OF _ _ t(2), of tc bs dcap hs' s'] Cons.prems hs f' show ?thesis
      by (auto simp: filter_flow_def remembers_def)
  next
    case (Suc k)
    with Cons.prems have t: "filter_msgType f \<noteq> t" "k < length fs" "filter_msgType (fs ! k) = t"
      by (auto simp: hs)
    with Cons.IH [of hs' k] Cons.prems hs f' Suc show ?thesis
      by (auto simp: filter_flow_def remembers_def)
  qed
qed simp

context cbor_channel begin

text \<open>The encoding of a message of type \<open>t\<close> is taken as type \<open>t\<close>.\<close>

lemma selects_message:
  assumes "encodes (CInt (sint t) # xs) bs" "filters_ok dcap fs"
  shows "list_all (selects tc bs t) fs"
proof -
  have "selects tc bs t f" if cap: "de_capacity (filter_fromCbor f) = dcap" for f
  proof -
    from de.read_base [OF loads [OF assms(1) cap], of "filter_msgBase f"] obtain d' where
      d': "reflect_MsgBase (de_reflector tc) (filter_msgBase f) (fromBytes bs (filter_fromCbor f)) =
        Inr ((filter_msgBase f)\<lparr>msgType := t\<rparr>, d')" "de_reading d' xs" by blast
    show ?thesis
      unfolding selects_def
      by (rule exI [of _ "f\<lparr>filter_msgBase := (filter_msgBase f)\<lparr>msgType := t\<rparr>, filter_fromCbor := d'\<rparr>"])
        (auto simp: MsgFilter_on_def d'(1) cap reading_success [OF d'(2)] reading_capacity [OF d'(2)])
  qed
  then show ?thesis
    using assms(2) by (simp add: filters_ok_def list_all_iff)
qed

text \<open>
  An array whose first item is of fixed size but no integer is taken as of the type of the
  frame before.
\<close>

lemma selects_simple:
  assumes "encodes (CSimple y # xs) bs" "filters_ok dcap fs" "remembers t fs"
  shows "list_all (selects tc bs t) fs"
proof -
  have "selects tc bs t f" if cap: "de_capacity (filter_fromCbor f) = dcap" and t: "msgType (filter_msgBase f) = t" for f
  proof -
    from de.read_base_simple [OF loads [OF assms(1) cap], of "filter_msgBase f"] obtain d' where
      d': "reflect_MsgBase (de_reflector tc) (filter_msgBase f) (fromBytes bs (filter_fromCbor f)) =
        Inr (filter_msgBase f, d')" "de_reading d' xs" by blast
    show ?thesis
      unfolding selects_def
      by (rule exI [of _ "f\<lparr>filter_msgBase := filter_msgBase f, filter_fromCbor := d'\<rparr>"])
        (auto simp: MsgFilter_on_def d'(1) cap t reading_success [OF d'(2)] reading_capacity [OF d'(2)])
  qed
  then show ?thesis
    using assms(2,3) by (simp add: filters_ok_def remembers_def list_all_iff)
qed

end

end
