(* ===== verification/Zenoh_Api.thy ===== *)
theory Zenoh_Api
  imports Prelude "HOL-Library.Multiset"
begin

text \<open>
  The zenoh library is not part of the repository. A run of the program sees it as a partner
  that answers calls: the calls made so far are a list, and a record of functions from that
  list gives the answers. Any behaviour of the library in one run, failures included, is such
  a record. A null pointer is 0.

  The second half states what a class that keeps a table of handles of such a library
  promises (locale \<open>handle_registry\<close>): every handle the library declared is either in the
  table or has been undeclared, once.
\<close>

section \<open>Calls and answers\<close>

datatype zn_reskey = Rid u64 | Rname bytes

text \<open>\<open>'a\<close> is the argument a subscriber's handler gets back with every sample.\<close>

datatype 'a zn_call =
    ZnOpen
  | ZnDeclareSubscriber u64 zn_reskey 'a
  | ZnUndeclareSubscriber u64
  | ZnDeclareResource u64 zn_reskey
  | ZnDeclarePublisher u64 zn_reskey
  | ZnUndeclarePublisher u64
  | ZnWrite u64 zn_reskey bytes
  | ZnScout
  | ZnQueryCollect u64 zn_reskey

record 'a zenoh =
  zn_open :: "'a zn_call list \<Rightarrow> u64"
  zn_declare_subscriber :: "'a zn_call list \<Rightarrow> u64"
  zn_declare_resource :: "'a zn_call list \<Rightarrow> u64"
  zn_declare_publisher :: "'a zn_call list \<Rightarrow> u64"
  zn_write :: "'a zn_call list \<Rightarrow> c_int"

definition zn_ask :: "('c list \<Rightarrow> 'r) \<Rightarrow> 'c \<Rightarrow> 'c list \<Rightarrow> 'r \<times> 'c list" where
  "zn_ask answer c cs = (answer (cs @ [c]), cs @ [c])"

text \<open>\<open>answers f P cs\<close>: what \<open>f\<close> answered to the calls of \<open>cs\<close> that satisfy \<open>P\<close>.\<close>

definition answers :: "('c list \<Rightarrow> 'r) \<Rightarrow> ('c \<Rightarrow> bool) \<Rightarrow> 'c list \<Rightarrow> 'r list" where
  "answers f P cs = map (\<lambda>n. f (take (Suc n) cs)) (filter (\<lambda>n. P (cs ! n)) [0..<length cs])"

lemma answers_Nil [simp]: "answers f P [] = []"
  by (simp add: answers_def)

lemma answers_snoc [simp]:
  "answers f P (cs @ [c]) = answers f P cs @ (if P c then [f (cs @ [c])] else [])"
proof -
  have "filter (\<lambda>n. P ((cs @ [c]) ! n)) [0..<length cs] = filter (\<lambda>n. P (cs ! n)) [0..<length cs]"
    by (rule filter_cong) (simp_all add: nth_append)
  moreover have "map (\<lambda>n. f (take (Suc n) (cs @ [c]))) (filter Q [0..<length cs]) =
      map (\<lambda>n. f (take (Suc n) cs)) (filter Q [0..<length cs])" for Q
    by (rule map_cong) auto
  ultimately show ?thesis
    by (simp add: answers_def del: take_append)
qed

lemma answers_snoc2 [simp]:
  "answers f P (cs @ [c, d]) = answers f P (cs @ [c]) @ (if P d then [f (cs @ [c, d])] else [])"
  using answers_snoc [of f P "cs @ [c]" d] by simp

lemma answers_append_none:
  "list_all (\<lambda>c. \<not> P c) ds \<Longrightarrow> answers f P (cs @ ds) = answers f P cs"
proof (induction ds rule: rev_induct)
  case (snoc d ds)
  then show ?case
    using answers_snoc [of f P "cs @ ds" d] by simp
qed simp

fun is_declare_subscriber :: "'a zn_call \<Rightarrow> bool" where
  "is_declare_subscriber (ZnDeclareSubscriber _ _ _) = True"
| "is_declare_subscriber _ = False"

fun is_declare_publisher :: "'a zn_call \<Rightarrow> bool" where
  "is_declare_publisher (ZnDeclarePublisher _ _) = True"
| "is_declare_publisher _ = False"

text \<open>The subscribers the library declared, failures left out, and the publishers.\<close>

definition declared_subscribers :: "'a zenoh \<Rightarrow> 'a zn_call list \<Rightarrow> u64 list" where
  "declared_subscribers z cs = filter (\<lambda>h. h \<noteq> 0) (answers (zn_declare_subscriber z) is_declare_subscriber cs)"

definition declared_publishers :: "'a zenoh \<Rightarrow> 'a zn_call list \<Rightarrow> u64 list" where
  "declared_publishers z cs = answers (zn_declare_publisher z) is_declare_publisher cs"

fun undeclared_subscribers :: "'a zn_call list \<Rightarrow> u64 list" where
  "undeclared_subscribers [] = []"
| "undeclared_subscribers (ZnUndeclareSubscriber h # cs) = h # undeclared_subscribers cs"
| "undeclared_subscribers (_ # cs) = undeclared_subscribers cs"

fun undeclared_publishers :: "'a zn_call list \<Rightarrow> u64 list" where
  "undeclared_publishers [] = []"
| "undeclared_publishers (ZnUndeclarePublisher h # cs) = h # undeclared_publishers cs"
| "undeclared_publishers (_ # cs) = undeclared_publishers cs"

lemma undeclared_append [simp]:
  "undeclared_subscribers (cs @ ds) = undeclared_subscribers cs @ undeclared_subscribers ds"
  "undeclared_publishers (cs @ ds) = undeclared_publishers cs @ undeclared_publishers ds"
  by (induction cs rule: undeclared_subscribers.induct) simp_all

lemma undeclared_map [simp]:
  "undeclared_subscribers (map (\<lambda>x. ZnUndeclareSubscriber (f x)) xs) = map f xs"
  "undeclared_publishers (map (\<lambda>x. ZnUndeclarePublisher (f x)) xs) = map f xs"
  "undeclared_subscribers (map (\<lambda>x. ZnUndeclarePublisher (f x)) xs) = []"
  "undeclared_publishers (map (\<lambda>x. ZnUndeclareSubscriber (f x)) xs) = []"
  by (induction xs) simp_all

lemma declared_append_none [simp]:
  "list_all (\<lambda>c. \<not> is_declare_subscriber c) ds \<Longrightarrow>
    declared_subscribers z (cs @ ds) = declared_subscribers z cs"
  "list_all (\<lambda>c. \<not> is_declare_publisher c) ds \<Longrightarrow>
    declared_publishers z (cs @ ds) = declared_publishers z cs"
  by (simp_all add: declared_subscribers_def declared_publishers_def answers_append_none)

section \<open>Tables of handles\<close>

text \<open>
  The abstract registry: a table, the handles declared and the handles undeclared. Steps add
  a fresh key with a new handle, or undeclare and forget all handles.
\<close>

type_synonym ('k, 'h) registry = "('k \<times> 'h) list \<times> 'h list \<times> 'h list"

inductive registry_step :: "('k, 'h) registry \<Rightarrow> ('k, 'h) registry \<Rightarrow> bool" where
  add: "map_of table k = None \<Longrightarrow>
    registry_step (table, declared, undeclared) (table @ [(k, h)], declared @ [h], undeclared)"
| clear: "registry_step (table, declared, undeclared) ([], declared, undeclared @ map snd table)"

inductive_cases registry_stepE [elim]: "registry_step r r'"

definition registry_ok :: "('k, 'h) registry \<Rightarrow> bool" where
  "registry_ok r \<longleftrightarrow> (case r of (table, declared, undeclared) \<Rightarrow>
     distinct (map fst table) \<and> mset declared = mset undeclared + mset (map snd table))"

lemma registry_ok_step: "registry_step r r' \<Longrightarrow> registry_ok r \<Longrightarrow> registry_ok r'"
  by (auto simp: registry_ok_def map_of_eq_None_iff)

locale handle_registry =
  fixes obs :: "'s \<Rightarrow> ('k, 'h) registry"
    and step :: "'s \<Rightarrow> 's \<Rightarrow> bool"
  assumes simulates: "step s s' \<Longrightarrow> obs s' = obs s \<or> registry_step (obs s) (obs s')"
begin

lemma ok_step: "step s s' \<Longrightarrow> registry_ok (obs s) \<Longrightarrow> registry_ok (obs s')"
  using simulates registry_ok_step by metis

lemma ok_run: "step\<^sup>*\<^sup>* s s' \<Longrightarrow> registry_ok (obs s) \<Longrightarrow> registry_ok (obs s')"
  by (induction rule: rtranclp_induct) (auto intro: ok_step)

lemma accounting:
  assumes "step\<^sup>*\<^sup>* s s'" "obs s = ([], [], [])" "obs s' = (table, declared, undeclared)"
  shows "mset declared = mset undeclared + mset (map snd table)" "distinct (map fst table)"
  using ok_run [OF assms(1)] assms(2,3) by (simp_all add: registry_ok_def)

text \<open>No handle is undeclared twice when the library never declares one twice.\<close>

lemma undeclared_once:
  assumes "step\<^sup>*\<^sup>* s s'" "obs s = ([], [], [])" "obs s' = (table, declared, undeclared)"
    and "distinct declared"
  shows "distinct undeclared" "set undeclared \<inter> snd ` set table = {}"
proof -
  have "distinct (undeclared @ map snd table)"
    using accounting(1) [OF assms(1-3)] assms(4) by (metis mset_append mset_eq_imp_distinct_iff)
  then show "distinct undeclared" "set undeclared \<inter> snd ` set table = {}"
    by simp_all
qed

end

end
