(* ===== verification/Broker_Zenoh.thy ===== *)
theory Broker_Zenoh
  imports Zenoh_Api Broker_Protocol
begin

text \<open>
  The class \<open>BrokerZenoh\<close> of \<open>src/BrokerZenoh.h\<close> and \<open>src/BrokerZenoh.cpp\<close>: the session
  with zenoh, the tables of subscribers and publishers by identifier, and the operations of
  \<open>common/BrokerAbstract.h\<close>. The calls to the library are recorded in \<open>zn_calls\<close>
  (theory \<open>Zenoh_Api\<close>). Both tables are handle registries.
\<close>

section \<open>State\<close>

text \<open>\<open>'cb\<close> is the type of the \<open>std::function\<close> a subscriber is called back with.\<close>

record 'cb Sub =
  sub_id :: c_int
  sub_key :: bytes
  sub_callback :: 'cb
  zn_subscriber :: u64

record Pub =
  pub_id :: c_int
  pub_key :: bytes
  pub_reskey :: zn_reskey
  zn_publisher :: u64

record 'cb BrokerZenoh =
  zenoh_session :: u64
  subscribers :: "(c_int \<times> 'cb Sub) list"
  publishers :: "(c_int \<times> Pub) list"
  zn_calls :: "'cb Sub zn_call list"

definition ENOENT :: c_int where "ENOENT = 2"

definition BrokerZenoh_new :: "'cb BrokerZenoh" where
  "BrokerZenoh_new = \<lparr>zenoh_session = 0, subscribers = [], publishers = [], zn_calls = []\<rparr>"

section \<open>Operations\<close>

text \<open>
  \<open>subscribeHandler\<close> runs on a sample: it calls back the subscriber it was declared with. The
  callback acts on a state \<open>'s\<close> of its own.
\<close>

definition subscribeHandler :: "bytes \<Rightarrow> (c_int \<Rightarrow> bytes \<Rightarrow> 's \<Rightarrow> 's outcome) Sub \<Rightarrow> 's \<Rightarrow> 's outcome" where
  "subscribeHandler sample_value pSub = sub_callback pSub (sub_id pSub) sample_value"

definition BrokerZenoh_init :: "'cb BrokerZenoh \<Rightarrow> c_int \<times> 'cb BrokerZenoh" where
  "BrokerZenoh_init s = (0, s)"

text \<open>The client id is not used.\<close>

definition BrokerZenoh_connect :: "'cb Sub zenoh \<Rightarrow> bytes \<Rightarrow> 'cb BrokerZenoh \<Rightarrow> c_int \<times> 'cb BrokerZenoh" where
  "BrokerZenoh_connect z client s =
     (let s = (if zenoh_session s = 0
               then let (session, cs) = zn_ask (zn_open z) ZnOpen (zn_calls s)
                    in s\<lparr>zenoh_session := session, zn_calls := cs\<rparr>
               else s)
      in (if zenoh_session s = 0 then - 1 else 0, s))"

definition BrokerZenoh_disconnect :: "'cb BrokerZenoh \<Rightarrow> c_int \<times> 'cb BrokerZenoh" where
  "BrokerZenoh_disconnect s =
     (let s = s\<lparr>zn_calls := zn_calls s @
            map (\<lambda>tuple. ZnUndeclareSubscriber (zn_subscriber (snd tuple))) (subscribers s)\<rparr>;
          s = s\<lparr>subscribers := []\<rparr>;
          s = s\<lparr>zn_calls := zn_calls s @
            map (\<lambda>tuple. ZnUndeclarePublisher (zn_publisher (snd tuple))) (publishers s)\<rparr>
      in (0, s\<lparr>publishers := []\<rparr>))"

definition BrokerZenoh_subscriber ::
    "'cb Sub zenoh \<Rightarrow> c_int \<Rightarrow> bytes \<Rightarrow> 'cb \<Rightarrow> 'cb BrokerZenoh \<Rightarrow> c_int \<times> 'cb BrokerZenoh" where
  "BrokerZenoh_subscriber z i pattern callback s =
     (case map_of (subscribers s) i of
        None \<Rightarrow>
          let sub = \<lparr>sub_id = i, sub_key = pattern, sub_callback = callback, zn_subscriber = 0\<rparr>;
              (zsub, cs) = zn_ask (zn_declare_subscriber z)
                (ZnDeclareSubscriber (zenoh_session s) (Rname (c_string pattern)) sub) (zn_calls s);
              s = s\<lparr>zn_calls := cs\<rparr>;
              sub = sub\<lparr>zn_subscriber := zsub\<rparr>
          in if zsub = 0 then (- 1, s)
             else (0, s\<lparr>subscribers := um_emplace i sub (subscribers s)\<rparr>)
      | Some _ \<Rightarrow> (0, s))"

definition BrokerZenoh_unSubscribe :: "c_int \<Rightarrow> 'cb BrokerZenoh \<Rightarrow> c_int \<times> 'cb BrokerZenoh" where
  "BrokerZenoh_unSubscribe i s =
     (case map_of (subscribers s) i of
        None \<Rightarrow> (0, s)
      | Some sub \<Rightarrow> (0, s\<lparr>zn_calls := zn_calls s @ [ZnUndeclareSubscriber (zn_subscriber sub)]\<rparr>))"

definition BrokerZenoh_resource :: "'cb Sub zenoh \<Rightarrow> bytes \<Rightarrow> 'cb BrokerZenoh \<Rightarrow> zn_reskey \<times> 'cb BrokerZenoh" where
  "BrokerZenoh_resource z topic s =
     (let (rid, cs) = zn_ask (zn_declare_resource z)
            (ZnDeclareResource (zenoh_session s) (Rname (c_string topic))) (zn_calls s)
      in (Rid rid, s\<lparr>zn_calls := cs\<rparr>))"

definition BrokerZenoh_publisher :: "'cb Sub zenoh \<Rightarrow> c_int \<Rightarrow> bytes \<Rightarrow> 'cb BrokerZenoh \<Rightarrow> c_int \<times> 'cb BrokerZenoh" where
  "BrokerZenoh_publisher z i key s =
     (case map_of (publishers s) i of
        None \<Rightarrow>
          let (reskey, s) = BrokerZenoh_resource z key s;
              (pub, cs) = zn_ask (zn_declare_publisher z)
                (ZnDeclarePublisher (zenoh_session s) reskey) (zn_calls s);
              s = s\<lparr>zn_calls := cs\<rparr>;
              pPub = \<lparr>pub_id = i, pub_key = key, pub_reskey = reskey, zn_publisher = pub\<rparr>
          in (0, s\<lparr>publishers := um_emplace i pPub (publishers s)\<rparr>)
      | Some _ \<Rightarrow> (0, s))"

definition BrokerZenoh_publish :: "'cb Sub zenoh \<Rightarrow> c_int \<Rightarrow> bytes \<Rightarrow> 'cb BrokerZenoh \<Rightarrow> c_int \<times> 'cb BrokerZenoh" where
  "BrokerZenoh_publish z i bs s =
     (case map_of (publishers s) i of
        Some pub \<Rightarrow>
          let (rc, cs) = zn_ask (zn_write z) (ZnWrite (zenoh_session s) (pub_reskey pub) bs) (zn_calls s)
          in (rc, s\<lparr>zn_calls := cs\<rparr>)
      | None \<Rightarrow> (ENOENT, s))"

lemmas broker_defs = BrokerZenoh_init_def BrokerZenoh_connect_def BrokerZenoh_disconnect_def
  BrokerZenoh_subscriber_def BrokerZenoh_resource_def BrokerZenoh_publisher_def
  BrokerZenoh_publish_def zn_ask_def

section \<open>Runs\<close>

text \<open>The operations the proxy calls, in any order with any arguments.\<close>

inductive broker_step :: "'cb Sub zenoh \<Rightarrow> 'cb BrokerZenoh \<Rightarrow> 'cb BrokerZenoh \<Rightarrow> bool" for z where
  connect: "BrokerZenoh_connect z client s = (rc, s') \<Longrightarrow> broker_step z s s'"
| disconnect: "BrokerZenoh_disconnect s = (rc, s') \<Longrightarrow> broker_step z s s'"
| subscriber: "BrokerZenoh_subscriber z i pattern callback s = (rc, s') \<Longrightarrow> broker_step z s s'"
| publisher: "BrokerZenoh_publisher z i key s = (rc, s') \<Longrightarrow> broker_step z s s'"
| publish: "BrokerZenoh_publish z i bs s = (rc, s') \<Longrightarrow> broker_step z s s'"

lemma broker_step_snd:
  "broker_step z s (snd (BrokerZenoh_connect z client s))"
  "broker_step z s (snd (BrokerZenoh_disconnect s))"
  "broker_step z s (snd (BrokerZenoh_subscriber z i pattern callback s))"
  "broker_step z s (snd (BrokerZenoh_publisher z i key s))"
  "broker_step z s (snd (BrokerZenoh_publish z i bs s))"
  by (meson broker_step.intros surjective_pairing)+

definition broker_ok :: "'cb BrokerZenoh \<Rightarrow> bool" where
  "broker_ok s \<longleftrightarrow> distinct (map fst (subscribers s)) \<and> distinct (map fst (publishers s)) \<and>
     list_all (\<lambda>(i, sub). sub_id sub = i \<and> zn_subscriber sub \<noteq> 0) (subscribers s) \<and>
     list_all (\<lambda>(i, pub). pub_id pub = i) (publishers s) \<and>
     list_all (\<lambda>h. h \<noteq> 0) (undeclared_subscribers (zn_calls s))"

lemma broker_ok_step:
  assumes "broker_step z s s'" "broker_ok s"
  shows "broker_ok s'"
  using assms(1)
proof cases
  case (disconnect rc)
  with assms(2) show ?thesis
    by (auto simp: broker_ok_def broker_defs list_all_iff split: prod.splits)
qed (use assms(2) in \<open>auto simp: broker_ok_def broker_defs um_emplace_def map_of_eq_None_iff Let_def
    split: option.splits if_splits\<close>)

lemma broker_ok_run: "(broker_step z)\<^sup>*\<^sup>* s s' \<Longrightarrow> broker_ok s \<Longrightarrow> broker_ok s'"
  by (induction rule: rtranclp_induct) (auto intro: broker_ok_step)

lemma broker_ok_new [simp]: "broker_ok BrokerZenoh_new"
  by (simp add: broker_ok_def BrokerZenoh_new_def)

section \<open>The tables are handle registries\<close>

definition subscriber_registry :: "'cb Sub zenoh \<Rightarrow> 'cb BrokerZenoh \<Rightarrow> (c_int, u64) registry" where
  "subscriber_registry z s = (map (\<lambda>(i, sub). (i, zn_subscriber sub)) (subscribers s),
     declared_subscribers z (zn_calls s), undeclared_subscribers (zn_calls s))"

definition publisher_registry :: "'cb Sub zenoh \<Rightarrow> 'cb BrokerZenoh \<Rightarrow> (c_int, u64) registry" where
  "publisher_registry z s = (map (\<lambda>(i, pub). (i, zn_publisher pub)) (publishers s),
     declared_publishers z (zn_calls s), undeclared_publishers (zn_calls s))"

lemma map_of_map_pair: "map_of (map (\<lambda>(i, x). (i, f x)) xs) k = map_option f (map_of xs k)"
  by (induction xs) auto

lemma subscriber_simulates:
  assumes "broker_step z s s'"
  shows "subscriber_registry z s' = subscriber_registry z s \<or>
    registry_step (subscriber_registry z s) (subscriber_registry z s')"
  using assms
proof cases
  case (disconnect rc)
  then have "subscriber_registry z s' = ([], declared_subscribers z (zn_calls s),
      undeclared_subscribers (zn_calls s) @ map snd (fst (subscriber_registry z s)))"
    by (auto simp: subscriber_registry_def BrokerZenoh_disconnect_def case_prod_beta comp_def list_all_iff ball_Un)
  then show ?thesis
    using registry_step.clear by (metis subscriber_registry_def fst_conv)
next
  case (subscriber i pattern callback rc)
  then show ?thesis
    by (auto simp: subscriber_registry_def broker_defs declared_subscribers_def um_emplace_def
        map_of_map_pair registry_step.add Let_def split: option.splits if_splits)
qed (auto simp: subscriber_registry_def broker_defs declared_subscribers_def Let_def
    split: option.splits if_splits)

lemma publisher_simulates:
  assumes "broker_step z s s'"
  shows "publisher_registry z s' = publisher_registry z s \<or>
    registry_step (publisher_registry z s) (publisher_registry z s')"
  using assms
proof cases
  case (disconnect rc)
  then have "publisher_registry z s' = ([], declared_publishers z (zn_calls s),
      undeclared_publishers (zn_calls s) @ map snd (fst (publisher_registry z s)))"
    by (auto simp: publisher_registry_def BrokerZenoh_disconnect_def case_prod_beta comp_def list_all_iff ball_Un)
  then show ?thesis
    using registry_step.clear by (metis publisher_registry_def fst_conv)
next
  case (publisher i key rc)
  then show ?thesis
    by (auto simp: publisher_registry_def broker_defs declared_publishers_def um_emplace_def
        map_of_map_pair registry_step.add Let_def split: option.splits if_splits)
qed (auto simp: publisher_registry_def broker_defs declared_publishers_def Let_def
    split: option.splits if_splits)

interpretation subs: handle_registry "subscriber_registry z" "broker_step z" for z
  by unfold_locales (rule subscriber_simulates)

interpretation pubs: handle_registry "publisher_registry z" "broker_step z" for z
  by unfold_locales (rule publisher_simulates)

section \<open>Accounting\<close>

lemma broker_accounts:
  assumes "(broker_step z)\<^sup>*\<^sup>* BrokerZenoh_new s"
  shows "mset (declared_subscribers z (zn_calls s)) =
      mset (undeclared_subscribers (zn_calls s)) + mset (map (zn_subscriber \<circ> snd) (subscribers s)) \<and>
    mset (declared_publishers z (zn_calls s)) =
      mset (undeclared_publishers (zn_calls s)) + mset (map (zn_publisher \<circ> snd) (publishers s)) \<and>
    0 \<notin> set (undeclared_subscribers (zn_calls s))"
proof -
  have new: "subscriber_registry z BrokerZenoh_new = ([], [], [])" "publisher_registry z BrokerZenoh_new = ([], [], [])"
    by (simp_all add: subscriber_registry_def publisher_registry_def BrokerZenoh_new_def
        declared_subscribers_def declared_publishers_def)
  show ?thesis
    using subs.accounting(1) [OF assms new(1) subscriber_registry_def]
      pubs.accounting(1) [OF assms new(2) publisher_registry_def]
      broker_ok_run [OF assms broker_ok_new]
    by (auto simp: broker_ok_def list_all_iff comp_def case_prod_beta)
qed

section \<open>Properties\<close>

text \<open>A library that never fails and numbers its handles, and a run with it.\<close>

definition numbering_zenoh :: "'a zenoh" where
  "numbering_zenoh = \<lparr>zn_open = \<lambda>_. 1, zn_declare_subscriber = \<lambda>cs. of_nat (length cs),
     zn_declare_resource = \<lambda>cs. of_nat (length cs), zn_declare_publisher = \<lambda>cs. of_nat (length cs),
     zn_write = \<lambda>_. 0\<rparr>"

definition busy_broker :: "unit BrokerZenoh" where
  "busy_broker =
     snd (BrokerZenoh_publisher numbering_zenoh 8 [0x62]
     (snd (BrokerZenoh_subscriber numbering_zenoh 7 [0x61] ()
     (snd (BrokerZenoh_connect numbering_zenoh [] BrokerZenoh_new)))))"

lemma broker_run_intros:
  assumes "(broker_step z)\<^sup>*\<^sup>* s s'"
  shows "(broker_step z)\<^sup>*\<^sup>* s (snd (BrokerZenoh_connect z client s'))"
    "(broker_step z)\<^sup>*\<^sup>* s (snd (BrokerZenoh_subscriber z i pattern cb s'))"
    "(broker_step z)\<^sup>*\<^sup>* s (snd (BrokerZenoh_publisher z i key s'))"
  by (rule rtranclp.rtrancl_into_rtrancl [OF assms], rule broker_step_snd)+

lemma busy_broker_run: "(broker_step numbering_zenoh)\<^sup>*\<^sup>* BrokerZenoh_new busy_broker"
  unfolding busy_broker_def by (intro broker_run_intros rtranclp.rtrancl_refl)

lemma busy_broker_eval:
  "busy_broker = \<lparr>zenoh_session = 1,
     subscribers = [(7, \<lparr>sub_id = 7, sub_key = [0x61], sub_callback = (), zn_subscriber = 2\<rparr>)],
     publishers = [(8, \<lparr>pub_id = 8, pub_key = [0x62], pub_reskey = Rid 3, zn_publisher = 4\<rparr>)],
     zn_calls = [ZnOpen,
       ZnDeclareSubscriber 1 (Rname [0x61]) \<lparr>sub_id = 7, sub_key = [0x61], sub_callback = (), zn_subscriber = 0\<rparr>,
       ZnDeclareResource 1 (Rname [0x62]), ZnDeclarePublisher 1 (Rid 3)]\<rparr>"
  by (simp add: busy_broker_def BrokerZenoh_new_def broker_defs numbering_zenoh_def um_emplace_def Let_def)



text \<open>
  No handle is undeclared twice, and none that is still in a table has been undeclared, as
  long as zenoh never hands out the same handle twice.
\<close>

theorem broker_undeclares_once:
  assumes "(broker_step z)\<^sup>*\<^sup>* BrokerZenoh_new s"
    and "distinct (declared_subscribers z (zn_calls s))" "distinct (declared_publishers z (zn_calls s))"
  shows "distinct (undeclared_subscribers (zn_calls s)) \<and> distinct (undeclared_publishers (zn_calls s)) \<and>
    set (undeclared_subscribers (zn_calls s)) \<inter> (zn_subscriber \<circ> snd) ` set (subscribers s) = {} \<and>
    set (undeclared_publishers (zn_calls s)) \<inter> (zn_publisher \<circ> snd) ` set (publishers s) = {}"
proof -
  have new: "subscriber_registry z BrokerZenoh_new = ([], [], [])" "publisher_registry z BrokerZenoh_new = ([], [], [])"
    by (simp_all add: subscriber_registry_def publisher_registry_def BrokerZenoh_new_def
        declared_subscribers_def declared_publishers_def)
  show ?thesis
    using subs.undeclared_once [OF assms(1) new(1) subscriber_registry_def assms(2)]
      pubs.undeclared_once [OF assms(1) new(2) publisher_registry_def assms(3)]
    by (simp add: image_image case_prod_beta)
qed

lemma broker_undeclares_once_witness:
  "distinct (undeclared_subscribers (zn_calls busy_broker)) \<and>
    distinct (undeclared_publishers (zn_calls busy_broker)) \<and>
    set (undeclared_subscribers (zn_calls busy_broker)) \<inter>
      (zn_subscriber \<circ> snd) ` set (subscribers busy_broker) = {} \<and>
    set (undeclared_publishers (zn_calls busy_broker)) \<inter>
      (zn_publisher \<circ> snd) ` set (publishers busy_broker) = {}"
  by (rule broker_undeclares_once [OF busy_broker_run])
    (simp_all add: busy_broker_eval declared_subscribers_def declared_publishers_def answers_def upt_rec
      numbering_zenoh_def)

text \<open>
  Disconnecting undeclares every subscriber and every publisher of the tables, in table
  order, empties both tables and leaves the session open.
\<close>

theorem broker_disconnect:
  "BrokerZenoh_disconnect s = (0, \<lparr>zenoh_session = zenoh_session s, subscribers = [], publishers = [],
     zn_calls = zn_calls s @ [ZnUndeclareSubscriber (zn_subscriber sub). (_, sub) \<leftarrow> subscribers s] @
       [ZnUndeclarePublisher (zn_publisher pub). (_, pub) \<leftarrow> publishers s]\<rparr>)"
  by (simp add: BrokerZenoh_disconnect_def Let_def case_prod_beta concat_map_singleton)

text \<open>
  Publishing on a registered identifier makes one write on the publisher's resource with
  the payload and returns zenoh's code; an unknown identifier is \<open>ENOENT\<close> and makes no call.
  After registering an identifier for the first time, publishing on it reaches the resource
  that zenoh declared for its key.
\<close>

theorem broker_publish:
  "(case map_of (publishers s) i of
      None \<Rightarrow> BrokerZenoh_publish z i bs s = (ENOENT, s) \<and>
        (\<exists>r p pub. r = zn_declare_resource z (zn_calls s @ [ZnDeclareResource (zenoh_session s) (Rname (c_string key))]) \<and>
          p = zn_calls s @ [ZnDeclareResource (zenoh_session s) (Rname (c_string key)),
            ZnDeclarePublisher (zenoh_session s) (Rid r), ZnWrite (zenoh_session s) (Rid r) bs] \<and>
          BrokerZenoh_publish z i bs (snd (BrokerZenoh_publisher z i key s)) =
            (zn_write z p, s\<lparr>publishers := publishers s @ [(i, pub)], zn_calls := p\<rparr>))
    | Some pub \<Rightarrow> BrokerZenoh_publish z i bs s =
        (let cs = zn_calls s @ [ZnWrite (zenoh_session s) (pub_reskey pub) bs]
         in (zn_write z cs, s\<lparr>zn_calls := cs\<rparr>)))"
  by (auto simp: broker_defs um_emplace_def map_add_def Let_def split: option.splits)

text \<open>
  Connecting is idempotent: a session is opened only when there is none, the result is 0
  exactly when a session exists afterwards, and a second connect after a success changes
  nothing.
\<close>

theorem broker_connect_idempotent:
  "BrokerZenoh_connect z client s = (rc, s') \<Longrightarrow>
    (rc = 0 \<longleftrightarrow> zenoh_session s' \<noteq> 0) \<and> (rc \<noteq> 0 \<longrightarrow> rc = - 1) \<and>
    zn_calls s' = zn_calls s @ (if zenoh_session s = 0 then [ZnOpen] else []) \<and>
    (rc = 0 \<longrightarrow> BrokerZenoh_connect z client' s' = (0, s'))"
  by (auto simp: broker_defs Let_def split: if_splits)

lemma broker_connect_idempotent_witness:
  "BrokerZenoh_connect numbering_zenoh [0x42]
      ((BrokerZenoh_new :: unit BrokerZenoh)\<lparr>zenoh_session := 1, zn_calls := [ZnOpen]\<rparr>) =
    (0, BrokerZenoh_new\<lparr>zenoh_session := 1, zn_calls := [ZnOpen]\<rparr>)"
  using broker_connect_idempotent [of numbering_zenoh "[0x41]" "BrokerZenoh_new :: unit BrokerZenoh" 0
      "BrokerZenoh_new\<lparr>zenoh_session := 1, zn_calls := [ZnOpen]\<rparr>" "[0x42]"]
  by (simp add: broker_defs BrokerZenoh_new_def numbering_zenoh_def)

text \<open>
  The first subscriber of an identifier is declared on the session under the pattern cut at
  its first zero byte and kept when zenoh declares it (\<open>-1\<close> and no entry otherwise); samples
  it receives reach the callback with that identifier. A later subscriber of the same
  identifier is ignored with result 0, whatever its pattern and callback.
\<close>

theorem broker_subscriber_once:
  assumes "map_of (subscribers s) i = None"
    and "sub = \<lparr>sub_id = i, sub_key = pattern, sub_callback = cb, zn_subscriber = 0\<rparr>"
    and "cs = zn_calls s @ [ZnDeclareSubscriber (zenoh_session s) (Rname (c_string pattern)) sub]"
    and "h = zn_declare_subscriber z cs"
  shows "subscribeHandler v sub t = cb i v t \<and>
    (if h = 0 then BrokerZenoh_subscriber z i pattern cb s = (- 1, s\<lparr>zn_calls := cs\<rparr>)
     else \<exists>s'. BrokerZenoh_subscriber z i pattern cb s = (0, s') \<and>
       s' = s\<lparr>zn_calls := cs, subscribers := subscribers s @ [(i, sub\<lparr>zn_subscriber := h\<rparr>)]\<rparr> \<and>
       BrokerZenoh_subscriber z i pattern' cb' s' = (0, s'))"
  using assms
  by (auto simp: broker_defs subscribeHandler_def um_emplace_def map_add_def Let_def split: option.splits)

lemma broker_subscriber_once_witness:
  "\<exists>s'. BrokerZenoh_subscriber numbering_zenoh 5 [0x61, 0, 0x62] (\<lambda>(i :: c_int) (v :: bytes) t. Inr (t + length v)) BrokerZenoh_new =
      (0, s') \<and> map fst (subscribers s') = [5] \<and>
    BrokerZenoh_subscriber numbering_zenoh 5 [0x63] (\<lambda>i v t. (Inr t :: nat outcome)) s' = (0, s')"
  using broker_subscriber_once [where s = BrokerZenoh_new and i = 5 and z = numbering_zenoh and
      pattern = "[0x61, 0, 0x62]" and cb = "\<lambda>i v t. Inr (t + length v)" and
      pattern' = "[0x63]" and cb' = "\<lambda>i v t. Inr (t :: nat)" and v = "[1, 2]" and t = 0,
      OF _ refl refl refl]
  by (auto simp: BrokerZenoh_new_def numbering_zenoh_def)

text \<open>
  \<open>unSubscribe\<close> undeclares a subscriber but keeps its entry, so a new subscription of the
  identifier is ignored and the next disconnect undeclares the same handle again.
\<close>

theorem broker_unsubscribe_keeps_entry:
  assumes "map_of (subscribers s) i = Some sub" and "BrokerZenoh_unSubscribe i s = (rc, s')"
  shows "rc = 0 \<and> subscribers s' = subscribers s \<and> BrokerZenoh_subscriber z i pattern cb s' = (0, s') \<and>
    2 \<le> count_list (zn_calls (snd (BrokerZenoh_disconnect s'))) (ZnUndeclareSubscriber (zn_subscriber sub))"
proof -
  let ?U = "ZnUndeclareSubscriber (zn_subscriber sub) :: 'a Sub zn_call"
  have s': "rc = 0" "s' = s\<lparr>zn_calls := zn_calls s @ [?U]\<rparr>"
    using assms by (simp_all add: BrokerZenoh_unSubscribe_def)
  have "?U \<in> set (map (\<lambda>tuple. ZnUndeclareSubscriber (zn_subscriber (snd tuple))) (subscribers s))"
    using map_of_SomeD [OF assms(1)] by force
  then have "1 \<le> count_list (map (\<lambda>tuple. ZnUndeclareSubscriber (zn_subscriber (snd tuple))) (subscribers s)) ?U"
    using count_list_0_iff [of _ ?U] by (meson less_one not_le)
  then show ?thesis
    using assms(1) s' by (simp add: BrokerZenoh_disconnect_def BrokerZenoh_subscriber_def)
qed

lemma broker_unsubscribe_keeps_entry_witness:
  "0 = (0 :: c_int) \<and> subscribers (busy_broker\<lparr>zn_calls := zn_calls busy_broker @ [ZnUndeclareSubscriber 2]\<rparr>) = subscribers busy_broker \<and>
    BrokerZenoh_subscriber numbering_zenoh 7 [0x63] () (busy_broker\<lparr>zn_calls := zn_calls busy_broker @ [ZnUndeclareSubscriber 2]\<rparr>) =
      (0, busy_broker\<lparr>zn_calls := zn_calls busy_broker @ [ZnUndeclareSubscriber 2]\<rparr>) \<and>
    2 \<le> count_list (zn_calls (snd (BrokerZenoh_disconnect
        (busy_broker\<lparr>zn_calls := zn_calls busy_broker @ [ZnUndeclareSubscriber 2]\<rparr>))))
      (ZnUndeclareSubscriber (zn_subscriber \<lparr>sub_id = 7, sub_key = [0x61], sub_callback = (), zn_subscriber = 2\<rparr>))"
  by (rule broker_unsubscribe_keeps_entry) (simp_all add: busy_broker_eval BrokerZenoh_unSubscribe_def)

end
