(* ===== verification/Framing.thy ===== *)
theory Framing
  imports Ppp_Frame
begin

text \<open>
  What a byte-stream framer promises. Three classes of the repository collect received
  bytes up to a flag, hand the collected bytes to \<open>ppp_deframe\<close> and drop a partial frame
  when no flag has been seen for a while: \<open>FrameExtractor\<close> (\<open>common/Frame.cpp\<close>),
  \<open>BytesToFrame\<close> (\<open>zenoh-arduino/src/BrokerSerial.h\<close>) and the client side
  \<open>handleRxd\<close> (\<open>src_client/unix_serial.cpp\<close>). Their common contract is an abstract machine
  over the pending bytes, the time of the last flag and whatever the frames are turned
  into; the locale \<open>framer\<close> states that a class implements it, and carries the lemmas
  about streams of frames over to the class.
\<close>

section \<open>The abstract framer\<close>

text \<open>
  \<open>deliver\<close> is what an accepted payload does to the client state, \<open>refuse\<close> what refused bytes do,
  \<open>expire\<close> what happens on a timeout (given the chunk and the pending bytes).
\<close>

fun framer_byte :: "(bytes \<Rightarrow> 'a \<Rightarrow> 'a outcome) \<Rightarrow> (bytes \<Rightarrow> 'a \<Rightarrow> 'a outcome) \<Rightarrow> u64 \<Rightarrow> byte \<Rightarrow>
    bytes \<times> u64 \<times> 'a \<Rightarrow> (bytes \<times> u64 \<times> 'a) outcome" where
  "framer_byte deliver refuse t b (pend, l, a) =
     (if b \<noteq> PPP_FLAG_CHAR then Inr (pend @ [b], l, a)
      else if pend = [] then Inr ([], t, a)
      else seq (ppp_deframe pend) (\<lambda>(ok, p).
        seq (if ok then deliver p a else refuse pend a) (\<lambda>a. Inr ([], t, a))))"

fun framer_end :: "(bytes \<Rightarrow> bytes \<Rightarrow> 'a \<Rightarrow> 'a outcome) \<Rightarrow> u64 \<Rightarrow> u64 \<Rightarrow> bytes \<Rightarrow>
    bytes \<times> u64 \<times> 'a \<Rightarrow> (bytes \<times> u64 \<times> 'a) outcome" where
  "framer_end expire T t bs (pend, l, a) =
     (if t - l > T then seq (expire bs pend a) (\<lambda>a. Inr ([], l, a)) else Inr (pend, l, a))"

definition framer_chunk where
  "framer_chunk deliver refuse expire T clk bs st =
     seq (for_each (\<lambda>i. framer_byte deliver refuse (clk i)) 0 bs st)
         (framer_end expire T (clk (length bs)) bs)"

text \<open>
  A run over the chunks a serial port delivers. The clock of a chunk gives the reading of
  \<open>Sys::millis()\<close> taken at the byte of each position and, last, after the loop.
\<close>

type_synonym chunk = "(nat \<Rightarrow> u64) \<times> bytes"

fun run_chunks :: "((nat \<Rightarrow> u64) \<Rightarrow> bytes \<Rightarrow> 's \<Rightarrow> 's outcome) \<Rightarrow> chunk list \<Rightarrow> 's \<Rightarrow> 's outcome" where
  "run_chunks h [] s = Inr s"
| "run_chunks h ((clk, bs) # cs) s = seq (h clk bs s) (run_chunks h cs)"

lemma run_chunks_Nil [simp]: "run_chunks h [] = Inr"
  by (rule ext) simp

lemma run_chunks_append: "run_chunks f (xs @ ys) s = seq (run_chunks f xs s) (run_chunks f ys)"
proof (induction xs arbitrary: s)
  case (Cons c xs)
  then show ?case by (cases c; cases "f (fst c) (snd c) s") auto
qed simp

text \<open>The time of the last flag after a chunk, and runs in which no timeout fires.\<close>

fun last_flag :: "(nat \<Rightarrow> u64) \<Rightarrow> nat \<Rightarrow> bytes \<Rightarrow> u64 \<Rightarrow> u64" where
  "last_flag clk i [] l = l"
| "last_flag clk i (b # bs) l = last_flag clk (Suc i) bs (if b = PPP_FLAG_CHAR then clk i else l)"

fun timely :: "u64 \<Rightarrow> chunk list \<Rightarrow> u64 \<Rightarrow> bool" where
  "timely T [] l = True"
| "timely T ((clk, bs) # cs) l =
     (let l' = last_flag clk 0 bs l in clk (length bs) - l' \<le> T \<and> timely T cs l')"

lemma last_flag_constant: "last_flag (\<lambda>_. t) i bs l = (if PPP_FLAG_CHAR \<in> set bs then t else l)"
  by (induction bs arbitrary: i l) auto

lemma timely_constant: "PPP_FLAG_CHAR \<in> set bs \<Longrightarrow> timely T [(\<lambda>_. t, bs)] l"
  by (simp add: last_flag_constant)

section \<open>The stream without time\<close>

fun stream_byte :: "(bytes \<Rightarrow> 'a \<Rightarrow> 'a outcome) \<Rightarrow> (bytes \<Rightarrow> 'a \<Rightarrow> 'a outcome) \<Rightarrow> byte \<Rightarrow> bytes \<times> 'a \<Rightarrow> (bytes \<times> 'a) outcome" where
  "stream_byte deliver refuse b (pend, a) =
     (if b \<noteq> PPP_FLAG_CHAR then Inr (pend @ [b], a)
      else if pend = [] then Inr ([], a)
      else seq (ppp_deframe pend) (\<lambda>(ok, p).
        seq (if ok then deliver p a else refuse pend a) (\<lambda>a. Inr ([], a))))"

fun stream_bytes :: "(bytes \<Rightarrow> 'a \<Rightarrow> 'a outcome) \<Rightarrow> (bytes \<Rightarrow> 'a \<Rightarrow> 'a outcome) \<Rightarrow> bytes \<Rightarrow> bytes \<times> 'a \<Rightarrow>
    (bytes \<times> 'a) outcome" where
  "stream_bytes deliver refuse [] st = Inr st"
| "stream_bytes deliver refuse (b # bs) st =
     seq (stream_byte deliver refuse b st) (stream_bytes deliver refuse bs)"

declare stream_byte.simps [simp del] framer_byte.simps [simp del]

lemma stream_bytes_Nil [simp]: "stream_bytes deliver refuse [] = Inr"
  by (rule ext) simp

lemma stream_bytes_append [framing]:
  "stream_bytes deliver refuse (xs @ ys) st =
     seq (stream_bytes deliver refuse xs st) (stream_bytes deliver refuse ys)"
proof (induction xs arbitrary: st)
  case (Cons x xs)
  then show ?case by (cases "stream_byte deliver refuse x st") simp_all
qed simp

abbreviation untimed :: "bytes \<times> u64 \<times> 'a \<Rightarrow> bytes \<times> 'a" where
  "untimed \<equiv> \<lambda>(pend, l, a). (pend, a)"

lemma seq_map_sum:
  "map_sum id g (seq m k) = seq m (\<lambda>x. map_sum id g (k x))"
  by (cases m) auto

lemma framer_byte_untimed:
  "map_sum id untimed (framer_byte deliver refuse t b st) = stream_byte deliver refuse b (untimed st)"
  by (cases st; cases "ppp_deframe (fst st)")
    (auto simp: framer_byte.simps stream_byte.simps seq_map_sum split: prod.splits)

lemma framer_loop_untimed:
  "map_sum id untimed (for_each (\<lambda>i. framer_byte deliver refuse (clk i)) i bs st) =
     stream_bytes deliver refuse bs (untimed st)"
proof (induction bs arbitrary: i st)
  case Nil
  then show ?case by simp
next
  case (Cons b bs)
  show ?case
    using framer_byte_untimed [of deliver refuse "clk i" b st, symmetric] Cons.IH
    by (cases "framer_byte deliver refuse (clk i) b st") auto
qed

lemma framer_byte_last:
  "framer_byte deliver refuse t b (pend, l, a) = Inr (pend', l', a') \<Longrightarrow>
     l' = (if b = PPP_FLAG_CHAR then t else l)"
  by (auto simp: framer_byte.simps seq_eq_Inr_iff split: if_splits)

lemma framer_loop_last:
  "for_each (\<lambda>i. framer_byte deliver refuse (clk i)) i bs (pend, l, a) = Inr (pend', l', a') \<Longrightarrow>
     l' = last_flag clk i bs l"
proof (induction bs arbitrary: i pend l a)
  case Nil
  then show ?case by simp
next
  case (Cons b bs)
  from Cons.prems obtain q m c where
    st: "framer_byte deliver refuse (clk i) b (pend, l, a) = Inr (q, m, c)" and
    rest: "for_each (\<lambda>i. framer_byte deliver refuse (clk i)) (Suc i) bs (q, m, c) = Inr (pend', l', a')"
    by (auto simp only: for_each.simps seq_eq_Inr_iff split_paired_Ex)
  show ?case
    using Cons.IH [OF rest] framer_byte_last [OF st] by simp
qed

text \<open>Without timeouts the division into chunks is irrelevant.\<close>

lemma run_chunks_untimed:
  "timely T cs (fst (snd st)) \<Longrightarrow>
   map_sum id untimed (run_chunks (framer_chunk deliver refuse expire T) cs st) =
     stream_bytes deliver refuse (concat (map snd cs)) (untimed st)"
proof (induction cs arbitrary: st)
  case Nil
  then show ?case by simp
next
  case (Cons c cs)
  obtain clk bs where c: "c = (clk, bs)" by fastforce
  obtain pend l a where st: "st = (pend, l, a)" by (cases st)
  let ?loop = "for_each (\<lambda>i. framer_byte deliver refuse (clk i)) 0 bs (pend, l, a)"
  note loop = framer_loop_untimed [of deliver refuse clk 0 bs "(pend, l, a)"]
  show ?case
  proof (cases ?loop)
    case (Inl e)
    then show ?thesis
      using loop [symmetric] by (simp add: c st framer_chunk_def stream_bytes_append)
  next
    case (Inr st')
    obtain pend' l' a' where st': "st' = (pend', l', a')" by (cases st')
    have l': "l' = last_flag clk 0 bs l"
      by (rule framer_loop_last [OF Inr [unfolded st']])
    with Cons.prems have no: "\<not> clk (length bs) - l' > T" "timely T cs l'"
      by (simp_all add: c st Let_def not_less)
    have "stream_bytes deliver refuse bs (pend, a) = Inr (pend', a')"
      using loop Inr st' by simp
    then show ?thesis
      using Inr no Cons.IH [of st'] by (simp add: c st st' framer_chunk_def stream_bytes_append)
  qed
qed

section \<open>Streams of frames\<close>

lemma stream_plain:
  "PPP_FLAG_CHAR \<notin> set bs \<Longrightarrow> stream_bytes deliver refuse bs (pend, a) = Inr (pend @ bs, a)"
  by (induction bs arbitrary: pend) (auto simp: stream_byte.simps)

text \<open>What a list of payloads does to the client.\<close>

fun deliver_all :: "(bytes \<Rightarrow> 'a \<Rightarrow> 'a outcome) \<Rightarrow> bytes list \<Rightarrow> 'a \<Rightarrow> 'a outcome" where
  "deliver_all deliver [] a = Inr a"
| "deliver_all deliver (p # ps) a = seq (deliver p a) (deliver_all deliver ps)"

text \<open>What the opening flag of the next frame does to pending bytes.\<close>

definition flush :: "(bytes \<Rightarrow> 'a \<Rightarrow> 'a outcome) \<Rightarrow> (bytes \<Rightarrow> 'a \<Rightarrow> 'a outcome) \<Rightarrow> bytes \<Rightarrow> 'a \<Rightarrow> 'a outcome" where
  "flush deliver refuse pend a =
     (if pend = [] then Inr a
      else seq (ppp_deframe pend) (\<lambda>(ok, p). if ok then deliver p a else refuse pend a))"

lemma flush_Nil [simp]: "flush deliver refuse [] a = Inr a"
  by (simp add: flush_def)

lemma stream_flag:
  "stream_byte deliver refuse PPP_FLAG_CHAR (pend, a) = seq (flush deliver refuse pend a) (\<lambda>a. Inr ([], a))"
  by (cases "ppp_deframe pend") (auto simp: flush_def stream_byte.simps split: prod.splits)

lemma stream_frame [framing]:
  assumes "p \<noteq> []"
  shows "stream_bytes deliver refuse (ppp_frame p) (pend, a) =
    seq (flush deliver refuse pend a) (\<lambda>a. seq (deliver p a) (\<lambda>a. Inr ([], a)))"
proof -
  have "frame_body p \<noteq> []"
    using length_frame_body [of p] by auto
  then have "stream_bytes deliver refuse (frame_body p @ [PPP_FLAG_CHAR]) ([], b) =
      seq (deliver p b) (\<lambda>a. Inr ([], a))" for b
    using deframe_frame_body [OF assms]
    by (simp add: framing stream_plain flag_not_in_body stream_flag flush_def)
  then show ?thesis
    by (simp add: ppp_frame_body stream_flag fault_simps)
qed

lemma stream_frames:
  "\<forall>p \<in> set ps. p \<noteq> [] \<Longrightarrow> stream_bytes deliver refuse (concat (map ppp_frame ps)) ([], a) =
    seq (deliver_all deliver ps a) (\<lambda>a. Inr ([], a))"
proof (induction ps arbitrary: a)
  case (Cons p ps)
  then show ?case by (cases "deliver p a") (simp_all add: framing)
qed simp

lemma stream_noise_frames:
  assumes "ps \<noteq> []" "\<forall>p \<in> set ps. p \<noteq> []" "PPP_FLAG_CHAR \<notin> set g"
    and "flush deliver refuse (pend @ g) a = Inr b"
  shows "stream_bytes deliver refuse (g @ concat (map ppp_frame ps)) (pend, a) =
    seq (deliver_all deliver ps b) (\<lambda>a. Inr ([], a))"
proof (cases ps)
  case (Cons p qs)
  then show ?thesis
    using assms by (cases "deliver p b") (simp_all add: framing stream_plain stream_frames)
qed (use assms in simp)

section \<open>The contract of a framer class\<close>

locale framer =
  fixes handleRxd :: "(nat \<Rightarrow> u64) \<Rightarrow> bytes \<Rightarrow> 's \<Rightarrow> 's outcome"
    and obs :: "'s \<Rightarrow> bytes \<times> u64 \<times> 'a"
    and deliver :: "bytes \<Rightarrow> 'a \<Rightarrow> 'a outcome"
    and refuse :: "bytes \<Rightarrow> 'a \<Rightarrow> 'a outcome"
    and expire :: "bytes \<Rightarrow> bytes \<Rightarrow> 'a \<Rightarrow> 'a outcome"
    and T :: u64
  assumes refines: "map_sum id obs (handleRxd clk bs s) = framer_chunk deliver refuse expire T clk bs (obs s)"
begin

lemma run_refines:
  "map_sum id obs (run_chunks handleRxd cs s) = run_chunks (framer_chunk deliver refuse expire T) cs (obs s)"
proof (induction cs arbitrary: s)
  case Nil
  then show ?case by simp
next
  case (Cons c cs)
  obtain clk bs where c: "c = (clk, bs)" by fastforce
  show ?case
    using refines [of clk bs s, symmetric] Cons.IH
    by (cases "handleRxd clk bs s") (auto simp: c)
qed

lemma run_stream:
  assumes "timely T cs (fst (snd (obs s)))"
  shows "map_sum id (untimed \<circ> obs) (run_chunks handleRxd cs s) =
    stream_bytes deliver refuse (concat (map snd cs)) (untimed (obs s))"
proof -
  have "map_sum id (untimed \<circ> obs) (run_chunks handleRxd cs s) =
      map_sum id untimed (map_sum id obs (run_chunks handleRxd cs s))"
    by (cases "run_chunks handleRxd cs s") auto
  then show ?thesis
    using run_chunks_untimed [OF assms] by (simp add: run_refines)
qed

lemma run_ok:
  assumes "timely T cs (fst (snd (obs s)))"
    and "stream_bytes deliver refuse (concat (map snd cs)) (untimed (obs s)) = Inr (pend, a)"
  obtains s' l where "run_chunks handleRxd cs s = Inr s'" "obs s' = (pend, l, a)"
  using run_stream [OF assms(1)] assms(2)
  by (cases "run_chunks handleRxd cs s") (auto split: prod.splits)

lemma delivers:
  assumes "timely T cs l" "obs s = ([], l, a)" "\<forall>p \<in> set ps. p \<noteq> []"
    and "concat (map snd cs) = concat (map ppp_frame ps)" "deliver_all deliver ps a = Inr c"
  obtains s' l' where "run_chunks handleRxd cs s = Inr s'" "obs s' = ([], l', c)"
  using assms run_ok [of cs s "[]" c] by (auto simp: stream_frames)

text \<open>A fault that a stream of frames causes in the client is a fault of the run.\<close>

lemma faults:
  assumes "timely T cs (fst (snd (obs s)))"
    and "stream_bytes deliver refuse (concat (map snd cs)) (untimed (obs s)) = Inl e"
  shows "run_chunks handleRxd cs s = Inl e"
  using run_stream [OF assms(1)] assms(2) by (cases "run_chunks handleRxd cs s") auto

lemma resyncs:
  assumes "timely T cs l" "obs s = (pend, l, a)" "ps \<noteq> []" "\<forall>p \<in> set ps. p \<noteq> []"
    and "PPP_FLAG_CHAR \<notin> set g" "flush deliver refuse (pend @ g) a = Inr b"
    and "concat (map snd cs) = g @ concat (map ppp_frame ps)" "deliver_all deliver ps b = Inr c"
  obtains s' l' where "run_chunks handleRxd cs s = Inr s'" "obs s' = ([], l', c)"
  using assms run_ok [of cs s "[]" c] by (auto simp: stream_noise_frames)

lemma rechunk:
  assumes "timely T cs (fst (snd (obs s)))" "timely T ds (fst (snd (obs s)))"
    and "concat (map snd cs) = concat (map snd ds)"
  shows "map_sum id (untimed \<circ> obs) (run_chunks handleRxd cs s) =
    map_sum id (untimed \<circ> obs) (run_chunks handleRxd ds s)"
  using assms by (simp only: run_stream)

end

end
