(* ===== verification/Frame_Extractor.thy ===== *)
theory Frame_Extractor
  imports Framing
begin

text \<open>
  The class \<open>FrameExtractor\<close> and the flow \<open>FrameToBytes\<close> of \<open>common/Frame.h\<close> and
  \<open>common/Frame.cpp\<close>: the host side of the serial line. The record's \<open>outputs\<close> lists, in
  order, the frames the class emits to its subscribers and the bytes it writes to the
  standard output. \<open>Sys::millis()\<close> is the clock of the chunk (theory \<open>Framing\<close>);
  \<open>_frameTimeout\<close> is never assigned and is a constant; \<open>_lastFrameFlag\<close> is not
  initialised by the constructor, so a fresh extractor starts from an arbitrary value.
\<close>

section \<open>State and operations\<close>

datatype frame_output = Emit bytes | Stdout bytes

record FrameExtractor =
  inputFrame :: bytes
  cleanData :: bytes
  lastFrameFlag :: u64
  outputs :: "frame_output list"

definition FrameExtractor_frameTimeout :: u32 where
  "FrameExtractor_frameTimeout = 1000"

definition FrameExtractor_new :: "u64 \<Rightarrow> FrameExtractor" where
  "FrameExtractor_new garbage =
     \<lparr>inputFrame = [], cleanData = [], lastFrameFlag = garbage, outputs = []\<rparr>"

definition emit :: "bytes \<Rightarrow> FrameExtractor \<Rightarrow> FrameExtractor" where
  "emit bs s = s\<lparr>outputs := outputs s @ [Emit bs]\<rparr>"

text \<open>The bytes are written between the terminal escape sequences for green and default.\<close>

definition green :: bytes where "green = [0x1B, 0x5B, 0x33, 0x32, 0x6D]"
definition default_colour :: bytes where "default_colour = [0x1B, 0x5B, 0x33, 0x39, 0x6D]"

definition toStdout :: "bytes \<Rightarrow> FrameExtractor \<Rightarrow> FrameExtractor" where
  "toStdout bs s =
     (if bs \<noteq> [] then s\<lparr>outputs := outputs s @ [Stdout green, Stdout bs, Stdout default_colour]\<rparr> else s)"

definition handleFrame :: "bytes \<Rightarrow> FrameExtractor \<Rightarrow> (bool \<times> FrameExtractor) outcome" where
  "handleFrame bs s =
     (if bs = [] then Inr (False, s)
      else seq (ppp_deframe bs) (\<lambda>(ok, clean).
        let s = s\<lparr>cleanData := clean\<rparr> in
        if ok then Inr (True, emit (cleanData s) s) else Inr (False, toStdout bs s)))"

definition rxd_byte :: "u64 \<Rightarrow> byte \<Rightarrow> FrameExtractor \<Rightarrow> FrameExtractor outcome" where
  "rxd_byte millis b s =
     (if b = PPP_FLAG_CHAR then
        let s = s\<lparr>lastFrameFlag := millis\<rparr> in
        seq (handleFrame (inputFrame s) s) (\<lambda>(_, s). Inr (s\<lparr>inputFrame := []\<rparr>))
      else Inr (s\<lparr>inputFrame := inputFrame s @ [b]\<rparr>))"

definition handleRxd :: "(nat \<Rightarrow> u64) \<Rightarrow> bytes \<Rightarrow> FrameExtractor \<Rightarrow> FrameExtractor outcome" where
  "handleRxd millis bs s =
     seq (for_each (\<lambda>i. rxd_byte (millis i)) 0 bs s) (\<lambda>s.
       if millis (length bs) - lastFrameFlag s > ucast FrameExtractor_frameTimeout
       then Inr ((toStdout (inputFrame s) s)\<lparr>inputFrame := []\<rparr>)
       else Inr s)"

definition FrameExtractor_on :: "(nat \<Rightarrow> u64) \<Rightarrow> bytes \<Rightarrow> FrameExtractor \<Rightarrow> FrameExtractor outcome" where
  "FrameExtractor_on = handleRxd"

text \<open>\<open>FrameToBytes\<close> passes on the frame of every payload.\<close>

definition FrameToBytes_on :: "bytes \<Rightarrow> bytes option" where
  "FrameToBytes_on inp = Some (ppp_frame inp)"

section \<open>The extractor implements the abstract framer\<close>

definition extractor_obs :: "FrameExtractor \<Rightarrow> bytes \<times> u64 \<times> frame_output list" where
  "extractor_obs s = (inputFrame s, lastFrameFlag s, outputs s)"

definition deliver_frame :: "bytes \<Rightarrow> frame_output list \<Rightarrow> frame_output list outcome" where
  "deliver_frame p out = Inr (out @ [Emit p])"

definition print_bytes :: "bytes \<Rightarrow> frame_output list \<Rightarrow> frame_output list outcome" where
  "print_bytes bs out =
     Inr (if bs \<noteq> [] then out @ [Stdout green, Stdout bs, Stdout default_colour] else out)"

lemmas extractor_defs = extractor_obs_def deliver_frame_def print_bytes_def emit_def toStdout_def
  handleFrame_def rxd_byte_def

lemma deliver_all_frames: "deliver_all deliver_frame ps out = Inr (out @ map Emit ps)"
  by (induction ps arbitrary: out) (simp_all add: deliver_frame_def)

lemma rxd_byte_refines:
  "map_sum id extractor_obs (rxd_byte t b s) =
     framer_byte deliver_frame print_bytes t b (extractor_obs s)"
  by (cases "ppp_deframe (inputFrame s)")
    (auto simp: extractor_defs framer_byte.simps Let_def split: prod.splits)

lemma rxd_loop_refines:
  "map_sum id extractor_obs (for_each (\<lambda>i. rxd_byte (clk i)) i bs s) =
     for_each (\<lambda>i. framer_byte deliver_frame print_bytes (clk i)) i bs (extractor_obs s)"
proof (induction bs arbitrary: i s)
  case (Cons b bs)
  then show ?case
    using rxd_byte_refines [of "clk i" b s, symmetric]
    by (cases "rxd_byte (clk i) b s") auto
qed simp

interpretation host: framer handleRxd extractor_obs deliver_frame print_bytes
  "\<lambda>bs pend. print_bytes pend" "ucast FrameExtractor_frameTimeout"
proof unfold_locales
  fix clk bs s
  show "map_sum id extractor_obs (handleRxd clk bs s) =
    framer_chunk deliver_frame print_bytes (\<lambda>bs. print_bytes) (ucast FrameExtractor_frameTimeout)
      clk bs (extractor_obs s)"
    using rxd_loop_refines [of clk 0 bs s, symmetric]
    by (cases "for_each (\<lambda>i. rxd_byte (clk i)) 0 bs s")
      (auto simp: handleRxd_def framer_chunk_def extractor_obs_def print_bytes_def toStdout_def)
qed

section \<open>Streams of frames\<close>

lemma extractor_delivers:
  assumes "timely (ucast FrameExtractor_frameTimeout) cs (lastFrameFlag s)"
    and "inputFrame s = []" and "list_all (\<lambda>p. p \<noteq> []) ps"
    and "concat (map snd cs) = concat (map ppp_frame ps)"
  shows "\<exists>s'. run_chunks FrameExtractor_on cs s = Inr s' \<and> inputFrame s' = [] \<and>
    outputs s' = outputs s @ map Emit ps"
proof -
  have "extractor_obs s = ([], lastFrameFlag s, outputs s)"
    using assms(2) by (simp add: extractor_obs_def)
  with assms obtain s' l' where "run_chunks handleRxd cs s = Inr s'"
    "extractor_obs s' = ([], l', outputs s @ map Emit ps)"
    using host.delivers [of cs "lastFrameFlag s" s "outputs s" ps "outputs s @ map Emit ps"]
    by (auto simp: list_all_iff deliver_all_frames)
  then show ?thesis
    by (auto simp: FrameExtractor_on_def extractor_obs_def)
qed

section \<open>Properties\<close>

text \<open>
  C9: End-to-end delivery. Whatever way the bytes of a sequence of frames with nonempty
  payloads are cut into chunks, an extractor without pending bytes emits exactly the
  payloads, in order, and prints nothing, as long as no timeout fires.
\<close>

theorem extractor_delivers_frames:
  assumes "timely (ucast FrameExtractor_frameTimeout) cs (lastFrameFlag s)"
    and "inputFrame s = []" and "list_all (\<lambda>p. p \<noteq> []) ps"
    and "concat (map snd cs) = concat (map ppp_frame ps)"
  shows "\<exists>s'. run_chunks FrameExtractor_on cs s = Inr s' \<and> inputFrame s' = [] \<and>
    outputs s' = outputs s @ map Emit ps"
  using assms by (rule extractor_delivers)

lemma extractor_delivers_frames_witness:
  "\<exists>s'. run_chunks FrameExtractor_on
      [(\<lambda>_. 5000, [0x7E, 0x41]), (\<lambda>_. 5400, [0xF5, 0xA3, 0x7E])] (FrameExtractor_new 4500) = Inr s' \<and>
    inputFrame s' = [] \<and> outputs s' = outputs (FrameExtractor_new 4500) @ map Emit [[0x41]]"
  by (rule extractor_delivers_frames)
    (simp_all add: FrameExtractor_frameTimeout_def FrameExtractor_new_def ppp_frame_def fcs_eval
      ppp_chars addEscaped_def Let_def)

text \<open>
  Resynchronisation. Pending bytes and further noise without a flag are disposed of by
  the first flag (delivered if they happen to be a valid frame, printed otherwise), and
  every frame that follows is delivered, provided the decoder has no undefined behaviour on
  the noise and no timeout fires.
\<close>

theorem extractor_resyncs:
  assumes "timely (ucast FrameExtractor_frameTimeout) cs (lastFrameFlag s)"
    and "ps \<noteq> []" and "list_all (\<lambda>p. p \<noteq> []) ps" and "PPP_FLAG_CHAR \<notin> set noise"
    and "flush deliver_frame print_bytes (inputFrame s @ noise) (outputs s) = Inr out"
    and "concat (map snd cs) = noise @ concat (map ppp_frame ps)"
  shows "\<exists>s'. run_chunks FrameExtractor_on cs s = Inr s' \<and> inputFrame s' = [] \<and>
    outputs s' = out @ map Emit ps"
proof -
  have "extractor_obs s = (inputFrame s, lastFrameFlag s, outputs s)"
    by (simp add: extractor_obs_def)
  with assms obtain s' l' where "run_chunks handleRxd cs s = Inr s'"
    "extractor_obs s' = ([], l', out @ map Emit ps)"
    using host.resyncs [of cs "lastFrameFlag s" s "inputFrame s" "outputs s" ps noise out "out @ map Emit ps"]
    by (auto simp: list_all_iff deliver_all_frames)
  then show ?thesis
    by (auto simp: FrameExtractor_on_def extractor_obs_def)
qed

lemma extractor_resyncs_witness:
  "\<exists>s'. run_chunks FrameExtractor_on [(\<lambda>_. 100, [0x68, 0x69, 0x7E, 0x41, 0xF5, 0xA3, 0x7E])]
      (FrameExtractor_new 50) = Inr s' \<and>
    inputFrame s' = [] \<and>
    outputs s' = [Stdout green, Stdout [0x68, 0x69], Stdout default_colour] @ map Emit [[0x41]]"
  by (rule extractor_resyncs [where noise = "[0x68, 0x69]"])
    (simp_all add: FrameExtractor_frameTimeout_def FrameExtractor_new_def ppp_frame_def fcs_eval
      ppp_chars addEscaped_def Let_def flush_def ppp_deframe_def print_bytes_def)

text \<open>
  The division of the byte stream into chunks does not matter: two timely runs over the
  same bytes from the same state both fault, or end with the same pending bytes and the
  same outputs.
\<close>

theorem extractor_rechunk:
  assumes "timely (ucast FrameExtractor_frameTimeout) cs (lastFrameFlag s)"
    and "timely (ucast FrameExtractor_frameTimeout) ds (lastFrameFlag s)"
    and "concat (map snd cs) = concat (map snd ds)"
  shows "map_sum id (\<lambda>s. (inputFrame s, outputs s)) (run_chunks FrameExtractor_on cs s) =
    map_sum id (\<lambda>s. (inputFrame s, outputs s)) (run_chunks FrameExtractor_on ds s)"
proof -
  have "untimed \<circ> extractor_obs = (\<lambda>s. (inputFrame s, outputs s))"
    by (auto simp: extractor_obs_def)
  then show ?thesis
    using host.rechunk [of cs s ds] assms by (simp add: FrameExtractor_on_def extractor_obs_def)
qed

lemma extractor_rechunk_witness:
  "map_sum id (\<lambda>s. (inputFrame s, outputs s))
     (run_chunks FrameExtractor_on [(\<lambda>_. 10, [0x7E, 0x41]), (\<lambda>_. 20, [0x7E])] (FrameExtractor_new 0)) =
   map_sum id (\<lambda>s. (inputFrame s, outputs s))
     (run_chunks FrameExtractor_on [(\<lambda>_. 30, [0x7E, 0x41, 0x7E])] (FrameExtractor_new 0))"
  by (rule extractor_rechunk)
    (simp_all add: FrameExtractor_frameTimeout_def FrameExtractor_new_def ppp_chars Let_def)

text \<open>
  The timeout. A chunk without a flag is appended to the pending bytes when the last flag
  is at most 1000 ms old, by the unsigned 64-bit difference; when it is older, pending bytes
  and chunk are printed and dropped. For a fresh extractor the age is computed from the
  uninitialised \<open>_lastFrameFlag\<close>.
\<close>

theorem extractor_timeout:
  assumes "PPP_FLAG_CHAR \<notin> set bs"
  shows "FrameExtractor_on clk bs s = Inr
    (if clk (length bs) - lastFrameFlag s > 1000
     then (toStdout (inputFrame s @ bs) s)\<lparr>inputFrame := []\<rparr>
     else s\<lparr>inputFrame := inputFrame s @ bs\<rparr>)"
proof -
  have loop: "for_each (\<lambda>i. rxd_byte (clk i)) i bs s = Inr (s\<lparr>inputFrame := inputFrame s @ bs\<rparr>)" for i
    using assms
  proof (induction bs arbitrary: i s)
    case (Cons b bs)
    then show ?case by (auto simp: rxd_byte_def)
  qed simp
  then show ?thesis
    by (simp add: FrameExtractor_on_def handleRxd_def FrameExtractor_frameTimeout_def toStdout_def)
qed

lemma extractor_timeout_witness:
  "FrameExtractor_on (\<lambda>_. 2000) [0x41] (FrameExtractor_new 0) = Inr
     ((toStdout (inputFrame (FrameExtractor_new 0) @ [0x41]) (FrameExtractor_new 0))\<lparr>inputFrame := []\<rparr>)"
  using extractor_timeout [of "[0x41]" "\<lambda>_. 2000" "FrameExtractor_new 0"]
  by (simp add: ppp_chars FrameExtractor_new_def)

text \<open>
  A five-byte sequence on the line, three escape characters between two flags, drives an
  extractor without pending bytes into undefined behaviour, whatever its clock and history.
\<close>

theorem extractor_escape_fault:
  "FrameExtractor_on clk [PPP_FLAG_CHAR, PPP_ESC_CHAR, PPP_ESC_CHAR, PPP_ESC_CHAR, PPP_FLAG_CHAR]
     (s\<lparr>inputFrame := []\<rparr>) = Inl PopBackEmpty"
  by (simp add: FrameExtractor_on_def handleRxd_def rxd_byte_def handleFrame_def ppp_deframe_def)

end
