(* ===== verification/Proxy.thy ===== *)
theory Proxy
  imports Msg_Filter Broker_Zenoh Frame_Extractor
begin

text \<open>
  The proxy of \<open>src/proxy.cpp\<close>: five flows from \<open>fromSerialMsg\<close> through a \<open>MsgFilter\<close> to a
  handler that reads the message and calls the broker, and the way back through
  \<open>toSerialMsg\<close>, \<open>FrameToBytes\<close> and \<open>serial.outgoing\<close>. The abstract specification is what a
  message does to the broker and which messages it is answered with.
\<close>

section \<open>The way to the serial line\<close>

text \<open>
  \<open>to_cbor\<close> is the one \<open>CborSerializer\<close> that all handlers share, \<open>serial_out\<close> what has been
  put on \<open>serial.outgoing\<close>.
\<close>

record 'e Uplink =
  to_cbor :: "'e CborSerializer"
  serial_out :: "bytes list"

type_synonym 'e forward = "c_int \<Rightarrow> bytes \<Rightarrow> 'e Uplink \<Rightarrow> 'e Uplink outcome"

definition toSerialMsg_on :: "bytes \<Rightarrow> 'e Uplink \<Rightarrow> 'e Uplink" where
  "toSerialMsg_on bs u = (case FrameToBytes_on bs of
      None \<Rightarrow> u | Some frame \<Rightarrow> u\<lparr>serial_out := serial_out u @ [frame]\<rparr>)"

definition send_connect :: "('e, 'i) tinycbor \<Rightarrow> MsgConnect \<Rightarrow> 'e Uplink \<Rightarrow> 'e Uplink outcome" where
  "send_connect tc m u =
     seq (reflect_MsgConnect (ser_reflector tc) m (to_cbor u)) (\<lambda>(_, s).
     seq (toBytes s) (\<lambda>bs. Inr (toSerialMsg_on bs (u\<lparr>to_cbor := s\<rparr>))))"

text \<open>The callback given to every subscriber: a sample becomes a \<open>MsgPublish\<close>.\<close>

definition forward_sample :: "('e, 'i) tinycbor \<Rightarrow> 'e forward" where
  "forward_sample tc i bs u =
     seq (reflect_MsgPublish (ser_reflector tc) \<lparr>publish_id = i, publish_value = bs\<rparr> (to_cbor u)) (\<lambda>(_, s).
     seq (toBytes s) (\<lambda>bs. Inr (toSerialMsg_on bs (u\<lparr>to_cbor := s\<rparr>))))"

section \<open>State and handlers\<close>

record ('e, 'i) proxy_state =
  broker :: "'e forward BrokerZenoh"
  from_cbor :: "'i CborDeserializer"
  uplink :: "'e Uplink"

record ('e, 'i) Proxy =
  filters :: "'i MsgFilter list"
  core :: "('e, 'i) proxy_state"

definition connected_reply :: MsgConnect where
  "connected_reply = \<lparr>clientId = [0x63, 0x6F, 0x6E, 0x6E, 0x65, 0x63, 0x74, 0x65, 0x64]\<rparr>"

definition on_connect ::
    "('e, 'i) tinycbor \<Rightarrow> 'e forward Sub zenoh \<Rightarrow> bytes \<Rightarrow> ('e, 'i) proxy_state \<Rightarrow> ('e, 'i) proxy_state outcome" where
  "on_connect tc z frame p =
     seq (reflect_MsgConnect (de_reflector tc) \<lparr>clientId = []\<rparr> (fromBytes frame (from_cbor p))) (\<lambda>(m, d).
       let p = p\<lparr>from_cbor := d\<rparr>
       in if success d then
            let (rc, b) = BrokerZenoh_connect z (clientId m) (broker p); p = p\<lparr>broker := b\<rparr>
            in seq (send_connect tc connected_reply (uplink p)) (\<lambda>u. Inr (p\<lparr>uplink := u\<rparr>))
          else Inr p)"

text \<open>The identifiers of the local messages are not initialised: \<open>junk\<close> is their value.\<close>

definition on_subscriber ::
    "('e, 'i) tinycbor \<Rightarrow> 'e forward Sub zenoh \<Rightarrow> c_int \<Rightarrow> bytes \<Rightarrow> ('e, 'i) proxy_state \<Rightarrow> ('e, 'i) proxy_state outcome" where
  "on_subscriber tc z junk frame p =
     seq (reflect_MsgSubscriber (de_reflector tc) \<lparr>subscriber_id = junk, subscriber_topic = []\<rparr>
           (fromBytes frame (from_cbor p))) (\<lambda>(m, d).
       let p = p\<lparr>from_cbor := d\<rparr>
       in if success d then
            let (rc, b) = BrokerZenoh_subscriber z (subscriber_id m) (subscriber_topic m) (forward_sample tc) (broker p)
            in Inr (p\<lparr>broker := b\<rparr>)
          else Inr p)"

definition on_publisher ::
    "('e, 'i) tinycbor \<Rightarrow> 'e forward Sub zenoh \<Rightarrow> c_int \<Rightarrow> bytes \<Rightarrow> ('e, 'i) proxy_state \<Rightarrow> ('e, 'i) proxy_state outcome" where
  "on_publisher tc z junk frame p =
     seq (reflect_MsgPublisher (de_reflector tc) \<lparr>publisher_id = junk, publisher_topic = []\<rparr>
           (fromBytes frame (from_cbor p))) (\<lambda>(m, d).
       let p = p\<lparr>from_cbor := d\<rparr>
       in if success d then
            let (rc, b) = BrokerZenoh_publisher z (publisher_id m) (publisher_topic m) (broker p)
            in Inr (p\<lparr>broker := b\<rparr>)
          else Inr p)"

definition on_publish ::
    "('e, 'i) tinycbor \<Rightarrow> 'e forward Sub zenoh \<Rightarrow> c_int \<Rightarrow> bytes \<Rightarrow> ('e, 'i) proxy_state \<Rightarrow> ('e, 'i) proxy_state outcome" where
  "on_publish tc z junk frame p =
     seq (reflect_MsgPublish (de_reflector tc) \<lparr>publish_id = junk, publish_value = []\<rparr>
           (fromBytes frame (from_cbor p))) (\<lambda>(m, d).
       let p = p\<lparr>from_cbor := d\<rparr>
       in if success d then
            let (rc, b) = BrokerZenoh_publish z (publish_id m) (publish_value m) (broker p)
            in Inr (p\<lparr>broker := b\<rparr>)
          else Inr p)"

definition on_disconnect ::
    "('e, 'i) tinycbor \<Rightarrow> bytes \<Rightarrow> ('e, 'i) proxy_state \<Rightarrow> ('e, 'i) proxy_state outcome" where
  "on_disconnect tc frame p =
     seq (reflect_MsgDisconnect (de_reflector tc) (fromBytes frame (from_cbor p))) (\<lambda>d.
       let p = p\<lparr>from_cbor := d\<rparr>
       in if success d then
            let (rc, b) = BrokerZenoh_disconnect (broker p)
            in Inr (p\<lparr>broker := b\<rparr>)
          else Inr p)"

text \<open>The flows of \<open>main\<close>, in the order in which they are connected.\<close>

definition proxy_filter_types :: "c_int list" where
  "proxy_filter_types = [B_CONNECT, B_SUBSCRIBER, B_PUBLISHER, B_PUBLISH, B_DISCONNECT]"

definition proxy_handlers ::
    "('e, 'i) tinycbor \<Rightarrow> 'e forward Sub zenoh \<Rightarrow> c_int \<Rightarrow>
      (bytes \<Rightarrow> ('e, 'i) proxy_state \<Rightarrow> ('e, 'i) proxy_state outcome) list" where
  "proxy_handlers tc z junk =
     [on_connect tc z, on_subscriber tc z junk, on_publisher tc z junk, on_publish tc z junk, on_disconnect tc]"

definition fromSerialMsg_on ::
    "('e, 'i) tinycbor \<Rightarrow> 'e forward Sub zenoh \<Rightarrow> c_int \<Rightarrow> bytes \<Rightarrow> ('e, 'i) Proxy \<Rightarrow> ('e, 'i) Proxy outcome" where
  "fromSerialMsg_on tc z junk frame p =
     seq (filter_flows tc (proxy_handlers tc z junk) frame (filters p) (core p)) (\<lambda>(fs, c).
       Inr (p\<lparr>filters := fs, core := c\<rparr>))"

text \<open>The state after the declarations of \<open>main\<close>; \<open>garbage\<close> is what was in memory.\<close>

definition Proxy_new :: "MsgBase \<Rightarrow> 'e \<Rightarrow> 'i \<Rightarrow> ('e, 'i) Proxy" where
  "Proxy_new garbage enc it =
     \<lparr>filters = map (\<lambda>t. MsgFilter_new t garbage it it) proxy_filter_types,
      core = \<lparr>broker = BrokerZenoh_new, from_cbor = CborDeserializer_new 1024 it it,
        uplink = \<lparr>to_cbor = CborSerializer_new 1024 enc enc, serial_out = []\<rparr>\<rparr>\<rparr>"

text \<open>\<open>serial.connected\<close> ends the broker's registrations when it becomes false.\<close>

definition on_serial_connected :: "bool \<Rightarrow> ('e, 'i) proxy_state \<Rightarrow> ('e, 'i) proxy_state" where
  "on_serial_connected isConnected p =
     (if \<not> isConnected then let (rc, b) = BrokerZenoh_disconnect (broker p) in p\<lparr>broker := b\<rparr> else p)"

lemmas handler_defs = on_connect_def on_subscriber_def on_publisher_def on_publish_def on_disconnect_def

section \<open>Specification\<close>

datatype client_message =
    Connect MsgConnect
  | Subscriber MsgSubscriber
  | Publisher MsgPublisher
  | Publish MsgPublish
  | Disconnect

fun client_items :: "client_message \<Rightarrow> cbor_item list" where
  "client_items (Connect m) = items_MsgConnect m"
| "client_items (Subscriber m) = items_MsgSubscriber m"
| "client_items (Publisher m) = items_MsgPublisher m"
| "client_items (Publish m) = items_MsgPublish m"
| "client_items Disconnect = items_MsgDisconnect"

fun broker_effect ::
    "'e forward Sub zenoh \<Rightarrow> 'e forward \<Rightarrow> client_message \<Rightarrow> 'e forward BrokerZenoh \<Rightarrow> 'e forward BrokerZenoh" where
  "broker_effect z fw (Connect m) b = snd (BrokerZenoh_connect z (c_string (clientId m)) b)"
| "broker_effect z fw (Subscriber m) b =
     snd (BrokerZenoh_subscriber z (subscriber_id m) (c_string (subscriber_topic m)) fw b)"
| "broker_effect z fw (Publisher m) b =
     snd (BrokerZenoh_publisher z (publisher_id m) (c_string (publisher_topic m)) b)"
| "broker_effect z fw (Publish m) b = snd (BrokerZenoh_publish z (publish_id m) (publish_value m) b)"
| "broker_effect z fw Disconnect b = snd (BrokerZenoh_disconnect b)"

fun client_type :: "client_message \<Rightarrow> c_int" where
  "client_type (Connect _) = B_CONNECT"
| "client_type (Subscriber _) = B_SUBSCRIBER"
| "client_type (Publisher _) = B_PUBLISHER"
| "client_type (Publish _) = B_PUBLISH"
| "client_type Disconnect = B_DISCONNECT"

text \<open>Every connect is answered with \<open>connected\<close>, nothing else is answered.\<close>

fun reply_items :: "client_message \<Rightarrow> cbor_item list list" where
  "reply_items (Connect m) = [items_MsgConnect connected_reply]"
| "reply_items _ = []"

definition core_ok :: "nat \<Rightarrow> nat \<Rightarrow> ('e, 'i) proxy_state \<Rightarrow> bool" where
  "core_ok cap dcap p \<longleftrightarrow> de_capacity (from_cbor p) = dcap \<and> ser_capacity (to_cbor (uplink p)) = cap"

definition proxy_ok :: "nat \<Rightarrow> nat \<Rightarrow> ('e, 'i) Proxy \<Rightarrow> bool" where
  "proxy_ok cap dcap p \<longleftrightarrow> filters_ok dcap (filters p) \<and>
     map filter_msgType (filters p) = proxy_filter_types \<and> core_ok cap dcap (core p)"

lemma proxy_ok_new [simp]: "proxy_ok 1024 1024 (Proxy_new garbage enc it)"
  by (simp add: proxy_ok_def core_ok_def Proxy_new_def filters_ok_def MsgFilter_new_def
      CborDeserializer_new_def CborSerializer_new_def list_all_iff comp_def)

section \<open>Messages\<close>

text \<open>\<open>serves\<close>: what one step does to the broker and to the line, by the specification.\<close>

definition serves ::
    "('e, 'i) tinycbor \<Rightarrow> (cbor_item list \<Rightarrow> 'i \<Rightarrow> bool) \<Rightarrow> nat \<Rightarrow> 'e forward Sub zenoh \<Rightarrow> client_message list \<Rightarrow>
      ('e, 'i) proxy_state \<Rightarrow> ('e, 'i) proxy_state \<Rightarrow> bool" where
  "serves tc at cap z ms p p' \<longleftrightarrow>
     broker p' = fold (broker_effect z (forward_sample tc)) ms (broker p) \<and>
     (\<exists>out. serial_out (uplink p') = serial_out (uplink p) @ out \<and>
       frames_of tc at cap (concat (map reply_items ms)) out)"

lemma serves_Nil [simp]: "serves tc at cap z [] p p' \<longleftrightarrow>
    broker p' = broker p \<and> serial_out (uplink p') = serial_out (uplink p)"
  by (auto simp: serves_def)

lemma serves_append:
  assumes "serves tc at cap z ms p p'" "serves tc at cap z ms' p' p''"
  shows "serves tc at cap z (ms @ ms') p p''"
  using assms frames_of_append unfolding serves_def by fastforce

context cbor_channel begin

lemma send_connect_sends:
  assumes "fits (items_MsgConnect m)" "ser_capacity (to_cbor u) = cap"
  shows "\<exists>u' bs. send_connect tc m u = Inr u' \<and> ser_capacity (to_cbor u') = cap \<and>
    serial_out u' = serial_out u @ [ppp_frame bs] \<and> encodes (items_MsgConnect m) bs"
proof -
  from ser.write_connect [of "to_cbor u" m] assms obtain s' where
    "reflect_MsgConnect (ser_reflector tc) m (to_cbor u) = Inr (m, s')" "ser_written s' (items_MsgConnect m)"
    by (auto simp: ser_ready_def)
  then show ?thesis
    by (auto simp: send_connect_def ser_written_def toSerialMsg_on_def FrameToBytes_on_def)
qed

lemma forward_sends:
  assumes "fits (items_MsgPublish \<lparr>publish_id = i, publish_value = v\<rparr>)" "ser_capacity (to_cbor u) = cap"
  shows "\<exists>u' bs. forward_sample tc i v u = Inr u' \<and> ser_capacity (to_cbor u') = cap \<and>
    serial_out u' = serial_out u @ [ppp_frame bs] \<and>
    encodes (items_MsgPublish \<lparr>publish_id = i, publish_value = v\<rparr>) bs"
proof -
  from ser.write_publish [of "to_cbor u" "\<lparr>publish_id = i, publish_value = v\<rparr>"] assms obtain s' where
    "reflect_MsgPublish (ser_reflector tc) \<lparr>publish_id = i, publish_value = v\<rparr> (to_cbor u) =
      Inr (\<lparr>publish_id = i, publish_value = v\<rparr>, s')"
    "ser_written s' (items_MsgPublish \<lparr>publish_id = i, publish_value = v\<rparr>)"
    by (auto simp: ser_ready_def)
  then show ?thesis
    by (auto simp: forward_sample_def ser_written_def toSerialMsg_on_def FrameToBytes_on_def)
qed

lemma serve_connect:
  assumes "encodes (items_MsgConnect m) bs" "core_ok cap dcap p" "fits (items_MsgConnect connected_reply)"
  shows "\<exists>p'. on_connect tc z bs p = Inr p' \<and> core_ok cap dcap p' \<and> serves tc at cap z [Connect m] p p'"
proof -
  from de.read_connect [OF loads [OF assms(1), of "from_cbor p"], of "\<lparr>clientId = []\<rparr>"] assms(2) obtain d' where
    d': "reflect_MsgConnect (de_reflector tc) \<lparr>clientId = []\<rparr> (fromBytes bs (from_cbor p)) =
      Inr (\<lparr>clientId = c_string (clientId m)\<rparr>, d')" "de_reading d' []"
    by (auto simp: core_ok_def)
  from send_connect_sends [OF assms(3), of "uplink p"] assms(2) obtain u' bs' where
    u': "send_connect tc connected_reply (uplink p) = Inr u'" "ser_capacity (to_cbor u') = cap"
      "serial_out u' = serial_out (uplink p) @ [ppp_frame bs']" "encodes (items_MsgConnect connected_reply) bs'"
    by (auto simp: core_ok_def)
  have "frames_of tc at cap [items_MsgConnect connected_reply] [ppp_frame bs']"
    using u'(4) unfolding frames_of_def by (intro exI [of _ "[bs']"]) simp
  then show ?thesis
    using d'(1) u' reading_success [OF d'(2)] reading_capacity [OF d'(2)]
    by (simp add: on_connect_def core_ok_def serves_def Let_def split: prod.splits)
qed

lemma serve_subscriber:
  assumes "encodes (items_MsgSubscriber m) bs" "core_ok cap dcap p"
  shows "\<exists>p'. on_subscriber tc z junk bs p = Inr p' \<and> core_ok cap dcap p' \<and> serves tc at cap z [Subscriber m] p p'"
proof -
  let ?m0 = "\<lparr>subscriber_id = junk, subscriber_topic = []\<rparr>"
  from de.read_subscriber [OF loads [OF assms(1), of "from_cbor p"], of ?m0] assms(2) obtain d' where
    d': "reflect_MsgSubscriber (de_reflector tc) ?m0 (fromBytes bs (from_cbor p)) =
      Inr (\<lparr>subscriber_id = subscriber_id m, subscriber_topic = c_string (subscriber_topic m)\<rparr>, d')" "de_reading d' []"
    by (auto simp: core_ok_def)
  then show ?thesis
    using assms(2) reading_success [OF d'(2)] reading_capacity [OF d'(2)]
    by (simp add: on_subscriber_def core_ok_def serves_def Let_def split: prod.splits)
qed

lemma serve_publisher:
  assumes "encodes (items_MsgPublisher m) bs" "core_ok cap dcap p"
  shows "\<exists>p'. on_publisher tc z junk bs p = Inr p' \<and> core_ok cap dcap p' \<and> serves tc at cap z [Publisher m] p p'"
proof -
  let ?m0 = "\<lparr>publisher_id = junk, publisher_topic = []\<rparr>"
  from de.read_publisher [OF loads [OF assms(1), of "from_cbor p"], of ?m0] assms(2) obtain d' where
    d': "reflect_MsgPublisher (de_reflector tc) ?m0 (fromBytes bs (from_cbor p)) =
      Inr (\<lparr>publisher_id = publisher_id m, publisher_topic = c_string (publisher_topic m)\<rparr>, d')" "de_reading d' []"
    by (auto simp: core_ok_def)
  then show ?thesis
    using assms(2) reading_success [OF d'(2)] reading_capacity [OF d'(2)]
    by (simp add: on_publisher_def core_ok_def serves_def Let_def split: prod.splits)
qed

lemma serve_publish:
  assumes "encodes [x, CInt (sint i), CBytes v] bs" "fixed_size x" "core_ok cap dcap p"
  shows "\<exists>p'. on_publish tc z junk bs p = Inr p' \<and> core_ok cap dcap p' \<and>
    serves tc at cap z [Publish \<lparr>publish_id = i, publish_value = v\<rparr>] p p'"
proof -
  let ?m0 = "\<lparr>publish_id = junk, publish_value = []\<rparr>"
  from de.read_publish_items [OF loads [OF assms(1), of "from_cbor p"] assms(2), of ?m0] assms(3) obtain d' where
    d': "reflect_MsgPublish (de_reflector tc) ?m0 (fromBytes bs (from_cbor p)) =
      Inr (\<lparr>publish_id = i, publish_value = v\<rparr>, d')" "de_reading d' []"
    by (auto simp: core_ok_def)
  then show ?thesis
    using assms(3) reading_success [OF d'(2)] reading_capacity [OF d'(2)]
    by (simp add: on_publish_def core_ok_def serves_def Let_def split: prod.splits)
qed

lemma serve_disconnect:
  assumes "encodes items_MsgDisconnect bs" "core_ok cap dcap p"
  shows "\<exists>p'. on_disconnect tc bs p = Inr p' \<and> core_ok cap dcap p' \<and> serves tc at cap z [Disconnect] p p'"
proof -
  from de.read_disconnect [OF loads [OF assms(1), of "from_cbor p"]] assms(2) obtain d' where
    d': "reflect_MsgDisconnect (de_reflector tc) (fromBytes bs (from_cbor p)) = Inr d'" "de_reading d' []"
    by (auto simp: core_ok_def)
  then show ?thesis
    using assms(2) reading_success [OF d'(2)] reading_capacity [OF d'(2)]
    by (simp add: on_disconnect_def core_ok_def serves_def Let_def split: prod.splits)
qed

lemma serve_flow:
  assumes "list_all (selects tc bs t) (filters p)" "proxy_ok cap dcap p" "n < 5" "proxy_filter_types ! n = t"
    and "(proxy_handlers tc z junk ! n) bs (core p) = Inr c'" "core_ok cap dcap c'"
  shows "\<exists>p'. fromSerialMsg_on tc z junk bs p = Inr p' \<and> proxy_ok cap dcap p' \<and> core p' = c' \<and>
    remembers t (filters p')"
proof -
  have types: "map filter_msgType (filters p) = proxy_filter_types"
    using assms(2) by (simp add: proxy_ok_def)
  have len: "length (filters p) = 5" "length (proxy_handlers tc z junk) = length (filters p)"
    using arg_cong [OF types, of length] by (simp_all add: proxy_filter_types_def proxy_handlers_def)
  have sel: "n < length (filters p)" "filter_msgType (filters p ! n) = t"
    using arg_cong [OF types, of "\<lambda>ts. ts ! n"] assms(3,4) len(1) by simp_all
  have "distinct (map filter_msgType (filters p))" "filters_ok dcap (filters p)"
    using assms(2) types by (simp_all add: proxy_filter_types_def msg_types proxy_ok_def)
  from filter_flows_one [OF assms(1) this(2,1) len(2) sel assms(5)] obtain fs' where
    "filter_flows tc (proxy_handlers tc z junk) bs (filters p) (core p) = Inr (fs', c')"
    "filters_ok dcap fs'" "map filter_msgType fs' = map filter_msgType (filters p)" "remembers t fs'" by blast
  then show ?thesis
    using types assms(6) by (simp add: fromSerialMsg_on_def proxy_ok_def)
qed

lemma serve_message:
  assumes "encodes (client_items m) bs" "proxy_ok cap dcap p" "fits (items_MsgConnect connected_reply)"
  shows "\<exists>p'. fromSerialMsg_on tc z junk bs p = Inr p' \<and> proxy_ok cap dcap p' \<and>
    serves tc at cap z [m] (core p) (core p') \<and> remembers (client_type m) (filters p')"
proof -
  have ok: "core_ok cap dcap (core p)" using assms(2) by (simp add: proxy_ok_def)
  obtain xs where "client_items m = CInt (sint (client_type m)) # xs"
    by (cases m) (auto simp: items_defs)
  then have "list_all (selects tc bs (client_type m)) (filters p)"
    using selects_message assms(1,2) by (auto simp: proxy_ok_def)
  note flow = serve_flow [OF this assms(2)]
  note index = proxy_filter_types_def proxy_handlers_def
  show ?thesis
  proof (cases m)
    case (Connect x)
    with serve_connect [of x bs "core p" z] assms ok show ?thesis
      using flow [of 0 z junk] by (fastforce simp: index)
  next
    case (Subscriber x)
    with serve_subscriber [of x bs "core p" z junk] assms ok show ?thesis
      using flow [of 1 z junk] by (fastforce simp: index)
  next
    case (Publisher x)
    with serve_publisher [of x bs "core p" z junk] assms ok show ?thesis
      using flow [of 2 z junk] by (fastforce simp: index)
  next
    case (Publish x)
    then have "encodes [CInt (sint B_PUBLISH), CInt (sint (publish_id x)), CBytes (publish_value x)] bs"
      using assms(1) by (simp add: items_defs)
    moreover have "\<lparr>publish_id = publish_id x, publish_value = publish_value x\<rparr> = x" by simp
    ultimately obtain c' where
      "on_publish tc z junk bs (core p) = Inr c'" "core_ok cap dcap c'" "serves tc at cap z [m] (core p) c'"
      using serve_publish [of "CInt (sint B_PUBLISH)" "publish_id x" "publish_value x" bs "core p" z junk] Publish ok
      by (metis fixed_size.simps(1))
    then show ?thesis
      using flow [of 3 z junk c'] Publish by (auto simp: index)
  next
    case Disconnect
    with serve_disconnect [of bs "core p" z] assms ok show ?thesis
      using flow [of 4 z junk] by (fastforce simp: index)
  qed
qed

text \<open>A frame of another message type runs no handler.\<close>

lemma serve_unknown:
  assumes "encodes (CInt (sint t) # xs) bs" "proxy_ok cap dcap p" "t \<notin> set proxy_filter_types"
  shows "\<exists>p'. fromSerialMsg_on tc z junk bs p = Inr p' \<and> proxy_ok cap dcap p' \<and> core p' = core p"
proof -
  have types: "map filter_msgType (filters p) = proxy_filter_types" "filters_ok dcap (filters p)"
    using assms(2) by (simp_all add: proxy_ok_def)
  then have "t \<notin> filter_msgType ` set (filters p)" "length (proxy_handlers tc z junk) = length (filters p)"
    using assms(3) arg_cong [OF types(1), of length]
    by (auto simp: proxy_filter_types_def proxy_handlers_def simp flip: types(1))
  from filter_flows_none [OF selects_message [OF assms(1) types(2)] types(2) this] obtain fs' where
    "filter_flows tc (proxy_handlers tc z junk) bs (filters p) (core p) = Inr (fs', core p)"
    "filters_ok dcap fs'" "map filter_msgType fs' = map filter_msgType (filters p)" by blast
  then show ?thesis
    using types assms(2) by (simp add: fromSerialMsg_on_def proxy_ok_def)
qed

text \<open>A frame without a message type, after a publish, is served as a publish.\<close>

lemma serve_stale:
  assumes "encodes [CSimple y, CInt (sint i), CBytes v] bs" "proxy_ok cap dcap p" "remembers B_PUBLISH (filters p)"
  shows "\<exists>p'. fromSerialMsg_on tc z junk bs p = Inr p' \<and> proxy_ok cap dcap p' \<and>
    serves tc at cap z [Publish \<lparr>publish_id = i, publish_value = v\<rparr>] (core p) (core p')"
proof -
  have "list_all (selects tc bs B_PUBLISH) (filters p)"
    using selects_simple [OF assms(1) _ assms(3)] assms(2) by (simp add: proxy_ok_def)
  note flow = serve_flow [OF this assms(2), of 3 z junk]
  show ?thesis
    using serve_publish [OF assms(1), of "core p" z junk] assms(2) flow
    by (fastforce simp: proxy_filter_types_def proxy_handlers_def proxy_ok_def)
qed

end

section \<open>Any input\<close>

text \<open>
  Whatever the bytes and whatever the CBOR library does with them, a handler that returns has
  made at most one broker operation.
\<close>

lemma handler_steps:
  assumes "h \<in> set (proxy_handlers tc z junk)" "h frame p = Inr p'"
  shows "broker p' = broker p \<or> broker_step z (broker p) (broker p')"
proof -
  consider "h = on_connect tc z" | "h = on_subscriber tc z junk" | "h = on_publisher tc z junk"
    | "h = on_publish tc z junk" | "h = on_disconnect tc"
    using assms(1) by (auto simp: proxy_handlers_def)
  then show ?thesis
    using assms(2)
    by cases (auto simp: handler_defs Let_def case_prod_beta broker_step_snd elim!: seq_InrE split: if_splits)
qed

lemma filter_flows_steps:
  assumes "filter_flows tc hs frame fs p = Inr (fs', p')" "set hs \<subseteq> set (proxy_handlers tc z junk)"
  shows "(broker_step z)\<^sup>*\<^sup>* (broker p) (broker p')"
proof (rule filter_flows_keep [OF assms(1), where P = "\<lambda>t. (broker_step z)\<^sup>*\<^sup>* (broker p) (broker t)"])
  fix h inp t t'
  assume h: "h \<in> set hs" "h inp t = Inr t'" "(broker_step z)\<^sup>*\<^sup>* (broker p) (broker t)"
  then have "h \<in> set (proxy_handlers tc z junk)" using assms(2) by blast
  from handler_steps [OF this h(2)] h(3) show "(broker_step z)\<^sup>*\<^sup>* (broker p) (broker t')"
    by (auto intro: rtranclp.rtrancl_into_rtrancl)
qed simp

lemma fromSerialMsg_steps:
  assumes "fromSerialMsg_on tc z junk frame p = Inr p'"
  shows "(broker_step z)\<^sup>*\<^sup>* (broker (core p)) (broker (core p'))"
  using assms filter_flows_steps [OF _ subset_refl, of tc z junk frame "filters p" "core p"]
  by (auto simp: fromSerialMsg_on_def elim!: seq_InrE)

text \<open>The line only ever gets more frames.\<close>

lemma sends_extend:
  "send_connect tc m u = Inr u' \<Longrightarrow> \<exists>new. serial_out u' = serial_out u @ new"
  "forward_sample tc i v u = Inr u' \<Longrightarrow> \<exists>new. serial_out u' = serial_out u @ new"
  by (auto simp: send_connect_def forward_sample_def toSerialMsg_on_def FrameToBytes_on_def elim!: seq_InrE)

lemma handler_extends:
  assumes "h \<in> set (proxy_handlers tc z junk)" "h frame p = Inr p'"
  shows "\<exists>new. serial_out (uplink p') = serial_out (uplink p) @ new"
proof -
  consider "h = on_connect tc z" | "h = on_subscriber tc z junk" | "h = on_publisher tc z junk"
    | "h = on_publish tc z junk" | "h = on_disconnect tc"
    using assms(1) by (auto simp: proxy_handlers_def)
  then show ?thesis
  proof cases
    case 1
    have "\<exists>new. serial_out u = serial_out (uplink p) @ new" if "send_connect tc connected_reply (uplink p) = Inr u" for u
      using that by (rule sends_extend(1))
    with 1 show ?thesis
      using assms(2) by (auto simp: on_connect_def Let_def case_prod_beta elim!: seq_InrE split: if_splits)
  qed (use assms(2) in \<open>auto simp: handler_defs Let_def case_prod_beta elim!: seq_InrE split: if_splits\<close>)
qed

lemma fromSerialMsg_extends:
  assumes "fromSerialMsg_on tc z junk frame p = Inr p'"
  shows "\<exists>new. serial_out (uplink (core p')) = serial_out (uplink (core p)) @ new"
proof -
  obtain fs c where f: "filter_flows tc (proxy_handlers tc z junk) frame (filters p) (core p) = Inr (fs, c)"
    "p' = p\<lparr>filters := fs, core := c\<rparr>"
    using assms by (auto simp: fromSerialMsg_on_def elim!: seq_InrE)
  have "\<exists>new. serial_out (uplink c) = serial_out (uplink (core p)) @ new"
    by (rule filter_flows_keep [OF f(1)]) (auto dest: handler_extends)
  with f(2) show ?thesis by simp
qed

end
