(* ===== verification/Host.thy ===== *)
theory Host
  imports Proxy
begin

text \<open>
  The receiving pipeline of \<open>src/proxy.cpp\<close>, \<open>serial.incoming >> bytesToFrame >> fromSerialMsg\<close>,
  and the properties of the proxy as a whole: what the bytes on the serial line make it do to
  the broker.
\<close>

section \<open>The pipeline\<close>

record ('e, 'i) Host =
  bytesToFrame :: FrameExtractor
  proxy :: "('e, 'i) Proxy"

definition emitted :: "frame_output list \<Rightarrow> bytes list" where
  "emitted out = List.map_filter (\<lambda>x. case x of Emit bs \<Rightarrow> Some bs | Stdout _ \<Rightarrow> None) out"

text \<open>
  \<open>bytesToFrame\<close> emits a frame while it handles the chunk; neither side sees the other's state,
  so the frames of a chunk can be handed on after it.
\<close>

definition dispatch ::
    "('e, 'i) tinycbor \<Rightarrow> 'e forward Sub zenoh \<Rightarrow> c_int \<Rightarrow> bytes list \<Rightarrow> ('e, 'i) Proxy \<Rightarrow> ('e, 'i) Proxy outcome" where
  "dispatch tc z junk = for_each (\<lambda>_. fromSerialMsg_on tc z junk) 0"

definition serial_incoming ::
    "('e, 'i) tinycbor \<Rightarrow> 'e forward Sub zenoh \<Rightarrow> c_int \<Rightarrow> (nat \<Rightarrow> u64) \<Rightarrow> bytes \<Rightarrow> ('e, 'i) Host \<Rightarrow> ('e, 'i) Host outcome" where
  "serial_incoming tc z junk clk bs h =
     seq (FrameExtractor_on clk bs (bytesToFrame h)) (\<lambda>e.
     seq (dispatch tc z junk (emitted (drop (length (outputs (bytesToFrame h))) (outputs e))) (proxy h)) (\<lambda>p.
       Inr (h\<lparr>bytesToFrame := e, proxy := p\<rparr>)))"

section \<open>Splitting the pipeline\<close>

lemma emitted_append [simp]: "emitted (xs @ ys) = emitted xs @ emitted ys"
  by (simp add: emitted_def map_filter_def)

lemma emitted_Nil [simp]: "emitted [] = []"
  by (simp add: emitted_def map_filter_def)

lemma emitted_Emit [simp]: "emitted (map Emit ps) = ps"
  by (induction ps) (simp_all add: emitted_def map_filter_def)

lemma dispatch_Nil [simp]: "dispatch tc z junk [] = Inr"
  by (rule ext) (simp add: dispatch_def)

lemma dispatch_append:
  "dispatch tc z junk (xs @ ys) p = seq (dispatch tc z junk xs p) (dispatch tc z junk ys)"
proof -
  have "for_each (\<lambda>_. fromSerialMsg_on tc z junk) n ys = for_each (\<lambda>_. fromSerialMsg_on tc z junk) 0 ys" for n
    by (rule ext, rule for_each_cong) simp
  from this [of "length xs"] show ?thesis
    by (simp add: dispatch_def for_each_append)
qed

lemma dispatch_Cons:
  "dispatch tc z junk (x # xs) p = seq (fromSerialMsg_on tc z junk x p) (dispatch tc z junk xs)"
  using dispatch_append [of tc z junk "[x]" xs p] by (cases "fromSerialMsg_on tc z junk x p") (simp_all add: dispatch_def)

lemma rxd_byte_extends: "rxd_byte t b e = Inr e' \<Longrightarrow> \<exists>new. outputs e' = outputs e @ new"
  by (cases "ppp_deframe (inputFrame e)")
    (auto simp: rxd_byte_def handleFrame_def emit_def toStdout_def Let_def split: if_splits prod.splits)

lemma rxd_loop_extends:
  "for_each (\<lambda>i. rxd_byte (clk i)) n bs e = Inr e' \<Longrightarrow> \<exists>new. outputs e' = outputs e @ new"
proof (induction bs arbitrary: n e)
  case (Cons b bs)
  then obtain e1 where "rxd_byte (clk n) b e = Inr e1" "for_each (\<lambda>i. rxd_byte (clk i)) (Suc n) bs e1 = Inr e'"
    by (cases "rxd_byte (clk n) b e") auto
  with Cons.IH [of "Suc n" e1] rxd_byte_extends [of "clk n" b e e1] show ?case by auto
qed simp

lemma extractor_extends:
  assumes "FrameExtractor_on clk bs e = Inr e'"
  shows "\<exists>new. outputs e' = outputs e @ new"
  using assms rxd_loop_extends [of clk 0 bs e]
  by (cases "for_each (\<lambda>i. rxd_byte (clk i)) 0 bs e")
    (auto simp: FrameExtractor_on_def handleRxd_def toStdout_def split: if_splits)

lemma extractor_run_extends:
  "run_chunks FrameExtractor_on cs e = Inr e' \<Longrightarrow> \<exists>new. outputs e' = outputs e @ new"
proof (induction cs arbitrary: e)
  case (Cons c cs)
  obtain clk bs where c: "c = (clk, bs)" by force
  with Cons.prems obtain e1 where "FrameExtractor_on clk bs e = Inr e1" "run_chunks FrameExtractor_on cs e1 = Inr e'"
    by (cases "FrameExtractor_on clk bs e") auto
  with Cons.IH [of e1] extractor_extends [of clk bs e e1] show ?case by auto
qed simp

lemma pipeline_run:
  assumes "run_chunks FrameExtractor_on cs (bytesToFrame h) = Inr e"
    and "outputs e = outputs (bytesToFrame h) @ new"
    and "dispatch tc z junk (emitted new) (proxy h) = Inr p"
  shows "run_chunks (serial_incoming tc z junk) cs h = Inr (h\<lparr>bytesToFrame := e, proxy := p\<rparr>)"
  using assms
proof (induction cs arbitrary: h new)
  case (Cons c cs)
  obtain clk bs where c: "c = (clk, bs)" by force
  with Cons.prems(1) obtain e1 where
    e1: "FrameExtractor_on clk bs (bytesToFrame h) = Inr e1" "run_chunks FrameExtractor_on cs e1 = Inr e"
    by (cases "FrameExtractor_on clk bs (bytesToFrame h)") auto
  then obtain n1 n2 where n: "outputs e1 = outputs (bytesToFrame h) @ n1" "outputs e = outputs e1 @ n2"
    using extractor_extends extractor_run_extends by blast
  with Cons.prems(2) have "new = n1 @ n2" by simp
  with Cons.prems(3) obtain p1 where
    p1: "dispatch tc z junk (emitted n1) (proxy h) = Inr p1" "dispatch tc z junk (emitted n2) p1 = Inr p"
    by (cases "dispatch tc z junk (emitted n1) (proxy h)") (auto simp: dispatch_append)
  have "run_chunks (serial_incoming tc z junk) cs (h\<lparr>bytesToFrame := e1, proxy := p1\<rparr>) =
      Inr (h\<lparr>bytesToFrame := e1, proxy := p1, bytesToFrame := e, proxy := p\<rparr>)"
    by (rule Cons.IH) (use e1 n p1 in simp_all)
  moreover have "serial_incoming tc z junk clk bs h = Inr (h\<lparr>bytesToFrame := e1, proxy := p1\<rparr>)"
    using e1 n p1 by (simp add: serial_incoming_def)
  ultimately show ?case
    using c by simp
qed (auto intro!: Host.equality)

lemma dispatch_extends:
  "dispatch tc z junk bss p = Inr p' \<Longrightarrow> \<exists>new. serial_out (uplink (core p')) = serial_out (uplink (core p)) @ new"
proof (induction bss arbitrary: p)
  case (Cons bs bss)
  then obtain q where q: "fromSerialMsg_on tc z junk bs p = Inr q" "dispatch tc z junk bss q = Inr p'"
    by (auto simp: dispatch_Cons elim!: seq_InrE)
  from Cons.IH [OF q(2)] fromSerialMsg_extends [OF q(1)] show ?case by auto
qed simp

lemma incoming_extends:
  "serial_incoming tc z junk clk bs h = Inr h' \<Longrightarrow>
    \<exists>new. serial_out (uplink (core (proxy h'))) = serial_out (uplink (core (proxy h))) @ new"
  by (auto simp: serial_incoming_def elim!: seq_InrE dest: dispatch_extends)

lemma run_incoming_extends:
  "run_chunks (serial_incoming tc z junk) cs h = Inr h' \<Longrightarrow>
    \<exists>new. serial_out (uplink (core (proxy h'))) = serial_out (uplink (core (proxy h))) @ new"
proof (induction cs arbitrary: h)
  case (Cons c cs)
  obtain clk bs where c: "c = (clk, bs)" by force
  with Cons.prems obtain h1 where h1: "serial_incoming tc z junk clk bs h = Inr h1"
    "run_chunks (serial_incoming tc z junk) cs h1 = Inr h'" by (auto elim!: seq_InrE)
  from Cons.IH [OF h1(2)] incoming_extends [OF h1(1)] show ?case by auto
qed simp

section \<open>Serving messages\<close>

context cbor_channel begin

lemma dispatch_serves:
  assumes "list_all2 encodes (map client_items ms) bss" "proxy_ok cap dcap p"
    and "message_bytes item_size (items_MsgConnect connected_reply) \<le> cap"
  shows "\<exists>p'. dispatch tc z junk bss p = Inr p' \<and> proxy_ok cap dcap p' \<and> serves tc at cap z ms (core p) (core p')"
  using assms(1,2)
proof (induction ms arbitrary: bss p)
  case (Cons m ms)
  then obtain bs bss' where bss: "bss = bs # bss'" "encodes (client_items m) bs"
    "list_all2 encodes (map client_items ms) bss'" by (auto simp: list_all2_Cons1)
  from serve_message [OF bss(2) Cons.prems(2), of z junk] assms(3) obtain p1 where
    p1: "fromSerialMsg_on tc z junk bs p = Inr p1" "proxy_ok cap dcap p1" "serves tc at cap z [m] (core p) (core p1)"
    by (auto simp: fits_def)
  from Cons.IH [OF bss(3) p1(2)] obtain p2 where
    p2: "dispatch tc z junk bss' p1 = Inr p2" "proxy_ok cap dcap p2" "serves tc at cap z ms (core p1) (core p2)"
    by blast
  from serves_append [OF p1(3) p2(3)] p1 p2 bss(1) show ?case
    by (simp add: dispatch_Cons)
qed simp

lemma sample_roundtrip:
  assumes "message_bytes item_size (items_MsgPublish \<lparr>publish_id = i, publish_value = v\<rparr>) \<le> cap"
    and "ser_capacity (to_cbor u) = cap" and "de_capacity d = dcap"
  shows "\<exists>u' bs d'. forward_sample tc i v u = Inr u' \<and> serial_out u' = serial_out u @ [ppp_frame bs] \<and>
    reflect_MsgPublish (de_reflector tc) m0 (fromBytes bs d) =
      Inr (m0\<lparr>publish_id := i, publish_value := v\<rparr>, d') \<and> success d'"
proof -
  from forward_sends [of i v u] assms(1,2) obtain u' bs where
    u': "forward_sample tc i v u = Inr u'" "serial_out u' = serial_out u @ [ppp_frame bs]"
      "encodes (items_MsgPublish \<lparr>publish_id = i, publish_value = v\<rparr>) bs"
    by (auto simp: fits_def)
  with de.read_publish [OF loads [OF u'(3) assms(3)], of m0] reading_success show ?thesis
    by auto
qed

end

section \<open>Any input\<close>

definition Host_new :: "u64 \<Rightarrow> MsgBase \<Rightarrow> 'e \<Rightarrow> 'i \<Rightarrow> ('e, 'i) Host" where
  "Host_new flag garbage enc it =
     \<lparr>bytesToFrame = FrameExtractor_new flag, proxy = Proxy_new garbage enc it\<rparr>"

lemma dispatch_steps:
  "dispatch tc z junk bss p = Inr p' \<Longrightarrow> (broker_step z)\<^sup>*\<^sup>* (broker (core p)) (broker (core p'))"
proof (induction bss arbitrary: p)
  case (Cons bs bss)
  then obtain p1 where "fromSerialMsg_on tc z junk bs p = Inr p1" "dispatch tc z junk bss p1 = Inr p'"
    by (auto simp: dispatch_Cons elim: seq_InrE)
  with rtranclp_trans [OF fromSerialMsg_steps Cons.IH] show ?case by blast
qed simp

lemma host_steps:
  "run_chunks (serial_incoming tc z junk) cs h = Inr h' \<Longrightarrow>
    (broker_step z)\<^sup>*\<^sup>* (broker (core (proxy h))) (broker (core (proxy h')))"
proof (induction cs arbitrary: h)
  case (Cons c cs)
  obtain clk bs where "c = (clk, bs)" by force
  with Cons.prems obtain h1 where
    h1: "serial_incoming tc z junk clk bs h = Inr h1" "run_chunks (serial_incoming tc z junk) cs h1 = Inr h'"
    by (auto elim: seq_InrE)
  from h1(1) have "(broker_step z)\<^sup>*\<^sup>* (broker (core (proxy h))) (broker (core (proxy h1)))"
    by (auto simp: serial_incoming_def dest: dispatch_steps elim!: seq_InrE)
  from rtranclp_trans [OF this Cons.IH [OF h1(2)]] show ?case .
qed simp

section \<open>Streams of frames\<close>

lemma line_serves:
  assumes "cbor_channel tc open_array at item_size cap dcap"
    and "message_bytes item_size (items_MsgConnect connected_reply) \<le> cap"
    and "proxy_ok cap dcap (proxy h)"
    and "timely (ucast FrameExtractor_frameTimeout) cs (lastFrameFlag (bytesToFrame h))"
    and "inputFrame (bytesToFrame h) = []"
    and "concat (map snd cs) = concat (map ppp_frame bss)"
    and "list_all2 (cbor_encodes tc at cap) (map client_items ms) bss"
  shows "\<exists>h' out. run_chunks (serial_incoming tc z junk) cs h = Inr h' \<and> proxy_ok cap dcap (proxy h') \<and>
    inputFrame (bytesToFrame h') = [] \<and>
    broker (core (proxy h')) = fold (broker_effect z (forward_sample tc)) ms (broker (core (proxy h))) \<and>
    serial_out (uplink (core (proxy h'))) = serial_out (uplink (core (proxy h))) @ out \<and>
    frames_of tc at cap (concat (map reply_items ms)) out"
proof -
  have "list_all (\<lambda>bs. bs \<noteq> []) bss"
    using assms(7) by (auto simp: list_all_iff cbor_encodes_def list_all2_conv_all_nth in_set_conv_nth)
  from extractor_delivers [OF assms(4,5) this assms(6)] obtain e where
    e: "run_chunks FrameExtractor_on cs (bytesToFrame h) = Inr e" "inputFrame e = []" "outputs e = outputs (bytesToFrame h) @ map Emit bss"
    by blast
  from cbor_channel.dispatch_serves [OF assms(1,7,3,2), of z junk] obtain p where
    p: "dispatch tc z junk bss (proxy h) = Inr p" "proxy_ok cap dcap p" "serves tc at cap z ms (core (proxy h)) (core p)"
    by blast
  from pipeline_run [OF e(1) e(3), of tc z junk p] p e(2) show ?thesis
    by (auto simp: serves_def)
qed

section \<open>Properties\<close>

lemma connected_fits: "message_bytes wire_size (items_MsgConnect connected_reply) \<le> 1024"
  by (simp add: wire_size_eval connected_reply_def)

text \<open>
  C5: Requests from the serial line. A stream of frames, cut into chunks in any way, in which
  the k-th frame encodes the k-th of a list of messages, has the effect of the messages in
  order: the broker ends in the state that the broker operations give, and the line carries
  exactly the replies (\<open>connected\<close> for every connect).
\<close>

theorem proxy_serves_line:
  assumes "cbor_channel tc open_array at item_size cap dcap"
    and "message_bytes item_size (items_MsgConnect connected_reply) \<le> cap"
    and "proxy_ok cap dcap (proxy h)"
    and "timely (ucast FrameExtractor_frameTimeout) cs (lastFrameFlag (bytesToFrame h))"
    and "inputFrame (bytesToFrame h) = []"
    and "concat (map snd cs) = concat (map ppp_frame bss)"
    and "list_all2 (cbor_encodes tc at cap) (map client_items ms) bss"
  shows "\<exists>h' out. run_chunks (serial_incoming tc z junk) cs h = Inr h' \<and> proxy_ok cap dcap (proxy h') \<and>
    broker (core (proxy h')) = fold (broker_effect z (forward_sample tc)) ms (broker (core (proxy h))) \<and>
    serial_out (uplink (core (proxy h'))) = serial_out (uplink (core (proxy h))) @ out \<and>
    frames_of tc at cap (concat (map reply_items ms)) out"
  using line_serves [OF assms, of z junk] by blast

text \<open>The proxy as \<open>main\<close> sets it up, over the wire codec.\<close>

definition wire_host :: "(wire_encoder, bytes) Host" where
  "wire_host = Host_new 0 \<lparr>msgType = 0\<rparr> (0, [], False) []"

lemma wire_host_ok [simp]: "proxy_ok 1024 1024 (proxy wire_host)" "inputFrame (bytesToFrame wire_host) = []"
  "lastFrameFlag (bytesToFrame wire_host) = 0"
  by (simp_all add: wire_host_def Host_new_def FrameExtractor_new_def)

lemma wire_disconnect: "cbor_encodes wire wire_at 1024 items_MsgDisconnect (wire_array items_MsgDisconnect)"
  by (rule wire_array_encodes) (simp_all add: items_defs msg_types wire_eval)

lemma wire_connect: "cbor_encodes wire wire_at 1024 (items_MsgConnect \<lparr>clientId = [0x41]\<rparr>)
    (wire_array (items_MsgConnect \<lparr>clientId = [0x41]\<rparr>))"
  by (rule wire_array_encodes) (simp_all add: items_defs msg_types wire_eval)

lemma proxy_serves_line_witness:
  "\<exists>h' out. run_chunks (serial_incoming wire numbering_zenoh 0)
      [(\<lambda>_. 5, concat (map ppp_frame [wire_array items_MsgDisconnect, wire_array (items_MsgConnect \<lparr>clientId = [0x41]\<rparr>)]))]
      wire_host = Inr h' \<and> proxy_ok 1024 1024 (proxy h') \<and>
    broker (core (proxy h')) = fold (broker_effect numbering_zenoh (forward_sample wire))
      [Disconnect, Connect \<lparr>clientId = [0x41]\<rparr>] (broker (core (proxy wire_host))) \<and>
    serial_out (uplink (core (proxy h'))) = serial_out (uplink (core (proxy wire_host))) @ out \<and>
    frames_of wire wire_at 1024 (concat (map reply_items [Disconnect, Connect \<lparr>clientId = [0x41]\<rparr>])) out"
proof (rule proxy_serves_line [OF wire.cbor_channel_axioms, where
      bss = "[wire_array items_MsgDisconnect, wire_array (items_MsgConnect \<lparr>clientId = [0x41]\<rparr>)]"])
  show "list_all2 (cbor_encodes wire wire_at 1024)
      (map client_items [Disconnect, Connect \<lparr>clientId = [0x41]\<rparr>])
      [wire_array items_MsgDisconnect, wire_array (items_MsgConnect \<lparr>clientId = [0x41]\<rparr>)]"
    by (simp add: wire_disconnect wire_connect)
  show "timely (ucast FrameExtractor_frameTimeout) [(\<lambda>_. 5, concat (map ppp_frame
      [wire_array items_MsgDisconnect, wire_array (items_MsgConnect \<lparr>clientId = [0x41]\<rparr>)]))]
      (lastFrameFlag (bytesToFrame wire_host))"
    by (rule timely_constant) (simp add: ppp_frame_body)
qed (simp_all only: connected_fits wire_host_ok, simp_all add: wire_array_def)

text \<open>
  C20: Samples. A sample for a subscriber registered by the proxy becomes one frame on the serial
  line, from which the client reads a publish with the subscriber's identifier and the
  sample's bytes, provided the message fits the serializer's buffer.
\<close>

theorem proxy_forwards_sample:
  assumes "cbor_channel tc open_array at item_size cap dcap"
    and "sub_callback sub = forward_sample tc"
    and "message_bytes item_size (items_MsgPublish \<lparr>publish_id = sub_id sub, publish_value = v\<rparr>) \<le> cap"
    and "ser_capacity (to_cbor u) = cap" and "de_capacity d = dcap"
  shows "\<exists>u' bs d'. subscribeHandler v sub u = Inr u' \<and> serial_out u' = serial_out u @ [ppp_frame bs] \<and>
    reflect_MsgPublish (de_reflector tc) m0 (fromBytes bs d) =
      Inr (m0\<lparr>publish_id := sub_id sub, publish_value := v\<rparr>, d') \<and> success d'"
  using cbor_channel.sample_roundtrip [OF assms(1,3,4,5), of m0] assms(2) by (simp add: subscribeHandler_def)

lemma proxy_forwards_sample_witness:
  "\<exists>u' bs d'. subscribeHandler [7, 8]
      \<lparr>sub_id = 3, sub_key = [0x61], sub_callback = forward_sample wire, zn_subscriber = 1\<rparr>
      (uplink (core (proxy wire_host))) = Inr u' \<and>
    serial_out u' = serial_out (uplink (core (proxy wire_host))) @ [ppp_frame bs] \<and>
    reflect_MsgPublish (de_reflector wire) \<lparr>publish_id = 0, publish_value = []\<rparr> (fromBytes bs wire_deserializer) =
      Inr (\<lparr>publish_id = 0, publish_value = []\<rparr>\<lparr>publish_id := sub_id
        \<lparr>sub_id = 3, sub_key = [0x61], sub_callback = forward_sample wire, zn_subscriber = 1\<rparr>,
        publish_value := [7, 8]\<rparr>, d') \<and> success d'"
  by (rule proxy_forwards_sample [OF wire.cbor_channel_axioms])
    (simp_all add: wire_size_eval wire_host_def Host_new_def Proxy_new_def CborSerializer_new_def)

text \<open>
  A frame that encodes an integer that is none of the five message types, followed by any
  items, changes neither the broker nor what is sent, and the next message is served as usual.
\<close>

theorem proxy_ignores_unknown_types:
  assumes "cbor_channel tc open_array at item_size cap dcap"
    and "message_bytes item_size (items_MsgConnect connected_reply) \<le> cap"
    and "proxy_ok cap dcap p" and "cbor_encodes tc at cap (CInt (sint t) # xs) bs"
    and "t \<notin> set [B_CONNECT, B_SUBSCRIBER, B_PUBLISHER, B_PUBLISH, B_DISCONNECT]"
    and "cbor_encodes tc at cap (client_items m) bs'"
  shows "\<exists>p1 p2. fromSerialMsg_on tc z junk bs p = Inr p1 \<and> core p1 = core p \<and>
    fromSerialMsg_on tc z junk bs' p1 = Inr p2 \<and> serves tc at cap z [m] (core p) (core p2)"
proof -
  from cbor_channel.serve_unknown [OF assms(1,4,3), of z junk] assms(5) obtain p1 where
    p1: "fromSerialMsg_on tc z junk bs p = Inr p1" "proxy_ok cap dcap p1" "core p1 = core p"
    by (auto simp: proxy_filter_types_def)
  with cbor_channel.dispatch_serves [OF assms(1) _ p1(2) assms(2), of "[m]" "[bs']" z junk] assms(6) show ?thesis
    by (auto simp: dispatch_Cons)
qed

lemma proxy_ignores_unknown_types_witness:
  "\<exists>p1 p2. fromSerialMsg_on wire numbering_zenoh 0 (wire_array [CInt 5, CText [0x61]]) (proxy wire_host) = Inr p1 \<and>
    core p1 = core (proxy wire_host) \<and>
    fromSerialMsg_on wire numbering_zenoh 0 (wire_array items_MsgDisconnect) p1 = Inr p2 \<and>
    serves wire wire_at 1024 numbering_zenoh [Disconnect] (core (proxy wire_host)) (core p2)"
  by (rule proxy_ignores_unknown_types [OF wire.cbor_channel_axioms connected_fits, where t = 5 and xs = "[CText [0x61]]"])
    (simp_all add: wire_disconnect msg_types, rule wire_array_encodes, simp_all add: wire_eval)

text \<open>
  A message type outlives its frame. After a publish, a frame whose first item is no
  integer but of fixed size (null, a boolean, a float) is served as another publish.
\<close>

theorem proxy_stale_type_publishes:
  assumes "cbor_channel tc open_array at item_size cap dcap"
    and "message_bytes item_size (items_MsgConnect connected_reply) \<le> cap"
    and "proxy_ok cap dcap p" and "cbor_encodes tc at cap (items_MsgPublish m) bs"
    and "cbor_encodes tc at cap [CSimple y, CInt (sint i), CBytes v] bs'"
  shows "\<exists>p'. dispatch tc z junk [bs, bs'] p = Inr p' \<and>
    serves tc at cap z [Publish m, Publish \<lparr>publish_id = i, publish_value = v\<rparr>] (core p) (core p')"
proof -
  from cbor_channel.serve_message [OF assms(1) _ assms(3), of "Publish m" bs z junk] assms(2,4) obtain p1 where
    p1: "fromSerialMsg_on tc z junk bs p = Inr p1" "proxy_ok cap dcap p1" "serves tc at cap z [Publish m] (core p) (core p1)"
      "remembers B_PUBLISH (filters p1)"
    by (auto simp: cbor_channel.fits_def [OF assms(1)])
  from cbor_channel.serve_stale [OF assms(1,5) p1(2,4), of z junk] obtain p2 where
    p2: "fromSerialMsg_on tc z junk bs' p1 = Inr p2"
      "serves tc at cap z [Publish \<lparr>publish_id = i, publish_value = v\<rparr>] (core p1) (core p2)" by blast
  show ?thesis
    using p1(1) p2(1) serves_append [OF p1(3) p2(2)] by (simp add: dispatch_Cons)
qed

lemma proxy_stale_type_publishes_witness:
  "\<exists>p'. dispatch wire numbering_zenoh 0 [wire_array (items_MsgPublish \<lparr>publish_id = 1, publish_value = [2]\<rparr>),
      wire_array [CSimple 22, CInt (sint (9 :: c_int)), CBytes [3]]] (proxy wire_host) = Inr p' \<and>
    serves wire wire_at 1024 numbering_zenoh [Publish \<lparr>publish_id = 1, publish_value = [2]\<rparr>,
      Publish \<lparr>publish_id = 9, publish_value = [3]\<rparr>] (core (proxy wire_host)) (core p')"
proof (rule proxy_stale_type_publishes [OF wire.cbor_channel_axioms connected_fits, where y = 22])
  show "cbor_encodes wire wire_at 1024 (items_MsgPublish \<lparr>publish_id = 1, publish_value = [2]\<rparr>)
      (wire_array (items_MsgPublish \<lparr>publish_id = 1, publish_value = [2]\<rparr>))"
    by (rule wire_array_encodes) (simp_all add: items_defs msg_types wire_eval)
  show "cbor_encodes wire wire_at 1024 [CSimple 22, CInt (sint (9 :: c_int)), CBytes [3]]
      (wire_array [CSimple 22, CInt (sint (9 :: c_int)), CBytes [3]])"
    by (rule wire_array_encodes) (simp_all add: wire_eval)
qed simp

text \<open>
  C13: Safety on any input. Whatever bytes arrive, in whatever chunks, whatever the CBOR library
  does with them and whatever zenoh answers, a proxy that has not faulted has kept the
  accounts of its handles: each declared subscriber and publisher is in its table or has been
  undeclared exactly once.
\<close>

theorem proxy_accounts_on_any_input:
  assumes "run_chunks (serial_incoming tc z junk) cs (Host_new flag garbage enc it) = Inr h'"
    and "b = broker (core (proxy h'))"
  shows "mset (declared_subscribers z (zn_calls b)) =
      mset (undeclared_subscribers (zn_calls b)) + mset (map (zn_subscriber \<circ> snd) (subscribers b)) \<and>
    mset (declared_publishers z (zn_calls b)) =
      mset (undeclared_publishers (zn_calls b)) + mset (map (zn_publisher \<circ> snd) (publishers b)) \<and>
    0 \<notin> set (undeclared_subscribers (zn_calls b))"
proof -
  have "(broker_step z)\<^sup>*\<^sup>* BrokerZenoh_new b"
    using host_steps [OF assms(1)] assms(2) by (simp add: Host_new_def Proxy_new_def)
  then show ?thesis by (rule broker_accounts)
qed

lemma proxy_accounts_on_any_input_witness:
  "mset (declared_subscribers numbering_zenoh (zn_calls (broker (core (proxy wire_host))))) =
      mset (undeclared_subscribers (zn_calls (broker (core (proxy wire_host))))) +
      mset (map (zn_subscriber \<circ> snd) (subscribers (broker (core (proxy wire_host)))))"
  using proxy_accounts_on_any_input [of wire numbering_zenoh 0 "[(\<lambda>_. 5, [0x41, 0x42])]" 0 "\<lparr>msgType = 0\<rparr>"
      "(0, [], False)" "[]" "wire_host\<lparr>bytesToFrame := (bytesToFrame wire_host)\<lparr>inputFrame := [0x41, 0x42]\<rparr>\<rparr>", OF _ refl]
  by (simp add: wire_host_def Host_new_def FrameExtractor_new_def serial_incoming_def FrameExtractor_on_def
      handleRxd_def rxd_byte_def ppp_chars FrameExtractor_frameTimeout_def)

end
