(* ===== verification/Device_Framer.thy ===== *)
theory Device_Framer
  imports Framing
begin

text \<open>
  The device side of the serial line: the class \<open>BytesToFrame\<close> of
  \<open>zenoh-arduino/src/BrokerSerial.h\<close>. It is the framer of the host with two differences: bytes
  that are no frame are not printed but reported by a line whose text is computed with
  \<open>"ignoring bytes : " + bs.size()\<close>, an offset into the literal, and after a timeout it reports
  the chunk instead of the pending bytes it drops.
\<close>

section \<open>State and operations\<close>

datatype device_output = DevEmit bytes | Println bytes

record BytesToFrame =
  dev_inputFrame :: bytes
  dev_cleanData :: bytes
  dev_lastFrameFlag :: u64
  dev_outputs :: "device_output list"

definition BytesToFrame_frameTimeout :: u32 where
  "BytesToFrame_frameTimeout = 1000"

definition BytesToFrame_new :: "u64 \<Rightarrow> BytesToFrame" where
  "BytesToFrame_new garbage =
     \<lparr>dev_inputFrame = [], dev_cleanData = [], dev_lastFrameFlag = garbage, dev_outputs = []\<rparr>"

text \<open>The literal \<open>ignoring bytes : \<close> of 17 characters; its zero byte is at offset 17.\<close>

definition ignoring_bytes :: bytes where
  "ignoring_bytes = [0x69, 0x67, 0x6E, 0x6F, 0x72, 0x69, 0x6E, 0x67, 0x20, 0x62, 0x79, 0x74, 0x65, 0x73, 0x20, 0x3A, 0x20]"

definition dev_toStdout :: "bytes \<Rightarrow> BytesToFrame \<Rightarrow> BytesToFrame outcome" where
  "dev_toStdout bs s =
     (if bs \<noteq> [] then
        (if length bs \<le> length ignoring_bytes
         then Inr (s\<lparr>dev_outputs := dev_outputs s @ [Println (drop (length bs) ignoring_bytes)]\<rparr>)
         else Inl OutOfBounds)
      else Inr s)"

definition dev_emit :: "bytes \<Rightarrow> BytesToFrame \<Rightarrow> BytesToFrame" where
  "dev_emit bs s = s\<lparr>dev_outputs := dev_outputs s @ [DevEmit bs]\<rparr>"

definition dev_handleFrame :: "bytes \<Rightarrow> BytesToFrame \<Rightarrow> (bool \<times> BytesToFrame) outcome" where
  "dev_handleFrame bs s =
     (if bs = [] then Inr (False, s)
      else seq (ppp_deframe bs) (\<lambda>(ok, clean).
        let s = s\<lparr>dev_cleanData := clean\<rparr> in
        if ok then Inr (True, dev_emit (dev_cleanData s) s)
        else seq (dev_toStdout bs s) (\<lambda>s. Inr (False, s))))"

definition dev_rxd_byte :: "u64 \<Rightarrow> byte \<Rightarrow> BytesToFrame \<Rightarrow> BytesToFrame outcome" where
  "dev_rxd_byte millis b s =
     (if b = PPP_FLAG_CHAR then
        let s = s\<lparr>dev_lastFrameFlag := millis\<rparr> in
        seq (dev_handleFrame (dev_inputFrame s) s) (\<lambda>(_, s). Inr (s\<lparr>dev_inputFrame := []\<rparr>))
      else Inr (s\<lparr>dev_inputFrame := dev_inputFrame s @ [b]\<rparr>))"

definition dev_handleRxd :: "(nat \<Rightarrow> u64) \<Rightarrow> bytes \<Rightarrow> BytesToFrame \<Rightarrow> BytesToFrame outcome" where
  "dev_handleRxd millis bs s =
     seq (for_each (\<lambda>i. dev_rxd_byte (millis i)) 0 bs s) (\<lambda>s.
       if millis (length bs) - dev_lastFrameFlag s > ucast BytesToFrame_frameTimeout
       then seq (dev_toStdout bs s) (\<lambda>s. Inr (s\<lparr>dev_inputFrame := []\<rparr>))
       else Inr s)"

definition BytesToFrame_on :: "(nat \<Rightarrow> u64) \<Rightarrow> bytes \<Rightarrow> BytesToFrame \<Rightarrow> BytesToFrame outcome" where
  "BytesToFrame_on = dev_handleRxd"

section \<open>The device implements the abstract framer\<close>

definition device_obs :: "BytesToFrame \<Rightarrow> bytes \<times> u64 \<times> device_output list" where
  "device_obs s = (dev_inputFrame s, dev_lastFrameFlag s, dev_outputs s)"

definition dev_deliver :: "bytes \<Rightarrow> device_output list \<Rightarrow> device_output list outcome" where
  "dev_deliver p out = Inr (out @ [DevEmit p])"

definition dev_ignore :: "bytes \<Rightarrow> device_output list \<Rightarrow> device_output list outcome" where
  "dev_ignore bs out =
     (if bs = [] then Inr out
      else if length bs \<le> length ignoring_bytes then Inr (out @ [Println (drop (length bs) ignoring_bytes)])
      else Inl OutOfBounds)"

lemmas device_defs = device_obs_def dev_deliver_def dev_ignore_def dev_emit_def dev_toStdout_def
  dev_handleFrame_def dev_rxd_byte_def

lemma deliver_all_device: "deliver_all dev_deliver ps out = Inr (out @ map DevEmit ps)"
  by (induction ps arbitrary: out) (simp_all add: dev_deliver_def)

lemma dev_rxd_byte_refines:
  "map_sum id device_obs (dev_rxd_byte t b s) = framer_byte dev_deliver dev_ignore t b (device_obs s)"
  by (cases "ppp_deframe (dev_inputFrame s)")
    (auto simp: device_defs framer_byte.simps Let_def split: prod.splits)

lemma dev_rxd_loop_refines:
  "map_sum id device_obs (for_each (\<lambda>i. dev_rxd_byte (clk i)) i bs s) =
     for_each (\<lambda>i. framer_byte dev_deliver dev_ignore (clk i)) i bs (device_obs s)"
proof (induction bs arbitrary: i s)
  case (Cons b bs)
  then show ?case
    using dev_rxd_byte_refines [of "clk i" b s, symmetric]
    by (cases "dev_rxd_byte (clk i) b s") auto
qed simp

interpretation device: framer dev_handleRxd device_obs dev_deliver dev_ignore
  "\<lambda>bs pend. dev_ignore bs" "ucast BytesToFrame_frameTimeout"
proof unfold_locales
  fix clk bs s
  show "map_sum id device_obs (dev_handleRxd clk bs s) =
    framer_chunk dev_deliver dev_ignore (\<lambda>bs pend. dev_ignore bs) (ucast BytesToFrame_frameTimeout)
      clk bs (device_obs s)"
    using dev_rxd_loop_refines [of clk 0 bs s, symmetric]
    by (cases "for_each (\<lambda>i. dev_rxd_byte (clk i)) 0 bs s")
      (auto simp: dev_handleRxd_def framer_chunk_def device_obs_def dev_ignore_def dev_toStdout_def)
qed

lemma device_delivers:
  assumes "timely (ucast BytesToFrame_frameTimeout) cs (dev_lastFrameFlag s)"
    and "dev_inputFrame s = []" and "list_all (\<lambda>p. p \<noteq> []) ps"
    and "concat (map snd cs) = concat (map ppp_frame ps)"
  shows "\<exists>s'. run_chunks BytesToFrame_on cs s = Inr s' \<and> dev_inputFrame s' = [] \<and>
    dev_outputs s' = dev_outputs s @ map DevEmit ps"
proof -
  have "device_obs s = ([], dev_lastFrameFlag s, dev_outputs s)"
    using assms(2) by (simp add: device_obs_def)
  with assms obtain s' l' where "run_chunks dev_handleRxd cs s = Inr s'"
    "device_obs s' = ([], l', dev_outputs s @ map DevEmit ps)"
    using device.delivers [of cs "dev_lastFrameFlag s" s "dev_outputs s" ps "dev_outputs s @ map DevEmit ps"]
    by (auto simp: list_all_iff deliver_all_device)
  then show ?thesis
    by (auto simp: BytesToFrame_on_def device_obs_def)
qed

section \<open>Properties\<close>

text \<open>
  Delivery on the device. A device without pending bytes emits exactly the payloads of a
  stream of frames, in order and whatever the chunks, as long as no timeout fires.
\<close>

theorem device_delivers_frames:
  assumes "timely (ucast BytesToFrame_frameTimeout) cs (dev_lastFrameFlag s)"
    and "dev_inputFrame s = []" and "list_all (\<lambda>p. p \<noteq> []) ps"
    and "concat (map snd cs) = concat (map ppp_frame ps)"
  shows "\<exists>s'. run_chunks BytesToFrame_on cs s = Inr s' \<and> dev_inputFrame s' = [] \<and>
    dev_outputs s' = dev_outputs s @ map DevEmit ps"
  using assms by (rule device_delivers)

lemma device_delivers_frames_witness:
  "\<exists>s'. run_chunks BytesToFrame_on
      [(\<lambda>_. 5000, [0x7E, 0x41]), (\<lambda>_. 5400, [0xF5, 0xA3, 0x7E])] (BytesToFrame_new 4500) = Inr s' \<and>
    dev_inputFrame s' = [] \<and> dev_outputs s' = dev_outputs (BytesToFrame_new 4500) @ map DevEmit [[0x41]]"
  by (rule device_delivers_frames)
    (simp_all add: BytesToFrame_frameTimeout_def BytesToFrame_new_def ppp_frame_def fcs_eval
      ppp_chars addEscaped_def Let_def)

text \<open>
  Line noise on the device. More than 17 pending bytes that do not deframe make the next flag
  read past the end of the literal; up to 17 bytes print its tail.
\<close>

theorem device_noise:
  assumes "ppp_deframe noise = Inr (False, clean)" and "noise \<noteq> []"
  shows "run_chunks BytesToFrame_on [(\<lambda>_. t, [PPP_FLAG_CHAR])] (s\<lparr>dev_inputFrame := noise\<rparr>) =
    (if length noise \<le> 17
     then Inr (s\<lparr>dev_inputFrame := [], dev_cleanData := clean, dev_lastFrameFlag := t,
       dev_outputs := dev_outputs s @ [Println (drop (length noise) ignoring_bytes)]\<rparr>)
     else Inl OutOfBounds)"
  using assms
  by (simp add: BytesToFrame_on_def dev_handleRxd_def dev_rxd_byte_def dev_handleFrame_def dev_toStdout_def
      ignoring_bytes_def)

lemma device_noise_witness:
  "run_chunks BytesToFrame_on [(\<lambda>_. 9, [PPP_FLAG_CHAR])] ((BytesToFrame_new 0)\<lparr>dev_inputFrame := [1, 2]\<rparr>) =
    Inr ((BytesToFrame_new 0)\<lparr>dev_inputFrame := [], dev_cleanData := [], dev_lastFrameFlag := 9,
      dev_outputs := [Println (drop 2 ignoring_bytes)]\<rparr>)"
  using device_noise [of "[1, 2]" "[]" 9 "BytesToFrame_new 0"]
  by (simp add: ppp_deframe_def BytesToFrame_new_def numeral_2_eq_2)

end
