(* ===== verification/Device_Broker.thy ===== *)
theory Device_Broker
  imports Msg_Filter Device_Framer
begin

text \<open>
  The device side of the broker: \<open>zenoh-arduino/src/broker.h\<close> (resources, publishers and
  subscribers of type \<open>uint64_t\<close>) and \<open>BrokerSerial\<close> of \<open>zenoh-arduino/src/BrokerSerial.h\<close> and
  \<open>BrokerSerial.cpp\<close>, with its timers and its flows from the incoming frames. \<open>Sys::millis()\<close> is
  an argument of the operations that read it. Values read from memory that the code does not
  initialise are arguments as well.
\<close>

section \<open>Resources\<close>

record Resource =
  res_id :: c_int
  res_key :: bytes

text \<open>\<open>src/\<close>, \<open>dst/\<close>, \<open>src/esp32/\<close> and \<open>dst/esp32/\<close>.\<close>

definition src_slash :: bytes where "src_slash = [0x73, 0x72, 0x63, 0x2F]"
definition dst_slash :: bytes where "dst_slash = [0x64, 0x73, 0x74, 0x2F]"
definition esp32_slash :: bytes where "esp32_slash = [0x65, 0x73, 0x70, 0x33, 0x32, 0x2F]"

definition brokerSrcPrefix :: bytes where "brokerSrcPrefix = src_slash @ esp32_slash"
definition brokerDstPrefix :: bytes where "brokerDstPrefix = dst_slash @ esp32_slash"

text \<open>\<open>topic.find(p) == 0\<close> asks whether \<open>p\<close> is a prefix.\<close>

definition find_at_0 :: "bytes \<Rightarrow> bytes \<Rightarrow> bool" where
  "find_at_0 p topic \<longleftrightarrow> take (length p) topic = p"

text \<open>
  The class \<open>Broker\<close>: resources numbered in the order of creation. \<open>BrokerSerial\<close> inherits it.
\<close>

record Broker =
  resourceId :: c_int
  dev_publishers :: "Resource list"
  dev_subscribers :: "Resource list"

text \<open>
  \<open>_loopbackTopic\<close> and \<open>_dstPrefix\<close> are never used. \<open>serial_written\<close> lists the buffers written to
  the serial stream, which \<open>outgoingFrame\<close> reaches through \<open>_frameToBytes\<close>,
  \<open>connected_sent\<close> the values that \<open>connected\<close> has emitted.
\<close>

record 'e BrokerSerial = Broker +
  uptimePub :: Resource
  latencyPub :: Resource
  uptimeSub :: Resource
  dev_connected :: bool
  connected_sent :: "bool list"
  dev_toCbor :: "'e CborSerializer"
  loopbackReceived :: u64
  serial_written :: "bytes list"

definition BrokerSerial_new :: "'e \<Rightarrow> Resource \<Rightarrow> u64 \<Rightarrow> 'e BrokerSerial" where
  "BrokerSerial_new enc null garbage =
     \<lparr>resourceId = 0, dev_publishers = [], dev_subscribers = [], uptimePub = null, latencyPub = null,
      uptimeSub = null, dev_connected = False, connected_sent = [], dev_toCbor = CborSerializer_new 100 enc enc,
      loopbackReceived = garbage, serial_written = []\<rparr>"

text \<open>The assignment \<open>connected = v\<close> of the \<open>ValueSource\<close> emits the value, whatever it was before.\<close>

definition set_connected :: "bool \<Rightarrow> 'e BrokerSerial \<Rightarrow> 'e BrokerSerial" where
  [simp]: "set_connected v d = d\<lparr>dev_connected := v, connected_sent := connected_sent d @ [v]\<rparr>"

definition dev_publisher :: "bytes \<Rightarrow> 'b Broker_scheme \<Rightarrow> Resource \<times> 'b Broker_scheme" where
  "dev_publisher name d =
     (let topic = (if \<not> (find_at_0 src_slash name \<or> find_at_0 dst_slash name) then brokerSrcPrefix @ name else name);
          p = \<lparr>res_id = resourceId d, res_key = topic\<rparr>;
          d = d\<lparr>resourceId := resourceId d + 1\<rparr>
      in (p, d\<lparr>dev_publishers := dev_publishers d @ [p]\<rparr>))"

definition dev_subscriber :: "bytes \<Rightarrow> 'b Broker_scheme \<Rightarrow> Resource \<times> 'b Broker_scheme" where
  "dev_subscriber name d =
     (let topic = (if \<not> (find_at_0 src_slash name \<or> find_at_0 dst_slash name) then brokerDstPrefix @ name else name);
          s = \<lparr>res_id = resourceId d, res_key = topic\<rparr>;
          d = d\<lparr>resourceId := resourceId d + 1\<rparr>
      in (s, d\<lparr>dev_subscribers := dev_subscribers d @ [s]\<rparr>))"

section \<open>Sending\<close>

definition outgoingFrame_on :: "bytes \<Rightarrow> 'e BrokerSerial \<Rightarrow> 'e BrokerSerial" where
  "outgoingFrame_on bs d = d\<lparr>serial_written := serial_written d @ [ppp_frame bs]\<rparr>"

text \<open>
  \<open>Publisher<uint64_t>\<close> serializes its value and then the publish message with a serializer of
  its own. The value is a \<open>const uint64_t &\<close>, and the only overload of \<open>member\<close> that takes a
  constant is the one for \<open>const int &\<close>: the value is converted to \<open>int\<close>.
\<close>

definition dev_publish :: "('e, 'i) tinycbor \<Rightarrow> 'e \<Rightarrow> Resource \<Rightarrow> u64 \<Rightarrow> 'e BrokerSerial \<Rightarrow> 'e BrokerSerial outcome" where
  "dev_publish tc g p t d =
     seq (ser_begin tc (CborSerializer_new 100 g g)) (\<lambda>toCbor.
     seq (ser_int tc (ucast t) toCbor) (\<lambda>toCbor.
     seq (ser_end tc toCbor) (\<lambda>toCbor.
     seq (toBytes toCbor) (\<lambda>bs.
     seq (reflect_MsgPublish (ser_reflector tc) \<lparr>publish_id = res_id p, publish_value = bs\<rparr> toCbor) (\<lambda>(_, toCbor).
     seq (toBytes toCbor) (\<lambda>cb. Inr (outgoingFrame_on cb d)))))))"

definition send_dev_connect :: "('e, 'i) tinycbor \<Rightarrow> 'e BrokerSerial \<Rightarrow> 'e BrokerSerial outcome" where
  "send_dev_connect tc d =
     seq (reflect_MsgConnect (ser_reflector tc) \<lparr>clientId = brokerSrcPrefix\<rparr> (dev_toCbor d)) (\<lambda>(_, s).
     seq (toBytes s) (\<lambda>bs. Inr (outgoingFrame_on bs (d\<lparr>dev_toCbor := s\<rparr>))))"

definition send_dev_subscriber :: "('e, 'i) tinycbor \<Rightarrow> Resource \<Rightarrow> 'e BrokerSerial \<Rightarrow> 'e BrokerSerial outcome" where
  "send_dev_subscriber tc sub d =
     seq (reflect_MsgSubscriber (ser_reflector tc)
           \<lparr>subscriber_id = res_id sub, subscriber_topic = res_key sub\<rparr> (dev_toCbor d)) (\<lambda>(_, s).
     seq (toBytes s) (\<lambda>bs. Inr (outgoingFrame_on bs (d\<lparr>dev_toCbor := s\<rparr>))))"

definition send_dev_publisher :: "('e, 'i) tinycbor \<Rightarrow> Resource \<Rightarrow> 'e BrokerSerial \<Rightarrow> 'e BrokerSerial outcome" where
  "send_dev_publisher tc pub d =
     seq (reflect_MsgPublisher (ser_reflector tc)
           \<lparr>publisher_id = res_id pub, publisher_topic = res_key pub\<rparr> (dev_toCbor d)) (\<lambda>(_, s).
     seq (toBytes s) (\<lambda>bs. Inr (outgoingFrame_on bs (d\<lparr>dev_toCbor := s\<rparr>))))"

section \<open>Receiving\<close>

text \<open>
  \<open>Subscriber<uint64_t>\<close> reads the value of any publish message, whatever its identifier.
  \<open>t0\<close> is what \<open>t\<close> holds before.
\<close>

definition dev_receive :: "('e, 'i) tinycbor \<Rightarrow> 'i \<Rightarrow> c_int \<Rightarrow> u64 \<Rightarrow> bytes \<Rightarrow> u64 option outcome" where
  "dev_receive tc g junk t0 inp =
     seq (reflect_MsgPublish (de_reflector tc) \<lparr>publish_id = junk, publish_value = []\<rparr>
           (fromBytes inp (CborDeserializer_new 100 g g))) (\<lambda>(m, fromCbor).
       if success fromCbor then
         seq (de_begin tc (fromBytes (publish_value m) fromCbor)) (\<lambda>fromCbor.
         seq (de_uint64 tc t0 fromCbor) (\<lambda>(t, fromCbor).
         seq (de_end fromCbor) (\<lambda>_. Inr (Some t))))
       else Inr None)"

text \<open>The names \<open>system/uptime\<close> and \<open>system/latency\<close>.\<close>

definition system_uptime :: bytes where
  "system_uptime = [0x73, 0x79, 0x73, 0x74, 0x65, 0x6D, 0x2F, 0x75, 0x70, 0x74, 0x69, 0x6D, 0x65]"
definition system_latency :: bytes where
  "system_latency = [0x73, 0x79, 0x73, 0x74, 0x65, 0x6D, 0x2F, 0x6C, 0x61, 0x74, 0x65, 0x6E, 0x63, 0x79]"

definition BrokerSerial_init :: "'e BrokerSerial \<Rightarrow> 'e BrokerSerial" where
  "BrokerSerial_init d =
     (let d = set_connected False d;
          (p, d) = dev_publisher system_uptime d; d = d\<lparr>uptimePub := p\<rparr>;
          (p, d) = dev_publisher system_latency d; d = d\<lparr>latencyPub := p\<rparr>;
          (s, d) = dev_subscriber (brokerSrcPrefix @ system_uptime) d
      in d\<lparr>uptimeSub := s\<rparr>)"

section \<open>Events\<close>

text \<open>\<open>keepAliveTimer\<close>, every second; \<open>connectTimer\<close>, every ten seconds.\<close>

definition on_keepAlive :: "('e, 'i) tinycbor \<Rightarrow> 'e \<Rightarrow> u64 \<Rightarrow> 'e BrokerSerial \<Rightarrow> 'e BrokerSerial outcome" where
  "on_keepAlive tc g millis d =
     (if dev_connected d then dev_publish tc g (uptimePub d) millis d else send_dev_connect tc d)"

definition on_connectTimer :: "u64 \<Rightarrow> 'e BrokerSerial \<Rightarrow> 'e BrokerSerial" where
  "on_connectTimer millis d =
     (let timeSinceLoopback = millis - loopbackReceived d
      in if timeSinceLoopback > 5000 then set_connected False d else d)"

definition on_incomingConnect :: "('e, 'i) tinycbor \<Rightarrow> bytes \<Rightarrow> 'e BrokerSerial \<Rightarrow> 'e BrokerSerial outcome" where
  "on_incomingConnect tc inp d =
     (let d = set_connected True d in
      seq (for_each (\<lambda>_. send_dev_subscriber tc) 0 (dev_subscribers d) d)
          (\<lambda>d. for_each (\<lambda>_. send_dev_publisher tc) 0 (dev_publishers d) d))"

text \<open>
  The clock is read twice, for the latency and for \<open>_loopbackReceived\<close>.
\<close>

definition on_incomingPublish ::
    "('e, 'i) tinycbor \<Rightarrow> 'e \<Rightarrow> 'i \<Rightarrow> c_int \<Rightarrow> u64 \<Rightarrow> u64 \<times> u64 \<Rightarrow> bytes \<Rightarrow> 'e BrokerSerial \<Rightarrow> 'e BrokerSerial outcome" where
  "on_incomingPublish tc g gi junk t0 millis inp d =
     seq (dev_receive tc gi junk t0 inp) (\<lambda>r. case r of
        None \<Rightarrow> Inr d
      | Some t \<Rightarrow> seq (dev_publish tc g (latencyPub d) (fst millis - t) d) (\<lambda>d.
          Inr (d\<lparr>loopbackReceived := snd millis\<rparr>)))"

text \<open>Nothing is connected to \<open>incomingDisconnect\<close>.\<close>

definition dev_filter_types :: "c_int list" where
  "dev_filter_types = [B_PUBLISH, B_CONNECT, B_DISCONNECT]"

definition dev_handlers ::
    "('e, 'i) tinycbor \<Rightarrow> 'e \<Rightarrow> 'i \<Rightarrow> c_int \<Rightarrow> u64 \<Rightarrow> u64 \<times> u64 \<Rightarrow>
      (bytes \<Rightarrow> 'e BrokerSerial \<Rightarrow> 'e BrokerSerial outcome) list" where
  "dev_handlers tc g gi junk t0 millis =
     [on_incomingPublish tc g gi junk t0 millis, on_incomingConnect tc, \<lambda>_. Inr]"

definition bytesToFrame_on ::
    "('e, 'i) tinycbor \<Rightarrow> 'e \<Rightarrow> 'i \<Rightarrow> c_int \<Rightarrow> u64 \<Rightarrow> u64 \<times> u64 \<Rightarrow> bytes \<Rightarrow>
      'i MsgFilter list \<times> 'e BrokerSerial \<Rightarrow> ('i MsgFilter list \<times> 'e BrokerSerial) outcome" where
  "bytesToFrame_on tc g gi junk t0 millis frame d =
     filter_flows tc (dev_handlers tc g gi junk t0 millis) frame (fst d) (snd d)"

text \<open>What can happen to a device: its timers and frames from the line.\<close>

datatype device_event = KeepAlive u64 | ConnectTimer u64 | Frame "u64 \<times> u64" bytes

inductive device_step ::
    "('e, 'i) tinycbor \<Rightarrow> 'i MsgFilter list \<times> 'e BrokerSerial \<Rightarrow> device_event \<Rightarrow>
      'i MsgFilter list \<times> 'e BrokerSerial \<Rightarrow> bool" for tc where
  keepAlive: "on_keepAlive tc g millis d = Inr d' \<Longrightarrow> device_step tc (fs, d) (KeepAlive millis) (fs, d')"
| connectTimer: "device_step tc (fs, d) (ConnectTimer millis) (fs, on_connectTimer millis d)"
| frame: "bytesToFrame_on tc g gi junk t0 millis bs (fs, d) = Inr (fs', d') \<Longrightarrow>
    device_step tc (fs, d) (Frame millis bs) (fs', d')"

inductive_cases device_stepE: "device_step tc s e s'"
inductive_simps device_step_timer: "device_step tc s (ConnectTimer millis) s'"

inductive device_run ::
    "('e, 'i) tinycbor \<Rightarrow> 'i MsgFilter list \<times> 'e BrokerSerial \<Rightarrow> device_event list \<Rightarrow>
      'i MsgFilter list \<times> 'e BrokerSerial \<Rightarrow> bool" for tc where
  nil: "device_run tc s [] s"
| cons: "device_step tc s e s' \<Longrightarrow> device_run tc s' es s'' \<Longrightarrow> device_run tc s (e # es) s''"

lemmas device_op_defs = on_keepAlive_def on_connectTimer_def on_incomingConnect_def on_incomingPublish_def
  dev_publish_def send_dev_connect_def send_dev_subscriber_def send_dev_publisher_def outgoingFrame_on_def

section \<open>What an operation sends\<close>

definition sends ::
    "('e, 'i) tinycbor \<Rightarrow> (cbor_item list \<Rightarrow> 'i \<Rightarrow> bool) \<Rightarrow> cbor_item list list \<Rightarrow> 'e BrokerSerial \<Rightarrow> 'e BrokerSerial \<Rightarrow> bool" where
  "sends tc at xss d d' \<longleftrightarrow>
     (\<exists>out s. d' = d\<lparr>dev_toCbor := s, serial_written := serial_written d @ out\<rparr> \<and>
       ser_capacity s = ser_capacity (dev_toCbor d) \<and> frames_of tc at 100 xss out)"

lemma sends_Nil: "sends tc at [] d d"
  unfolding sends_def by (intro exI [of _ "[]"] exI [of _ "dev_toCbor d"]) simp

lemma sends_append: "sends tc at xss d d' \<Longrightarrow> sends tc at yss d' d'' \<Longrightarrow> sends tc at (xss @ yss) d d''"
  using frames_of_append unfolding sends_def by fastforce

lemma sends_keeps:
  assumes "sends tc at xss d d'"
  shows "ser_capacity (dev_toCbor d') = ser_capacity (dev_toCbor d)" "dev_connected d' = dev_connected d"
    "dev_publishers d' = dev_publishers d" "dev_subscribers d' = dev_subscribers d"
  using assms by (auto simp: sends_def)

lemma send_loop_sends:
  assumes "\<And>r d. r \<in> set rs \<Longrightarrow> ser_capacity (dev_toCbor d) = 100 \<Longrightarrow> \<exists>d'. f r d = Inr d' \<and> sends tc at [items r] d d'"
    and "ser_capacity (dev_toCbor d) = 100"
  shows "\<exists>d'. for_each (\<lambda>_. f) i rs d = Inr d' \<and> sends tc at (map items rs) d d'"
  using assms
proof (induction rs arbitrary: i d)
  case Nil
  then show ?case by (simp add: sends_Nil)
next
  case (Cons r rs)
  then obtain d1 where d1: "f r d = Inr d1" "sends tc at [items r] d d1" by force
  with Cons.prems(2) have "ser_capacity (dev_toCbor d1) = 100" by (simp add: sends_keeps)
  from Cons.IH [OF _ this, of "Suc i"] Cons.prems(1) obtain d2 where
    "for_each (\<lambda>_. f) (Suc i) rs d1 = Inr d2" "sends tc at (map items rs) d1 d2" by auto
  with d1 sends_append [of tc at "[items r]" d d1 "map items rs" d2] show ?case by simp
qed

abbreviation subscriber_items :: "Resource \<Rightarrow> cbor_item list" where
  "subscriber_items r \<equiv> items_MsgSubscriber \<lparr>subscriber_id = res_id r, subscriber_topic = res_key r\<rparr>"

abbreviation publisher_items :: "Resource \<Rightarrow> cbor_item list" where
  "publisher_items r \<equiv> items_MsgPublisher \<lparr>publisher_id = res_id r, publisher_topic = res_key r\<rparr>"

context tinycbor_laws begin

lemma channel100: "cbor_channel tc open_array at item_size 100 100" "cbor_channel tc open_array at item_size 100 1024"
  by (simp_all add: cbor_channel_def cbor_channel_axioms_def tinycbor_laws_axioms)

lemma dev_connect_sends:
  assumes "message_bytes item_size (items_MsgConnect \<lparr>clientId = brokerSrcPrefix\<rparr>) \<le> 100"
    and "ser_capacity (dev_toCbor d) = 100"
  shows "\<exists>d'. send_dev_connect tc d = Inr d' \<and> sends tc at [items_MsgConnect \<lparr>clientId = brokerSrcPrefix\<rparr>] d d'"
proof -
  obtain s' bs where "reflect_MsgConnect (ser_reflector tc) \<lparr>clientId = brokerSrcPrefix\<rparr> (dev_toCbor d) =
      Inr (\<lparr>clientId = brokerSrcPrefix\<rparr>, s')" "ser_capacity s' = 100" "toBytes s' = Inr bs"
    "cbor_encodes tc at 100 (items_MsgConnect \<lparr>clientId = brokerSrcPrefix\<rparr>) bs"
    using cbor_channel.written_connect [OF channel100(1) assms] by blast
  then show ?thesis
    using assms(2) unfolding sends_def
    by (auto simp: send_dev_connect_def outgoingFrame_on_def intro!: exI [of _ "[ppp_frame bs]"] exI [of _ s'] frames_of_single)
qed

lemma dev_subscriber_sends:
  assumes "message_bytes item_size (subscriber_items r) \<le> 100" and "ser_capacity (dev_toCbor d) = 100"
  shows "\<exists>d'. send_dev_subscriber tc r d = Inr d' \<and> sends tc at [subscriber_items r] d d'"
proof -
  let ?m = "\<lparr>subscriber_id = res_id r, subscriber_topic = res_key r\<rparr>"
  obtain s' bs where "reflect_MsgSubscriber (ser_reflector tc) ?m (dev_toCbor d) = Inr (?m, s')"
    "ser_capacity s' = 100" "toBytes s' = Inr bs" "cbor_encodes tc at 100 (items_MsgSubscriber ?m) bs"
    using cbor_channel.written_subscriber [OF channel100(1) assms] by blast
  then show ?thesis
    using assms(2) unfolding sends_def
    by (auto simp: send_dev_subscriber_def outgoingFrame_on_def intro!: exI [of _ "[ppp_frame bs]"] exI [of _ s'] frames_of_single)
qed

lemma dev_publisher_sends:
  assumes "message_bytes item_size (publisher_items r) \<le> 100" and "ser_capacity (dev_toCbor d) = 100"
  shows "\<exists>d'. send_dev_publisher tc r d = Inr d' \<and> sends tc at [publisher_items r] d d'"
proof -
  let ?m = "\<lparr>publisher_id = res_id r, publisher_topic = res_key r\<rparr>"
  obtain s' bs where "reflect_MsgPublisher (ser_reflector tc) ?m (dev_toCbor d) = Inr (?m, s')"
    "ser_capacity s' = 100" "toBytes s' = Inr bs" "cbor_encodes tc at 100 (items_MsgPublisher ?m) bs"
    using cbor_channel.written_publisher [OF channel100(1) assms] by blast
  then show ?thesis
    using assms(2) unfolding sends_def
    by (auto simp: send_dev_publisher_def outgoingFrame_on_def intro!: exI [of _ "[ppp_frame bs]"] exI [of _ s'] frames_of_single)
qed

lemma dev_registration_sends:
  assumes "list_all (\<lambda>r. message_bytes item_size (subscriber_items r) \<le> 100) (dev_subscribers d)"
    and "list_all (\<lambda>r. message_bytes item_size (publisher_items r) \<le> 100) (dev_publishers d)"
    and "ser_capacity (dev_toCbor d) = 100"
  shows "\<exists>d'. on_incomingConnect tc bs d = Inr d' \<and>
    sends tc at (map subscriber_items (dev_subscribers d) @ map publisher_items (dev_publishers d))
      (set_connected True d) d'"
proof -
  let ?d = "set_connected True d"
  obtain d1 where d1: "for_each (\<lambda>_. send_dev_subscriber tc) 0 (dev_subscribers d) ?d = Inr d1"
    "sends tc at (map subscriber_items (dev_subscribers d)) ?d d1"
    using send_loop_sends [of "dev_subscribers d" "send_dev_subscriber tc" tc at subscriber_items ?d 0]
      dev_subscriber_sends assms by (auto simp: list_all_iff)
  have "ser_capacity (dev_toCbor d1) = 100" "dev_publishers d1 = dev_publishers d"
    using sends_keeps [OF d1(2)] assms(3) by simp_all
  then obtain d2 where "for_each (\<lambda>_. send_dev_publisher tc) 0 (dev_publishers d1) d1 = Inr d2"
    "sends tc at (map publisher_items (dev_publishers d)) d1 d2"
    using send_loop_sends [of "dev_publishers d" "send_dev_publisher tc" tc at publisher_items d1 0]
      dev_publisher_sends assms by (auto simp: list_all_iff)
  then show ?thesis
    using d1 sends_append by (fastforce simp: on_incomingConnect_def Let_def)
qed

end

end
