(* ===== verification/Device_Session.thy ===== *)
theory Device_Session
  imports Device_Broker
begin

text \<open>
  What the device of \<open>Device_Broker\<close> does over time: the resources it owns after \<open>init\<close>, the
  values it publishes and reads back, the latency it computes from its own uptime message, how it
  registers when the proxy answers, and how it notices that the loopback has stopped.
\<close>

section \<open>Values\<close>

text \<open>The conversion of a \<open>uint64_t\<close> to \<open>int\<close>, sent as CBOR and read as an unsigned number.\<close>

lemma int_of_u64:
  fixes t :: u64
  shows "0 \<le> sint (ucast t :: c_int) \<longleftrightarrow> take_bit 32 t < 2 ^ 31"
    and "0 \<le> sint (ucast t :: c_int) \<Longrightarrow> word_of_int (sint (ucast t :: c_int)) = take_bit 32 t"
proof -
  have s: "sint (ucast t :: c_int) = signed_take_bit 31 (uint t)"
    by (simp add: signed_ucast_eq)
  have u: "uint (take_bit 32 t) = take_bit 32 (uint t)"
    by (simp add: unsigned_take_bit_eq)
  have e: "signed_take_bit 31 (uint t) = take_bit 32 (uint t) - (if bit (uint t) 31 then 2 ^ 32 else 0)"
    using signed_take_bit_eq_take_bit_minus [of 31 "uint t"] by simp
  have b: "bit (uint t) 31 \<longleftrightarrow> 2 ^ 31 \<le> take_bit 32 (uint t)"
    using take_bit_Suc_from_most [of 31 "uint t"] take_bit_int_less_exp [of 31 "uint t"] take_bit_nonnegative [of 31 "uint t"]
    by (auto simp: not_le)
  have r: "0 \<le> take_bit 32 (uint t)" "take_bit 32 (uint t) < 2 ^ 32"
    by (rule take_bit_nonnegative, rule take_bit_int_less_exp)
  show "0 \<le> sint (ucast t :: c_int) \<longleftrightarrow> take_bit 32 t < 2 ^ 31"
    unfolding s e word_less_def u using b r by auto
  assume "0 \<le> sint (ucast t :: c_int)"
  then have "sint (ucast t :: c_int) = uint (take_bit 32 t)"
    unfolding s e u using b r by (auto split: if_splits)
  then show "word_of_int (sint (ucast t :: c_int)) = take_bit 32 t"
    by simp
qed

text \<open>The item a value becomes, and what a subscriber reads from it.\<close>

abbreviation uptime_items :: "u64 \<Rightarrow> cbor_item list" where
  "uptime_items t \<equiv> [CInt (sint (ucast t :: c_int))]"

definition read_back :: "u64 \<Rightarrow> u64 \<Rightarrow> u64" where
  "read_back t0 t = (if take_bit 32 t < 2 ^ 31 then take_bit 32 t else t0)"

lemma read_back_small: "t < 2 ^ 31 \<Longrightarrow> read_back t0 t = t"
proof -
  assume "t < 2 ^ 31"
  then have "take_bit 32 t = t"
    by (intro less_mask_eq [unfolded take_bit_eq_mask [symmetric]]) (auto elim: order_less_trans)
  then show ?thesis
    using \<open>t < 2 ^ 31\<close> by (simp add: read_back_def)
qed

context cbor_channel begin

lemma written_value:
  assumes "message_bytes item_size [CInt (sint v)] \<le> cap"
  shows "\<exists>s1 s2 s3 bs. ser_begin tc (CborSerializer_new cap g g) = Inr s1 \<and> ser_int tc v s1 = Inr s2 \<and>
    ser_end tc s2 = Inr s3 \<and> ser_capacity s3 = cap \<and> toBytes s3 = Inr bs \<and> encodes [CInt (sint v)] bs \<and>
    length bs = message_bytes item_size [CInt (sint v)]"
proof -
  have "ser_ready (CborSerializer_new cap g g)" and fit: "fits [CInt (sint v)]"
    using assms by (simp_all add: ser_ready_def CborSerializer_new_def fits_def)
  from ser.w_begin [OF this(1)] obtain s1 where
    1: "ser_begin tc (CborSerializer_new cap g g) = Inr s1" "ser_writing s1 []" by (auto simp: ser_reflector_def)
  from ser_put_int [OF 1(2), of v] fit obtain s2 where
    2: "ser_int tc v s1 = Inr s2" "ser_writing s2 [CInt (sint v)]" by auto
  from ser.w_end [OF 2(2) fit] 1 2 show ?thesis
    by (auto simp: ser_reflector_def ser_written_def)
qed

lemma read_value:
  assumes "encodes [CInt v] bs" "de_capacity d = dcap" "v < 2 ^ 64"
  shows "\<exists>d1 d2. de_begin tc (fromBytes bs d) = Inr d1 \<and>
    de_uint64 tc t0 d1 = Inr (if 0 \<le> v then word_of_int v else t0, d2)"
proof -
  from de.r_begin [OF loads [OF assms(1,2)]] obtain d1 where
    "de_begin tc (fromBytes bs d) = Inr d1" "de_err d1 = 0" "at [CInt v] (de_it d1)"
    by (auto simp: de_reflector_def de_reading_def)
  then show ?thesis
    using get_uint [of v "[]" "de_it d1"] not_uint [of v "[]" "de_it d1"] assms(3)
    by (cases "0 \<le> v") (auto simp: de_uint64_def Let_def)
qed

end

text \<open>The room a publish message needs with the value \<open>t\<close> in it.\<close>

definition uptime_fits :: "(cbor_item \<Rightarrow> nat) \<Rightarrow> c_int \<Rightarrow> u64 \<Rightarrow> bool" where
  "uptime_fits item_size i t \<longleftrightarrow> message_bytes item_size (uptime_items t) \<le> 100 \<and>
     (\<forall>v. length v = message_bytes item_size (uptime_items t) \<longrightarrow>
        message_bytes item_size (items_MsgPublish \<lparr>publish_id = i, publish_value = v\<rparr>) \<le> 100)"

lemma sint_c_int_less: "sint (w :: c_int) < 2 ^ 64"
  using sint_lt [of w] by simp

context tinycbor_laws begin

lemma dev_publish_sends:
  assumes "uptime_fits item_size (res_id p) t"
  shows "\<exists>v bs. dev_publish tc g p t d = Inr (outgoingFrame_on bs d) \<and> cbor_encodes tc at 100 (uptime_items t) v \<and>
    cbor_encodes tc at 100 (items_MsgPublish \<lparr>publish_id = res_id p, publish_value = v\<rparr>) bs \<and>
    length v = message_bytes item_size (uptime_items t)"
proof -
  from assms have sizes: "message_bytes item_size (uptime_items t) \<le> 100"
    "\<And>v. length v = message_bytes item_size (uptime_items t) \<Longrightarrow>
      message_bytes item_size (items_MsgPublish \<lparr>publish_id = res_id p, publish_value = v\<rparr>) \<le> 100"
    by (simp_all add: uptime_fits_def)
  from cbor_channel.written_value [OF channel100(1) sizes(1), of g] obtain s1 s2 s3 v where
    v: "ser_begin tc (CborSerializer_new 100 g g) = Inr s1" "ser_int tc (ucast t) s1 = Inr s2"
      "ser_end tc s2 = Inr s3" "ser_capacity s3 = 100" "toBytes s3 = Inr v"
      "cbor_encodes tc at 100 (uptime_items t) v" "length v = message_bytes item_size (uptime_items t)"
    by blast
  from cbor_channel.written_publish [OF channel100(1) sizes(2) [OF v(7)] v(4)] obtain s4 bs where
    "reflect_MsgPublish (ser_reflector tc) \<lparr>publish_id = res_id p, publish_value = v\<rparr> s3 =
      Inr (\<lparr>publish_id = res_id p, publish_value = v\<rparr>, s4)" "toBytes s4 = Inr bs"
    "cbor_encodes tc at 100 (items_MsgPublish \<lparr>publish_id = res_id p, publish_value = v\<rparr>) bs" by blast
  with v show ?thesis
    by (auto simp: dev_publish_def)
qed

lemma dev_receive_reads:
  assumes "cbor_encodes tc at 100 (uptime_items t) v"
    and "cbor_encodes tc at 100 (items_MsgPublish \<lparr>publish_id = i, publish_value = v\<rparr>) bs"
  shows "dev_receive tc g junk t0 bs = Inr (Some (read_back t0 t))"
proof -
  let ?d = "CborDeserializer_new 100 g g"
  have cap: "de_capacity ?d = 100" by (simp add: CborDeserializer_new_def)
  note ch = channel100(1)
  from message_reader.read_publish [OF cbor_channel.reader [OF ch] cbor_channel.loads [OF ch assms(2) cap],
      of "\<lparr>publish_id = junk, publish_value = []\<rparr>"]
  obtain d1 where d1: "reflect_MsgPublish (de_reflector tc) \<lparr>publish_id = junk, publish_value = []\<rparr> (fromBytes bs ?d) =
      Inr (\<lparr>publish_id = i, publish_value = v\<rparr>, d1)" "cbor_channel.de_reading at 100 d1 []" by auto
  note rd = cbor_channel.reading_success [OF ch d1(2)] cbor_channel.reading_capacity [OF ch d1(2)]
  from cbor_channel.read_value [OF ch assms(1) rd(2) sint_c_int_less] obtain d2 d3 where
    "de_begin tc (fromBytes v d1) = Inr d2"
    "de_uint64 tc t0 d2 = Inr (if 0 \<le> sint (ucast t :: c_int) then word_of_int (sint (ucast t :: c_int)) else t0, d3)"
    by blast
  with d1(1) rd(1) show ?thesis
    using int_of_u64 [of t] by (simp add: dev_receive_def de_end_def read_back_def split: if_splits)
qed

lemma dev_loopback:
  assumes "cbor_encodes tc at 100 (uptime_items t) v"
    and "cbor_encodes tc at 100 (items_MsgPublish \<lparr>publish_id = i, publish_value = v\<rparr>) bs"
    and "uptime_fits item_size (res_id (latencyPub d)) (fst now - read_back t0 t)"
  shows "\<exists>v' bs'. on_incomingPublish tc g gi junk t0 now bs d =
      Inr (outgoingFrame_on bs' d\<lparr>loopbackReceived := snd now\<rparr>) \<and>
    cbor_encodes tc at 100 (uptime_items (fst now - read_back t0 t)) v' \<and>
    cbor_encodes tc at 100 (items_MsgPublish \<lparr>publish_id = res_id (latencyPub d), publish_value = v'\<rparr>) bs'"
  using dev_receive_reads [OF assms(1,2), of gi junk t0] dev_publish_sends [OF assms(3), of g d]
  by (auto simp: on_incomingPublish_def) blast

end

section \<open>Frames from the line\<close>

definition device_filters :: "nat \<Rightarrow> 'i MsgFilter list \<Rightarrow> bool" where
  "device_filters dcap fs \<longleftrightarrow> filters_ok dcap fs \<and> map filter_msgType fs = dev_filter_types"

text \<open>The filters as \<open>init\<close> creates them.\<close>

definition device_filters_new :: "MsgBase \<Rightarrow> 'i \<Rightarrow> 'i MsgFilter list" where
  "device_filters_new garbage it = map (\<lambda>t. MsgFilter_new t garbage it it) dev_filter_types"

lemma device_filters_new [simp]: "device_filters 1024 (device_filters_new garbage it)"
  by (simp add: device_filters_def device_filters_new_def MsgFilter_new_def CborDeserializer_new_def
      filters_ok_def list_all_iff comp_def)

context cbor_channel begin

lemma device_flow:
  assumes "encodes (CInt (sint t) # xs) bs" "device_filters dcap fs"
    and "n < 3" "dev_filter_types ! n = t" "(dev_handlers tc g gi junk t0 now ! n) bs d = Inr d'"
  shows "\<exists>fs'. bytesToFrame_on tc g gi junk t0 now bs (fs, d) = Inr (fs', d') \<and> device_filters dcap fs'"
proof -
  have types: "map filter_msgType fs = dev_filter_types" "filters_ok dcap fs"
    using assms(2) by (simp_all add: device_filters_def)
  have len: "length fs = 3"
    using arg_cong [OF types(1), of length] by (simp add: dev_filter_types_def)
  have "filter_msgType (fs ! n) = t"
    using assms(3,4) len by (simp flip: types(1))
  with filter_flows_one [OF selects_message [OF assms(1) types(2)] types(2), of "dev_handlers tc g gi junk t0 now" n d d']
  show ?thesis
    using assms(3,5) len types by (auto simp: dev_handlers_def dev_filter_types_def msg_types
        bytesToFrame_on_def device_filters_def)
qed

lemma device_flow_other:
  assumes "encodes (CInt (sint t) # xs) bs" "device_filters dcap fs" "t \<notin> set dev_filter_types"
  shows "\<exists>fs'. bytesToFrame_on tc g gi junk t0 now bs (fs, d) = Inr (fs', d) \<and> device_filters dcap fs'"
proof -
  have types: "map filter_msgType fs = dev_filter_types" "filters_ok dcap fs"
    using assms(2) by (simp_all add: device_filters_def)
  have "length fs = 3"
    using arg_cong [OF types(1), of length] by (simp add: dev_filter_types_def)
  moreover have "t \<notin> filter_msgType ` set fs"
    using assms(3) by (simp flip: types(1))
  ultimately have len: "length fs = 3" "t \<notin> filter_msgType ` set fs" by blast+
  from filter_flows_none [OF selects_message [OF assms(1) types(2)] types(2) len(2), of "dev_handlers tc g gi junk t0 now" d]
  show ?thesis
    using types len by (auto simp: dev_handlers_def bytesToFrame_on_def device_filters_def)
qed

end

section \<open>Losing the proxy\<close>

definition is_frame :: "device_event \<Rightarrow> bool" where
  "is_frame e = (case e of Frame _ _ \<Rightarrow> True | _ \<Rightarrow> False)"

definition expired :: "u64 \<Rightarrow> device_event \<Rightarrow> bool" where
  "expired seen e = (case e of ConnectTimer millis \<Rightarrow> millis - seen > 5000 | _ \<Rightarrow> False)"

lemma outgoingFrame_keeps [simp]: "dev_connected (outgoingFrame_on bs d) = dev_connected d"
  "loopbackReceived (outgoingFrame_on bs d) = loopbackReceived d"
  by (simp_all add: outgoingFrame_on_def)

lemma dev_publish_keeps:
  "dev_publish tc g p t d = Inr d' \<Longrightarrow> dev_connected d' = dev_connected d \<and> loopbackReceived d' = loopbackReceived d"
  by (auto simp: dev_publish_def elim!: seq_InrE)

lemma send_dev_connect_keeps:
  "send_dev_connect tc d = Inr d' \<Longrightarrow> dev_connected d' = dev_connected d \<and> loopbackReceived d' = loopbackReceived d"
  by (auto simp: send_dev_connect_def elim!: seq_InrE)

lemma device_step_silent:
  assumes "device_step tc s e s'" "\<not> is_frame e"
  shows "loopbackReceived (snd s') = loopbackReceived (snd s) \<and>
    (dev_connected (snd s') \<longleftrightarrow> dev_connected (snd s) \<and> \<not> expired (loopbackReceived (snd s)) e)"
  using assms(1)
proof (cases rule: device_step.cases)
  case (keepAlive g millis d d' fs)
  then show ?thesis
    by (cases "dev_connected d") (auto simp: on_keepAlive_def expired_def dest!: dev_publish_keeps send_dev_connect_keeps)
next
  case (connectTimer fs d millis)
  then show ?thesis by (auto simp: on_connectTimer_def expired_def Let_def)
next
  case frame
  with assms(2) show ?thesis by (simp add: is_frame_def)
qed

section \<open>The device over the wire codec\<close>

lemma wire_head_size: "n < 2 ^ 32 \<Longrightarrow> length (wire_head m n) \<le> 5"
  by (simp add: wire_head_def)

lemma wire_size_c_int: "wire_size (CInt (sint (w :: c_int))) \<le> 5"
proof -
  have "sint w < 2 ^ 31" "- (2 ^ 31) \<le> sint w"
    using sint_lt [of w] sint_ge [of w] by simp_all
  then show ?thesis
    unfolding wire_size_def by (auto intro!: wire_head_size)
qed

lemma wire_uptime_fits [simp]: "uptime_fits wire_size i t"
proof -
  have v: "message_bytes wire_size (uptime_items t) \<le> 7"
    using wire_size_c_int [of "ucast t"] by simp
  moreover have "message_bytes wire_size (items_MsgPublish \<lparr>publish_id = i, publish_value = bs\<rparr>) \<le> 100"
    if "length bs = message_bytes wire_size (uptime_items t)" for bs
  proof -
    have "wire_size (CBytes bs) \<le> 12"
      using v that wire_head_size [of "length bs" 2] by (simp add: wire_size_def)
    then show ?thesis
      using wire_size_c_int [of i] wire_size_c_int [of B_PUBLISH] by (simp add: items_defs)
  qed
  ultimately show ?thesis by (simp add: uptime_fits_def)
qed

text \<open>The device after \<open>init\<close>, which last heard its loopback at time \<open>t\<close>.\<close>

definition wire_device :: "u64 \<Rightarrow> wire_encoder BrokerSerial" where
  "wire_device t = BrokerSerial_init (BrokerSerial_new (0, [], False) \<lparr>res_id = 0, res_key = []\<rparr> t)"

lemmas device_names = system_uptime_def system_latency_def brokerSrcPrefix_def src_slash_def dst_slash_def
  esp32_slash_def find_at_0_def

lemma wire_device_state [simp]:
  "ser_capacity (dev_toCbor (wire_device t)) = 100"
  "loopbackReceived (wire_device t) = t"
  "dev_publishers (wire_device t) = [\<lparr>res_id = 0, res_key = brokerSrcPrefix @ system_uptime\<rparr>,
     \<lparr>res_id = 1, res_key = brokerSrcPrefix @ system_latency\<rparr>]"
  "dev_subscribers (wire_device t) = [\<lparr>res_id = 2, res_key = brokerSrcPrefix @ system_uptime\<rparr>]"
  "uptimePub (wire_device t) = \<lparr>res_id = 0, res_key = brokerSrcPrefix @ system_uptime\<rparr>"
  "latencyPub (wire_device t) = \<lparr>res_id = 1, res_key = brokerSrcPrefix @ system_latency\<rparr>"
  "dev_connected (wire_device t) = False" "serial_written (wire_device t) = []"
  by (simp_all add: wire_device_def BrokerSerial_init_def BrokerSerial_new_def dev_publisher_def
      dev_subscriber_def CborSerializer_new_def device_names Let_def)

lemma wire_device_fits:
  "message_bytes wire_size (items_MsgConnect \<lparr>clientId = brokerSrcPrefix\<rparr>) \<le> 100"
  "list_all (\<lambda>r. message_bytes wire_size (subscriber_items r) \<le> 100) (dev_subscribers (wire_device t))"
  "list_all (\<lambda>r. message_bytes wire_size (publisher_items r) \<le> 100) (dev_publishers (wire_device t))"
  by (simp_all add: wire_size_eval device_names)

lemma registers_on_connect:
  assumes "cbor_channel tc open_array at item_size 1024 1024"
    and "list_all (\<lambda>r. message_bytes item_size (subscriber_items r) \<le> 100) (dev_subscribers d)"
    and "list_all (\<lambda>r. message_bytes item_size (publisher_items r) \<le> 100) (dev_publishers d)"
    and "ser_capacity (dev_toCbor d) = 100" and "device_filters 1024 fs"
    and "cbor_encodes tc at 1024 (items_MsgConnect m) bs"
  shows "\<exists>fs' d'. bytesToFrame_on tc g gi junk t0 now bs (fs, d) = Inr (fs', d') \<and> device_filters 1024 fs' \<and>
    dev_connected d' \<and>
    sends tc at (map subscriber_items (dev_subscribers d) @ map publisher_items (dev_publishers d))
      (set_connected True d) d'"
proof -
  have laws: "tinycbor_laws tc open_array at item_size"
    using assms(1) by (simp add: cbor_channel_def)
  from tinycbor_laws.dev_registration_sends [OF laws assms(2-4), of bs] obtain d' where
    d': "on_incomingConnect tc bs d = Inr d'"
    "sends tc at (map subscriber_items (dev_subscribers d) @ map publisher_items (dev_publishers d))
      (set_connected True d) d'" by blast
  have "cbor_encodes tc at 1024 (CInt (sint B_CONNECT) # [CText (clientId m)]) bs"
    using assms(6) by (simp add: items_defs)
  from cbor_channel.device_flow [OF assms(1) this assms(5), of 1 g gi junk t0 now d d'] d'
  show ?thesis
    by (auto simp: dev_filter_types_def dev_handlers_def sends_keeps)
qed

section \<open>Properties\<close>

text \<open>Publishers (\<open>True\<close>) and subscribers created one after the other.\<close>

fun create :: "(bool \<times> bytes) list \<Rightarrow> 'e BrokerSerial \<Rightarrow> Resource list \<times> 'e BrokerSerial" where
  "create [] d = ([], d)"
| "create ((is_pub, name) # rs) d =
     (let (r, d) = (if is_pub then dev_publisher name d else dev_subscriber name d);
          (rest, d) = create rs d
      in (r # rest, d))"

lemma prefixes: "find_at_0 src_slash (brokerSrcPrefix @ name)" "find_at_0 dst_slash (brokerDstPrefix @ name)"
  by (simp_all add: find_at_0_def brokerSrcPrefix_def brokerDstPrefix_def)

lemma create_ids:
  "map res_id (fst (create rs d)) = map (\<lambda>k. resourceId d + of_nat k) [0..<length rs] \<and>
   resourceId (snd (create rs d)) = resourceId d + of_nat (length rs)"
proof (induction rs d rule: create.induct)
  case (2 is_pub name rs d)
  let ?d = "snd (if is_pub then dev_publisher name d else dev_subscriber name d)"
  have "resourceId ?d = resourceId d + 1"
    "res_id (fst (if is_pub then dev_publisher name d else dev_subscriber name d)) = resourceId d"
    by (simp_all add: dev_publisher_def dev_subscriber_def Let_def)
  moreover have "[0..<Suc (length rs)] = 0 # map Suc [0..<length rs]"
    using upt_conv_Cons [of 0 "Suc (length rs)"] by (simp add: map_Suc_upt del: upt_Suc)
  ultimately show ?case
    using "2.IH" [OF _ surjective_pairing [symmetric]] by (simp add: case_prod_beta Let_def comp_def algebra_simps)
qed simp

lemma create_keys:
  "list_all (\<lambda>r. find_at_0 src_slash (res_key r) \<or> find_at_0 dst_slash (res_key r)) (fst (create rs d))"
  by (induction rs d rule: create.induct)
    (auto simp: dev_publisher_def dev_subscriber_def Let_def prefixes case_prod_beta)

lemma create_owned:
  "set (dev_publishers (snd (create rs d))) \<union> set (dev_subscribers (snd (create rs d))) =
   set (dev_publishers d) \<union> set (dev_subscribers d) \<union> set (fst (create rs d))"
  by (induction rs d rule: create.induct)
    (auto simp: dev_publisher_def dev_subscriber_def Let_def case_prod_beta)

text \<open>
  Resources. Publishers and subscribers created one after the other get consecutive
  identifiers, distinct as long as there are at most 2^32; every key lies under \<open>src/\<close> or
  \<open>dst/\<close>; and a device created from nothing owns exactly the resources it returned.
\<close>

theorem device_resource_ids:
  assumes "length rs \<le> 2 ^ 32"
  shows "map res_id (fst (create rs (BrokerSerial_new enc null garbage))) = map of_nat [0..<length rs] \<and>
    distinct (map res_id (fst (create rs (BrokerSerial_new enc null garbage)))) \<and>
    list_all (\<lambda>r. find_at_0 src_slash (res_key r) \<or> find_at_0 dst_slash (res_key r))
      (fst (create rs (BrokerSerial_new enc null garbage))) \<and>
    set (dev_publishers (snd (create rs (BrokerSerial_new enc null garbage)))) \<union>
      set (dev_subscribers (snd (create rs (BrokerSerial_new enc null garbage)))) =
      set (fst (create rs (BrokerSerial_new enc null garbage)))"
proof -
  have ids: "map res_id (fst (create rs (BrokerSerial_new enc null garbage))) = map of_nat [0..<length rs]"
    by (simp add: create_ids BrokerSerial_new_def)
  have "inj_on (of_nat :: nat \<Rightarrow> c_int) {0..<length rs}"
    using assms by (auto simp: inj_on_def of_nat_inverse word_of_nat_eq_iff take_bit_nat_eq_self)
  then have "distinct (map (of_nat :: nat \<Rightarrow> c_int) [0..<length rs])"
    by (simp add: distinct_map)
  then show ?thesis
    unfolding ids using create_keys create_owned [of rs "BrokerSerial_new enc null garbage"]
    by (simp add: BrokerSerial_new_def)
qed

lemma device_resource_ids_witness:
  "map res_id (fst (create [(True, system_uptime), (False, src_slash)] (BrokerSerial_new () \<lparr>res_id = 9, res_key = []\<rparr> 0))) = [0, 1] \<and>
    distinct (map res_id (fst (create [(True, system_uptime), (False, src_slash)] (BrokerSerial_new () \<lparr>res_id = 9, res_key = []\<rparr> 0)))) \<and>
    list_all (\<lambda>r. find_at_0 src_slash (res_key r) \<or> find_at_0 dst_slash (res_key r))
      (fst (create [(True, system_uptime), (False, src_slash)] (BrokerSerial_new () \<lparr>res_id = 9, res_key = []\<rparr> 0))) \<and>
    set (dev_publishers (snd (create [(True, system_uptime), (False, src_slash)] (BrokerSerial_new () \<lparr>res_id = 9, res_key = []\<rparr> 0)))) \<union>
      set (dev_subscribers (snd (create [(True, system_uptime), (False, src_slash)] (BrokerSerial_new () \<lparr>res_id = 9, res_key = []\<rparr> 0)))) =
      set (fst (create [(True, system_uptime), (False, src_slash)] (BrokerSerial_new () \<lparr>res_id = 9, res_key = []\<rparr> 0)))"
  using device_resource_ids [of "[(True, system_uptime), (False, src_slash)]" "()" "\<lparr>res_id = 9, res_key = []\<rparr>" 0]
  by (simp del: create.simps)

text \<open>
  C27: Loss of the proxy. Over any run of timer events without a frame, the time of the last
  loopback stays, a device that was not connected stays so, and a connected one ends connected
  exactly when no connect timer has found the loopback more than five seconds old.
\<close>

theorem device_loses_proxy:
  assumes "device_run tc s es s'" and "list_all (\<lambda>e. \<not> is_frame e) es"
  shows "loopbackReceived (snd s') = loopbackReceived (snd s) \<and>
    (dev_connected (snd s') \<longleftrightarrow>
      dev_connected (snd s) \<and> list_all (\<lambda>e. \<not> expired (loopbackReceived (snd s)) e) es)"
  using assms
proof (induction rule: device_run.induct)
  case (cons s e s' es s'')
  with device_step_silent [of tc s e s'] show ?case by auto
qed simp

text \<open>A device that heard its loopback at 100 and looks at its clock at 4000 and at 12000.\<close>

definition heard_at :: "u64 \<Rightarrow> wire_encoder BrokerSerial" where
  "heard_at t = (BrokerSerial_new (0, [], False) \<lparr>res_id = 0, res_key = []\<rparr> t)\<lparr>dev_connected := True\<rparr>"

lemma device_loses_proxy_witness:
  "loopbackReceived (on_connectTimer 12000 (on_connectTimer 4000 (heard_at 100))) = loopbackReceived (heard_at 100) \<and>
    (dev_connected (on_connectTimer 12000 (on_connectTimer 4000 (heard_at 100))) \<longleftrightarrow>
      dev_connected (heard_at 100) \<and>
      list_all (\<lambda>e. \<not> expired (loopbackReceived (heard_at 100)) e) [ConnectTimer 4000, ConnectTimer 12000])"
  using device_loses_proxy [of wire "([], heard_at 100)" "[ConnectTimer 4000, ConnectTimer 12000]"
      "([], on_connectTimer 12000 (on_connectTimer 4000 (heard_at 100)))"]
  by (simp add: device_run.intros device_step.connectTimer is_frame_def device_run.cons [OF device_step.connectTimer])

text \<open>
  Keep-alive. A device that is not connected sends exactly one connect message carrying its
  source prefix; a connected one publishes its uptime under its uptime publisher, as the item of
  the clock reading converted to \<open>int\<close>.
\<close>

theorem device_keep_alive:
  assumes "tinycbor_laws tc open_array at item_size"
    and "message_bytes item_size (items_MsgConnect \<lparr>clientId = brokerSrcPrefix\<rparr>) \<le> 100"
    and "uptime_fits item_size (res_id (uptimePub d)) millis"
    and "ser_capacity (dev_toCbor d) = 100"
  shows "\<exists>d' v xs. on_keepAlive tc g millis d = Inr d' \<and> sends tc at [xs] d d' \<and>
    xs = (if dev_connected d
          then items_MsgPublish \<lparr>publish_id = res_id (uptimePub d), publish_value = v\<rparr>
          else items_MsgConnect \<lparr>clientId = brokerSrcPrefix\<rparr>) \<and>
    (dev_connected d \<longrightarrow> cbor_encodes tc at 100 (uptime_items millis) v)"
proof (cases "dev_connected d")
  case True
  obtain v bs where "dev_publish tc g (uptimePub d) millis d = Inr (outgoingFrame_on bs d)"
    "cbor_encodes tc at 100 (uptime_items millis) v"
    "cbor_encodes tc at 100 (items_MsgPublish \<lparr>publish_id = res_id (uptimePub d), publish_value = v\<rparr>) bs"
    using tinycbor_laws.dev_publish_sends [OF assms(1,3)] by blast
  moreover from this(3) have "sends tc at [items_MsgPublish \<lparr>publish_id = res_id (uptimePub d), publish_value = v\<rparr>]
      d (outgoingFrame_on bs d)"
    unfolding sends_def outgoingFrame_on_def
    by (intro exI [of _ "[ppp_frame bs]"] exI [of _ "dev_toCbor d"]) (simp add: frames_of_single)
  ultimately show ?thesis
    using True by (auto simp: on_keepAlive_def)
next
  case False
  with tinycbor_laws.dev_connect_sends [OF assms(1,2,4)] show ?thesis
    by (auto simp: on_keepAlive_def)
qed

lemma device_keep_alive_witness:
  "\<exists>d' v xs. on_keepAlive wire (0, [], False) 70000 (wire_device 0) = Inr d' \<and>
    sends wire wire_at [xs] (wire_device 0) d' \<and>
    xs = (if dev_connected (wire_device 0)
          then items_MsgPublish \<lparr>publish_id = res_id (uptimePub (wire_device 0)), publish_value = v\<rparr>
          else items_MsgConnect \<lparr>clientId = brokerSrcPrefix\<rparr>) \<and>
    (dev_connected (wire_device 0) \<longrightarrow> cbor_encodes wire wire_at 100 (uptime_items 70000) v)"
  by (rule device_keep_alive [OF wire.tinycbor_laws_axioms wire_device_fits(1)]) simp_all

text \<open>
  C26: Registration. A connect message on the line makes the device connected and sends its
  subscribers and then its publishers, in order of creation, each as one frame with its
  identifier and its key.
\<close>

theorem device_registers:
  assumes "cbor_channel tc open_array at item_size 1024 1024"
    and "list_all (\<lambda>r. message_bytes item_size (subscriber_items r) \<le> 100) (dev_subscribers d)"
    and "list_all (\<lambda>r. message_bytes item_size (publisher_items r) \<le> 100) (dev_publishers d)"
    and "ser_capacity (dev_toCbor d) = 100" and "device_filters 1024 fs"
    and "cbor_encodes tc at 1024 (items_MsgConnect m) bs"
  shows "\<exists>fs' d'. bytesToFrame_on tc g gi junk t0 now bs (fs, d) = Inr (fs', d') \<and> device_filters 1024 fs' \<and>
    dev_connected d' \<and>
    sends tc at (map subscriber_items (dev_subscribers d) @ map publisher_items (dev_publishers d))
      (set_connected True d) d'"
  using assms by (rule registers_on_connect)

lemma device_registers_witness:
  "\<exists>fs' d'. bytesToFrame_on wire (0, [], False) [] 0 0 (5, 6) (wire_array (items_MsgConnect \<lparr>clientId = [0x41]\<rparr>))
      (device_filters_new \<lparr>msgType = 0\<rparr> [], wire_device 0) = Inr (fs', d') \<and> device_filters 1024 fs' \<and>
    dev_connected d' \<and>
    sends wire wire_at (map subscriber_items (dev_subscribers (wire_device 0)) @
        map publisher_items (dev_publishers (wire_device 0))) (set_connected True (wire_device 0)) d'"
proof (rule device_registers [OF wire.cbor_channel_axioms wire_device_fits(2,3)])
  show "cbor_encodes wire wire_at 1024 (items_MsgConnect \<lparr>clientId = [0x41]\<rparr>)
    (wire_array (items_MsgConnect \<lparr>clientId = [0x41]\<rparr>))"
    by (rule wire_array_encodes) (simp_all add: items_defs msg_types wire_eval)
qed simp_all

text \<open>
  C25: Latency. When the device's own uptime message comes back, it publishes the difference of the
  clock and the value it reads and notes the time of the loopback. The value read is the time
  sent as long as that is below 2^31 milliseconds; above, its low 32 bits when their top bit is
  clear, and otherwise whatever the variable held.
\<close>

theorem device_latency:
  assumes "cbor_channel tc open_array at item_size 1024 1024"
    and "uptime_fits item_size (res_id (latencyPub d)) (fst now - read_back t0 sent)"
    and "device_filters 1024 fs"
    and "cbor_encodes tc at 100 (uptime_items sent) v"
    and "cbor_encodes tc at 100 (items_MsgPublish \<lparr>publish_id = i, publish_value = v\<rparr>) bs"
  shows "\<exists>fs' v' bs'. bytesToFrame_on tc g gi junk t0 now bs (fs, d) =
      Inr (fs', outgoingFrame_on bs' d\<lparr>loopbackReceived := snd now\<rparr>) \<and> device_filters 1024 fs' \<and>
    cbor_encodes tc at 100 (uptime_items (fst now - read_back t0 sent)) v' \<and>
    cbor_encodes tc at 100 (items_MsgPublish \<lparr>publish_id = res_id (latencyPub d), publish_value = v'\<rparr>) bs' \<and>
    (sent < 2 ^ 31 \<longrightarrow> read_back t0 sent = sent)"
proof -
  have laws: "tinycbor_laws tc open_array at item_size"
    using assms(1) by (simp add: cbor_channel_def)
  from tinycbor_laws.dev_loopback [OF laws assms(4,5,2), of g gi junk] obtain v' bs' where
    d': "on_incomingPublish tc g gi junk t0 now bs d = Inr (outgoingFrame_on bs' d\<lparr>loopbackReceived := snd now\<rparr>)"
    "cbor_encodes tc at 100 (uptime_items (fst now - read_back t0 sent)) v'"
    "cbor_encodes tc at 100 (items_MsgPublish \<lparr>publish_id = res_id (latencyPub d), publish_value = v'\<rparr>) bs'" by blast
  have enc: "cbor_encodes tc at 1024 (CInt (sint B_PUBLISH) # [CInt (sint i), CBytes v]) bs"
    using assms(5) by (simp add: items_defs cbor_encodes_def)
  have "sent < 2 ^ 31 \<longrightarrow> read_back t0 sent = sent"
    using read_back_small by blast
  with cbor_channel.device_flow [OF assms(1) enc assms(3), of 0 g gi junk t0 now d] d' show ?thesis
    by (auto simp: dev_filter_types_def dev_handlers_def)
qed

lemma device_latency_witness:
  "\<exists>fs' v' bs'. bytesToFrame_on wire (0, [], False) [] 0 0 (5010, 5011)
      (wire_array (items_MsgPublish \<lparr>publish_id = 0, publish_value = wire_array (uptime_items 5000)\<rparr>))
      (device_filters_new \<lparr>msgType = 0\<rparr> [], wire_device 0) =
      Inr (fs', outgoingFrame_on bs' (wire_device 0)\<lparr>loopbackReceived := snd (5010 :: u64, 5011 :: u64)\<rparr>) \<and> device_filters 1024 fs' \<and>
    cbor_encodes wire wire_at 100 (uptime_items (fst (5010, 5011 :: u64) - read_back 0 5000)) v' \<and>
    cbor_encodes wire wire_at 100
      (items_MsgPublish \<lparr>publish_id = res_id (latencyPub (wire_device 0)), publish_value = v'\<rparr>) bs' \<and>
    (5000 < (2 ^ 31 :: u64) \<longrightarrow> read_back 0 5000 = 5000)"
proof (rule device_latency [OF wire.cbor_channel_axioms])
  show "cbor_encodes wire wire_at 100 (uptime_items 5000) (wire_array (uptime_items 5000))"
    by (rule wire_array_encodes) (simp_all add: wire_eval)
  show "cbor_encodes wire wire_at 100
      (items_MsgPublish \<lparr>publish_id = 0, publish_value = wire_array (uptime_items 5000)\<rparr>)
      (wire_array (items_MsgPublish \<lparr>publish_id = 0, publish_value = wire_array (uptime_items 5000)\<rparr>))"
    by (rule wire_array_encodes) (simp_all add: items_defs msg_types wire_eval wire_array_def)
qed simp_all

end
