(* ===== verification/Device.thy ===== *)
theory Device
  imports Device_Session
begin

text \<open>
  The receiving pipeline of the device, \<open>serialRxd >> _bytesToFrame >> filters\<close> of
  \<open>BrokerSerial::init\<close>, fed by \<open>BrokerSerial::onRxd\<close>: what the bytes on the serial line make
  the device do.
\<close>

record ('e, 'i) Device =
  dev_framer :: BytesToFrame
  dev_filters :: "'i MsgFilter list"
  dev_broker :: "'e BrokerSerial"

definition dev_emitted :: "device_output list \<Rightarrow> bytes list" where
  "dev_emitted out = List.map_filter (\<lambda>x. case x of DevEmit bs \<Rightarrow> Some bs | Println _ \<Rightarrow> None) out"

definition dev_dispatch ::
    "('e, 'i) tinycbor \<Rightarrow> 'e \<Rightarrow> 'i \<Rightarrow> c_int \<Rightarrow> u64 \<Rightarrow> u64 \<times> u64 \<Rightarrow> bytes list \<Rightarrow>
      'i MsgFilter list \<times> 'e BrokerSerial \<Rightarrow> ('i MsgFilter list \<times> 'e BrokerSerial) outcome" where
  "dev_dispatch tc g gi junk t0 now = for_each (\<lambda>_. bytesToFrame_on tc g gi junk t0 now) 0"

text \<open>
  \<open>onRxd\<close> takes what the stream has available, \<open>bs\<close>, and emits it on \<open>serialRxd\<close>. As on the
  host, the frames of a chunk are handed on after it.
\<close>

definition onRxd ::
    "('e, 'i) tinycbor \<Rightarrow> 'e \<Rightarrow> 'i \<Rightarrow> c_int \<Rightarrow> u64 \<Rightarrow> u64 \<times> u64 \<Rightarrow> (nat \<Rightarrow> u64) \<Rightarrow> bytes \<Rightarrow>
      ('e, 'i) Device \<Rightarrow> ('e, 'i) Device outcome" where
  "onRxd tc g gi junk t0 now clk bs v =
     seq (BytesToFrame_on clk bs (dev_framer v)) (\<lambda>e.
     seq (dev_dispatch tc g gi junk t0 now (dev_emitted (drop (length (dev_outputs (dev_framer v))) (dev_outputs e)))
           (dev_filters v, dev_broker v)) (\<lambda>(fs, d).
       Inr (v\<lparr>dev_framer := e, dev_filters := fs, dev_broker := d\<rparr>)))"

section \<open>Splitting the pipeline\<close>

lemma dev_emitted_simps [simp]:
  "dev_emitted (xs @ ys) = dev_emitted xs @ dev_emitted ys" "dev_emitted [] = []"
  by (simp_all add: dev_emitted_def map_filter_def)

lemma dev_emitted_DevEmit [simp]: "dev_emitted (map DevEmit ps) = ps"
  by (induction ps) (simp_all add: dev_emitted_def map_filter_def)

lemma dev_dispatch_Nil [simp]: "dev_dispatch tc g gi junk t0 now [] = Inr"
  by (rule ext) (simp add: dev_dispatch_def)

lemma dev_dispatch_append:
  "dev_dispatch tc g gi junk t0 now (xs @ ys) p =
     seq (dev_dispatch tc g gi junk t0 now xs p) (dev_dispatch tc g gi junk t0 now ys)"
proof -
  have "for_each (\<lambda>_. bytesToFrame_on tc g gi junk t0 now) n ys =
    for_each (\<lambda>_. bytesToFrame_on tc g gi junk t0 now) 0 ys" for n
    by (rule ext, rule for_each_cong) simp
  from this [of "length xs"] show ?thesis
    by (simp add: dev_dispatch_def for_each_append)
qed

lemma dev_dispatch_single: "dev_dispatch tc g gi junk t0 now [x] p = bytesToFrame_on tc g gi junk t0 now x p"
  by (cases "bytesToFrame_on tc g gi junk t0 now x p") (simp_all add: dev_dispatch_def)

lemma dev_toStdout_extends: "dev_toStdout bs s = Inr s' \<Longrightarrow> \<exists>new. dev_outputs s' = dev_outputs s @ new"
  by (auto simp: dev_toStdout_def split: if_splits)

lemma dev_rxd_byte_extends: "dev_rxd_byte t b s = Inr s' \<Longrightarrow> \<exists>new. dev_outputs s' = dev_outputs s @ new"
  by (cases "ppp_deframe (dev_inputFrame s)")
    (auto simp: dev_rxd_byte_def dev_handleFrame_def dev_emit_def Let_def
      elim!: seq_InrE split: if_splits prod.splits dest!: dev_toStdout_extends)

lemma dev_rxd_loop_extends:
  "for_each (\<lambda>i. dev_rxd_byte (clk i)) n bs s = Inr s' \<Longrightarrow> \<exists>new. dev_outputs s' = dev_outputs s @ new"
proof (induction bs arbitrary: n s)
  case (Cons b bs)
  then obtain s1 where "dev_rxd_byte (clk n) b s = Inr s1" "for_each (\<lambda>i. dev_rxd_byte (clk i)) (Suc n) bs s1 = Inr s'"
    by (auto elim: seq_InrE)
  with Cons.IH [of "Suc n" s1] dev_rxd_byte_extends [of "clk n" b s s1] show ?case by auto
qed simp

lemma BytesToFrame_extends:
  assumes "BytesToFrame_on clk bs s = Inr s'"
  shows "\<exists>new. dev_outputs s' = dev_outputs s @ new"
proof -
  obtain s1 where s1: "for_each (\<lambda>i. dev_rxd_byte (clk i)) 0 bs s = Inr s1"
    "(if clk (length bs) - dev_lastFrameFlag s1 > ucast BytesToFrame_frameTimeout
      then seq (dev_toStdout bs s1) (\<lambda>s. Inr (s\<lparr>dev_inputFrame := []\<rparr>)) else Inr s1) = Inr s'"
    using assms by (auto simp: BytesToFrame_on_def dev_handleRxd_def elim: seq_InrE)
  from s1(2) have "\<exists>new. dev_outputs s' = dev_outputs s1 @ new"
    by (auto elim!: seq_InrE split: if_splits dest!: dev_toStdout_extends)
  with dev_rxd_loop_extends [OF s1(1)] show ?thesis by auto
qed

lemma BytesToFrame_run_extends:
  "run_chunks BytesToFrame_on cs s = Inr s' \<Longrightarrow> \<exists>new. dev_outputs s' = dev_outputs s @ new"
proof (induction cs arbitrary: s)
  case (Cons c cs)
  obtain clk bs where c: "c = (clk, bs)" by force
  with Cons.prems obtain s1 where "BytesToFrame_on clk bs s = Inr s1" "run_chunks BytesToFrame_on cs s1 = Inr s'"
    by (auto elim: seq_InrE)
  with Cons.IH [of s1] BytesToFrame_extends [of clk bs s s1] show ?case by auto
qed simp

lemma dev_pipeline_run:
  assumes "run_chunks BytesToFrame_on cs (dev_framer v) = Inr e"
    and "dev_outputs e = dev_outputs (dev_framer v) @ new"
    and "dev_dispatch tc g gi junk t0 now (dev_emitted new) (dev_filters v, dev_broker v) = Inr (fs, d)"
  shows "run_chunks (onRxd tc g gi junk t0 now) cs v =
    Inr (v\<lparr>dev_framer := e, dev_filters := fs, dev_broker := d\<rparr>)"
  using assms
proof (induction cs arbitrary: v new)
  case (Cons c cs)
  obtain clk bs where c: "c = (clk, bs)" by force
  with Cons.prems(1) obtain e1 where
    e1: "BytesToFrame_on clk bs (dev_framer v) = Inr e1" "run_chunks BytesToFrame_on cs e1 = Inr e"
    by (auto elim: seq_InrE)
  then obtain n1 n2 where n: "dev_outputs e1 = dev_outputs (dev_framer v) @ n1" "dev_outputs e = dev_outputs e1 @ n2"
    using BytesToFrame_extends BytesToFrame_run_extends by blast
  with Cons.prems(2) have "new = n1 @ n2" by simp
  with Cons.prems(3) obtain fs1 d1 where
    p1: "dev_dispatch tc g gi junk t0 now (dev_emitted n1) (dev_filters v, dev_broker v) = Inr (fs1, d1)"
      "dev_dispatch tc g gi junk t0 now (dev_emitted n2) (fs1, d1) = Inr (fs, d)"
    by (cases "dev_dispatch tc g gi junk t0 now (dev_emitted n1) (dev_filters v, dev_broker v)")
      (auto simp: dev_dispatch_append)
  have "run_chunks (onRxd tc g gi junk t0 now) cs (v\<lparr>dev_framer := e1, dev_filters := fs1, dev_broker := d1\<rparr>) =
      Inr (v\<lparr>dev_framer := e1, dev_filters := fs1, dev_broker := d1, dev_framer := e, dev_filters := fs, dev_broker := d\<rparr>)"
    by (rule Cons.IH) (use e1 n p1 in simp_all)
  moreover have "onRxd tc g gi junk t0 now clk bs v =
      Inr (v\<lparr>dev_framer := e1, dev_filters := fs1, dev_broker := d1\<rparr>)"
    using e1 n p1 by (simp add: onRxd_def)
  ultimately show ?case
    using c by simp
qed (auto intro!: Device.equality)

section \<open>One message from the line\<close>

lemma device_reads_frame:
  assumes "timely (ucast BytesToFrame_frameTimeout) cs (dev_lastFrameFlag (dev_framer v))"
    and "dev_inputFrame (dev_framer v) = []" and "bs \<noteq> []" and "concat (map snd cs) = ppp_frame bs"
    and "bytesToFrame_on tc g gi junk t0 now bs (dev_filters v, dev_broker v) = Inr (fs, d)"
  shows "\<exists>e. run_chunks (onRxd tc g gi junk t0 now) cs v =
      Inr (v\<lparr>dev_framer := e, dev_filters := fs, dev_broker := d\<rparr>) \<and> dev_inputFrame e = []"
proof -
  from device_delivers [OF assms(1,2), of "[bs]"] assms(3,4) obtain e where
    e: "run_chunks BytesToFrame_on cs (dev_framer v) = Inr e" "dev_inputFrame e = []"
      "dev_outputs e = dev_outputs (dev_framer v) @ map DevEmit [bs]" by auto
  moreover have "dev_dispatch tc g gi junk t0 now (dev_emitted (map DevEmit [bs])) (dev_filters v, dev_broker v) = Inr (fs, d)"
    using assms(5) by (simp add: dev_dispatch_single del: list.map)
  ultimately show ?thesis
    using dev_pipeline_run [OF e(1,3)] by blast
qed

end
