(* ===== verification/Link.thy ===== *)
theory Link
  imports Host Device
begin

text \<open>
  A device and a proxy joined by a serial line: lines that deliver every frame in time, what the
  frames of the device do to the proxy, what a sample becomes on the way back, and a device and a
  line for the witnesses.
\<close>

section \<open>Lines\<close>

text \<open>
  A line that cuts any bytes into chunks, in such a way that no timeout fires after a stream that
  ends with a flag, whenever the flag before it was.
\<close>

definition carries :: "(bytes \<Rightarrow> chunk list) \<Rightarrow> bool" where
  "carries line \<longleftrightarrow> (\<forall>bs. concat (map snd (line bs)) = bs) \<and>
     (\<forall>bs seen. bs \<noteq> [] \<and> last bs = PPP_FLAG_CHAR \<longrightarrow> timely 1000 (line bs) seen)"

lemma frames_end:
  assumes "rs \<noteq> []"
  shows "concat (map ppp_frame rs) \<noteq> [] \<and> last (concat (map ppp_frame rs)) = PPP_FLAG_CHAR"
proof -
  have "ppp_frame r \<noteq> []" "last (ppp_frame r) = PPP_FLAG_CHAR" for r
    by (simp_all add: ppp_frame_body)
  with assms show ?thesis
    by (induction rs rule: rev_induct) simp_all
qed

lemma carries_frames:
  "carries line \<Longrightarrow> rs \<noteq> [] \<Longrightarrow> timely 1000 (line (concat (map ppp_frame rs))) seen"
  "carries line \<Longrightarrow> timely 1000 (line (ppp_frame r)) seen"
  "carries line \<Longrightarrow> concat (map snd (line bs)) = bs"
  using frames_end [of rs] frames_end [of "[r]"] by (simp_all add: carries_def)

lemma timeouts: "(ucast FrameExtractor_frameTimeout :: u64) = 1000" "(ucast BytesToFrame_frameTimeout :: u64) = 1000"
  by (simp_all add: FrameExtractor_frameTimeout_def BytesToFrame_frameTimeout_def)

text \<open>The messages a device registers with.\<close>

definition registration :: "'e BrokerSerial \<Rightarrow> client_message list" where
  "registration d =
     map (\<lambda>r. Subscriber \<lparr>subscriber_id = res_id r, subscriber_topic = res_key r\<rparr>) (dev_subscribers d) @
     map (\<lambda>r. Publisher \<lparr>publisher_id = res_id r, publisher_topic = res_key r\<rparr>) (dev_publishers d)"

lemma registration_items:
  "map client_items (registration d) = map subscriber_items (dev_subscribers d) @ map publisher_items (dev_publishers d)"
  "concat (map reply_items (registration d)) = []"
  by (simp_all add: registration_def comp_def)

lemma encodes_mono: "cbor_encodes tc at c xs bs \<Longrightarrow> c \<le> c' \<Longrightarrow> cbor_encodes tc at c' xs bs"
  by (auto simp: cbor_encodes_def)

text \<open>What a device has sent, on the line of a proxy.\<close>

lemma line_serves_sent:
  assumes "cbor_channel tc open_array at item_size 1024 1024"
    and "message_bytes item_size (items_MsgConnect connected_reply) \<le> 1024"
    and "proxy_ok 1024 1024 (proxy h)" and "inputFrame (bytesToFrame h) = []" and "carries line"
    and "frames_of tc at 100 (map client_items ms) out" and "ms \<noteq> []"
  shows "\<exists>h' replies. run_chunks (serial_incoming tc z junk) (line (concat out)) h = Inr h' \<and>
    proxy_ok 1024 1024 (proxy h') \<and> inputFrame (bytesToFrame h') = [] \<and>
    broker (core (proxy h')) = fold (broker_effect z (forward_sample tc)) ms (broker (core (proxy h))) \<and>
    serial_out (uplink (core (proxy h'))) = serial_out (uplink (core (proxy h))) @ replies \<and>
    frames_of tc at 1024 (concat (map reply_items ms)) replies"
proof -
  from assms(6) obtain rs where rs: "out = map ppp_frame rs" "list_all2 (cbor_encodes tc at 100) (map client_items ms) rs"
    by (auto simp: frames_of_def)
  then have "list_all2 (cbor_encodes tc at 1024) (map client_items ms) rs"
    by (elim list_all2_mono) (simp add: encodes_mono [where c = 100])
  moreover have "rs \<noteq> []"
    using rs(2) assms(7) by auto
  ultimately show ?thesis
    using line_serves [OF assms(1-3) _ assms(4), of "line (concat out)" rs ms z junk]
      carries_frames [OF assms(5)] rs(1) by (auto simp: timeouts)
qed

text \<open>A device that is not connected says hello, and the proxy answers.\<close>

lemma hello_answered:
  assumes "cbor_channel tc open_array at item_size 1024 1024"
    and "message_bytes item_size (items_MsgConnect \<lparr>clientId = brokerSrcPrefix\<rparr>) \<le> 100"
    and "message_bytes item_size (items_MsgConnect connected_reply) \<le> 1024"
    and "ser_capacity (dev_toCbor d) = 100" and "\<not> dev_connected d"
    and "proxy_ok 1024 1024 (proxy h)" and "inputFrame (bytesToFrame h) = []" and "carries up"
  shows "\<exists>d1 out1 h1 bs. on_keepAlive tc g millis d = Inr d1 \<and>
    sends tc at [items_MsgConnect \<lparr>clientId = brokerSrcPrefix\<rparr>] d d1 \<and> serial_written d1 = serial_written d @ out1 \<and>
    run_chunks (serial_incoming tc z junk) (up (concat out1)) h = Inr h1 \<and>
    proxy_ok 1024 1024 (proxy h1) \<and> inputFrame (bytesToFrame h1) = [] \<and>
    broker (core (proxy h1)) = broker_effect z (forward_sample tc) (Connect \<lparr>clientId = brokerSrcPrefix\<rparr>) (broker (core (proxy h))) \<and>
    serial_out (uplink (core (proxy h1))) = serial_out (uplink (core (proxy h))) @ [ppp_frame bs] \<and>
    cbor_encodes tc at 1024 (items_MsgConnect connected_reply) bs"
proof -
  have laws: "tinycbor_laws tc open_array at item_size"
    using assms(1) by (simp add: cbor_channel_def)
  from tinycbor_laws.dev_connect_sends [OF laws assms(2,4)] assms(5) obtain d1 where
    d1: "on_keepAlive tc g millis d = Inr d1" "sends tc at [items_MsgConnect \<lparr>clientId = brokerSrcPrefix\<rparr>] d d1"
    by (auto simp: on_keepAlive_def)
  then obtain out1 where
    out1: "serial_written d1 = serial_written d @ out1"
      "frames_of tc at 100 (map client_items [Connect \<lparr>clientId = brokerSrcPrefix\<rparr>]) out1"
    by (auto simp: sends_def)
  from line_serves_sent [OF assms(1,3,6-8) out1(2), of z junk] obtain h1 out2 where
    h1: "run_chunks (serial_incoming tc z junk) (up (concat out1)) h = Inr h1"
      "proxy_ok 1024 1024 (proxy h1)" "inputFrame (bytesToFrame h1) = []"
      "broker (core (proxy h1)) = broker_effect z (forward_sample tc) (Connect \<lparr>clientId = brokerSrcPrefix\<rparr>) (broker (core (proxy h)))"
      "serial_out (uplink (core (proxy h1))) = serial_out (uplink (core (proxy h))) @ out2"
      "frames_of tc at 1024 [items_MsgConnect connected_reply] out2"
    by auto
  from h1(6) obtain bs where "out2 = [ppp_frame bs]" "cbor_encodes tc at 1024 (items_MsgConnect connected_reply) bs"
    by (auto simp: frames_of_def list_all2_Cons1)
  with d1 out1(1) h1(1-5) show ?thesis by blast
qed

text \<open>The device of \<open>wire_device\<close> and the proxy of \<open>wire_host\<close> on a line of one chunk.\<close>

definition wire_board :: "(wire_encoder, bytes) Device" where
  "wire_board = \<lparr>dev_framer = BytesToFrame_new 0, dev_filters = device_filters_new \<lparr>msgType = 0\<rparr> [],
     dev_broker = wire_device 0\<rparr>"

definition wire_line :: "bytes \<Rightarrow> chunk list" where
  "wire_line bs = [(\<lambda>_. 5, bs)]"

lemma wire_line: "carries wire_line"
proof -
  have "timely 1000 (wire_line bs) seen" if "bs \<noteq> []" "last bs = PPP_FLAG_CHAR" for bs seen
    unfolding wire_line_def using that last_in_set [of bs] by (intro timely_constant) simp
  then show ?thesis
    by (simp add: carries_def wire_line_def)
qed

text \<open>A sample for a subscriber of the proxy, with a value that fits the device's buffer.\<close>

lemma sample_forwards:
  assumes "cbor_channel tc open_array at item_size 1024 1024"
    and "message_bytes item_size (items_MsgPublish \<lparr>publish_id = i, publish_value = v\<rparr>) \<le> 100"
    and "ser_capacity (to_cbor u) = 1024"
  shows "\<exists>u' bs. forward_sample tc i v u = Inr u' \<and> serial_out u' = serial_out u @ [ppp_frame bs] \<and>
    cbor_encodes tc at 100 (items_MsgPublish \<lparr>publish_id = i, publish_value = v\<rparr>) bs"
proof -
  let ?m = "\<lparr>publish_id = i, publish_value = v\<rparr>"
  have "message_bytes item_size (items_MsgPublish ?m) \<le> 1024" using assms(2) by simp
  from cbor_channel.written_publish [OF assms(1) this assms(3)] obtain s' bs where
    "reflect_MsgPublish (ser_reflector tc) ?m (to_cbor u) = Inr (?m, s')" "toBytes s' = Inr bs"
    "cbor_encodes tc at 1024 (items_MsgPublish ?m) bs" "length bs = message_bytes item_size (items_MsgPublish ?m)"
    by blast
  moreover from this(3,4) assms(2) have "cbor_encodes tc at 100 (items_MsgPublish ?m) bs"
    by (simp add: cbor_encodes_def)
  ultimately show ?thesis
    by (auto simp: forward_sample_def toSerialMsg_on_def FrameToBytes_on_def)
qed

end
