(* ===== verification/Loopback.thy ===== *)
theory Loopback
  imports Link
begin

text \<open>
  The loop with which a device watches its proxy: its uptime, published through the proxy to
  zenoh, comes back as a sample of its own subscriber.
\<close>

section \<open>The way up\<close>

lemma uptime_goes_up:
  assumes "cbor_channel tc open_array at item_size 1024 1024"
    and "message_bytes item_size (items_MsgConnect connected_reply) \<le> 1024"
    and "dev_connected d" and "uptime_fits item_size (res_id (uptimePub d)) millis"
    and "proxy_ok 1024 1024 (proxy h)" and "inputFrame (bytesToFrame h) = []" and "carries up"
    and "map_of (publishers (broker (core (proxy h)))) (res_id (uptimePub d)) = Some pub"
  shows "\<exists>bs h1 v. on_keepAlive tc g millis d = Inr (outgoingFrame_on bs d) \<and>
    run_chunks (serial_incoming tc z junk) (up (ppp_frame bs)) h = Inr h1 \<and> proxy_ok 1024 1024 (proxy h1) \<and>
    zn_calls (broker (core (proxy h1))) = zn_calls (broker (core (proxy h))) @
      [ZnWrite (zenoh_session (broker (core (proxy h)))) (pub_reskey pub) v] \<and>
    serial_out (uplink (core (proxy h1))) = serial_out (uplink (core (proxy h))) \<and>
    cbor_encodes tc at 100 (uptime_items millis) v \<and> length v = message_bytes item_size (uptime_items millis)"
proof -
  have laws: "tinycbor_laws tc open_array at item_size"
    using assms(1) by (simp add: cbor_channel_def)
  from tinycbor_laws.dev_publish_sends [OF laws assms(4), of g d] obtain v bs where
    v: "dev_publish tc g (uptimePub d) millis d = Inr (outgoingFrame_on bs d)"
      "cbor_encodes tc at 100 (uptime_items millis) v"
      "cbor_encodes tc at 100 (items_MsgPublish \<lparr>publish_id = res_id (uptimePub d), publish_value = v\<rparr>) bs"
      "length v = message_bytes item_size (uptime_items millis)" by blast
  let ?m = "Publish \<lparr>publish_id = res_id (uptimePub d), publish_value = v\<rparr>"
  have "frames_of tc at 100 (map client_items [?m]) [ppp_frame bs]"
    using v(3) by (simp add: frames_of_single)
  from line_serves_sent [OF assms(1,2,5-7) this, of z junk] obtain h1 where
    h1: "run_chunks (serial_incoming tc z junk) (up (ppp_frame bs)) h = Inr h1" "proxy_ok 1024 1024 (proxy h1)"
      "broker (core (proxy h1)) = broker_effect z (forward_sample tc) ?m (broker (core (proxy h)))"
      "serial_out (uplink (core (proxy h1))) = serial_out (uplink (core (proxy h)))"
    by auto
  have "zn_calls (broker (core (proxy h1))) = zn_calls (broker (core (proxy h))) @
      [ZnWrite (zenoh_session (broker (core (proxy h)))) (pub_reskey pub) v]"
    using h1(3) assms(8) by (simp add: BrokerZenoh_publish_def zn_ask_def)
  then show ?thesis
    using v h1 assms(3) by (auto simp: on_keepAlive_def)
qed

section \<open>The way down\<close>

lemma uptime_sample_flow:
  assumes "cbor_channel tc open_array at item_size 1024 1024"
    and "cbor_encodes tc at 100 (uptime_items sent) v"
    and "cbor_encodes tc at 100 (items_MsgPublish \<lparr>publish_id = i, publish_value = v\<rparr>) bs"
    and "uptime_fits item_size (res_id (latencyPub d)) (fst now - sent)" and "sent < 2 ^ 31"
    and "device_filters 1024 fs"
  shows "\<exists>fs' bs' v'. bytesToFrame_on tc g gi junk t0 now bs (fs, d) =
      Inr (fs', outgoingFrame_on bs' d\<lparr>loopbackReceived := snd now\<rparr>) \<and> device_filters 1024 fs' \<and>
    cbor_encodes tc at 100 (uptime_items (fst now - sent)) v' \<and>
    cbor_encodes tc at 100 (items_MsgPublish \<lparr>publish_id = res_id (latencyPub d), publish_value = v'\<rparr>) bs'"
proof -
  have laws: "tinycbor_laws tc open_array at item_size"
    using assms(1) by (simp add: cbor_channel_def)
  have sent: "read_back t0 sent = sent"
    using assms(5) by (rule read_back_small)
  from tinycbor_laws.dev_loopback [OF laws assms(2,3), of d now t0 g gi junk] assms(4) obtain v' bs' where
    d': "on_incomingPublish tc g gi junk t0 now bs d = Inr (outgoingFrame_on bs' d\<lparr>loopbackReceived := snd now\<rparr>)"
      "cbor_encodes tc at 100 (uptime_items (fst now - sent)) v'"
      "cbor_encodes tc at 100 (items_MsgPublish \<lparr>publish_id = res_id (latencyPub d), publish_value = v'\<rparr>) bs'"
    unfolding sent by blast
  have enc: "cbor_encodes tc at 1024 (CInt (sint B_PUBLISH) # [CInt (sint i), CBytes v]) bs"
    using encodes_mono [OF assms(3), of 1024] by (simp add: items_defs)
  from cbor_channel.device_flow [OF assms(1) enc assms(6), of 0 g gi junk t0 now d] d'(1) obtain fs' where
    "bytesToFrame_on tc g gi junk t0 now bs (fs, d) = Inr (fs', outgoingFrame_on bs' d\<lparr>loopbackReceived := snd now\<rparr>)"
    "device_filters 1024 fs'"
    by (auto simp: dev_filter_types_def dev_handlers_def)
  with d' show ?thesis by blast
qed

lemma uptime_comes_down:
  assumes "cbor_channel tc open_array at item_size 1024 1024"
    and "cbor_encodes tc at 100 (uptime_items sent) v"
    and "cbor_encodes tc at 100 (items_MsgPublish \<lparr>publish_id = i, publish_value = v\<rparr>) bs"
    and "uptime_fits item_size (res_id (latencyPub (dev_broker b))) (fst now - sent)" and "sent < 2 ^ 31"
    and "device_filters 1024 (dev_filters b)" and "dev_inputFrame (dev_framer b) = []" and "carries down"
  shows "\<exists>b' bs' v'. run_chunks (onRxd tc g gi junk t0 now) (down (ppp_frame bs)) b = Inr b' \<and>
    dev_broker b' = outgoingFrame_on bs' (dev_broker b)\<lparr>loopbackReceived := snd now\<rparr> \<and>
    cbor_encodes tc at 100 (uptime_items (fst now - sent)) v' \<and>
    cbor_encodes tc at 100 (items_MsgPublish \<lparr>publish_id = res_id (latencyPub (dev_broker b)), publish_value = v'\<rparr>) bs'"
proof -
  from uptime_sample_flow [OF assms(1-3,4,5,6), of g gi junk t0] obtain fs bs' v' where
    f: "bytesToFrame_on tc g gi junk t0 now bs (dev_filters b, dev_broker b) =
        Inr (fs, outgoingFrame_on bs' (dev_broker b)\<lparr>loopbackReceived := snd now\<rparr>)"
      "cbor_encodes tc at 100 (uptime_items (fst now - sent)) v'"
      "cbor_encodes tc at 100 (items_MsgPublish \<lparr>publish_id = res_id (latencyPub (dev_broker b)), publish_value = v'\<rparr>) bs'"
    by blast
  have "bs \<noteq> []" using assms(3) by (simp add: cbor_encodes_def)
  from device_reads_frame [OF _ assms(7) this _ f(1), of "down (ppp_frame bs)"] show ?thesis
    using f(2,3) carries_frames [OF assms(8)] by (fastforce simp: timeouts)
qed

section \<open>The loop\<close>

text \<open>
  C6: Loopback. A connected device whose uptime publisher is registered with the proxy, on a line
  that delivers every frame in time: its keep-alive timer publishes the uptime, the proxy writes the
  value to the publisher's zenoh resource, and when zenoh hands that value to a subscriber of the
  proxy, the proxy sends it back to the device, which notes the time of the loopback and publishes the
  difference of its clock to the time sent. The connect timer then keeps the connection for the
  five seconds that follow.
\<close>

theorem uptime_loops_back:
  assumes "cbor_channel tc open_array at item_size 1024 1024"
    and "message_bytes item_size (items_MsgConnect connected_reply) \<le> 1024"
    and "dev_connected (dev_broker v)" and "sent < 2 ^ 31"
    and "uptime_fits item_size (res_id (uptimePub (dev_broker v))) sent"
    and "uptime_fits item_size (res_id (latencyPub (dev_broker v))) (fst now - sent)"
    and "device_filters 1024 (dev_filters v)" and "dev_inputFrame (dev_framer v) = []"
    and "proxy_ok 1024 1024 (proxy h)" and "inputFrame (bytesToFrame h) = []"
    and "carries up" and "carries down"
    and "map_of (publishers (broker (core (proxy h)))) (res_id (uptimePub (dev_broker v))) = Some pub"
    and "sub_callback sub = forward_sample tc" and "uptime_fits item_size (sub_id sub) sent"
  shows "\<exists>d1 up1 h1 sample u down1 v2 latency answer.
    on_keepAlive tc g sent (dev_broker v) = Inr d1 \<and>
    serial_written d1 = serial_written (dev_broker v) @ [up1] \<and>
    run_chunks (serial_incoming tc z junk) (up up1) h = Inr h1 \<and>
    zn_calls (broker (core (proxy h1))) = zn_calls (broker (core (proxy h))) @
      [ZnWrite (zenoh_session (broker (core (proxy h)))) (pub_reskey pub) sample] \<and>
    subscribeHandler sample sub (uplink (core (proxy h1))) = Inr u \<and>
    serial_out u = serial_out (uplink (core (proxy h))) @ [down1] \<and>
    run_chunks (onRxd tc g gi junk t0 now) (down down1) (v\<lparr>dev_broker := d1\<rparr>) = Inr v2 \<and>
    loopbackReceived (dev_broker v2) = snd now \<and>
    serial_written (dev_broker v2) = serial_written d1 @ [ppp_frame answer] \<and>
    cbor_encodes tc at 100 (uptime_items (fst now - sent)) latency \<and>
    cbor_encodes tc at 100
      (items_MsgPublish \<lparr>publish_id = res_id (latencyPub (dev_broker v)), publish_value = latency\<rparr>) answer \<and>
    (\<forall>t. t - snd now \<le> 5000 \<longrightarrow> dev_connected (on_connectTimer t (dev_broker v2)))"
proof -
  from uptime_goes_up [OF assms(1-3,5,9-11,13), of g z junk] obtain bs h1 sample where
    u1: "on_keepAlive tc g sent (dev_broker v) = Inr (outgoingFrame_on bs (dev_broker v))"
      "run_chunks (serial_incoming tc z junk) (up (ppp_frame bs)) h = Inr h1" "proxy_ok 1024 1024 (proxy h1)"
      "zn_calls (broker (core (proxy h1))) = zn_calls (broker (core (proxy h))) @
        [ZnWrite (zenoh_session (broker (core (proxy h)))) (pub_reskey pub) sample]"
      "serial_out (uplink (core (proxy h1))) = serial_out (uplink (core (proxy h)))"
      "cbor_encodes tc at 100 (uptime_items sent) sample" "length sample = message_bytes item_size (uptime_items sent)"
    by blast
  have fits: "message_bytes item_size (items_MsgPublish \<lparr>publish_id = sub_id sub, publish_value = sample\<rparr>) \<le> 100"
    using assms(15) u1(7) by (simp add: uptime_fits_def)
  have "ser_capacity (to_cbor (uplink (core (proxy h1)))) = 1024"
    using u1(3) by (simp add: proxy_ok_def core_ok_def)
  from sample_forwards [OF assms(1) fits this] obtain u bs2 where
    d1: "subscribeHandler sample sub (uplink (core (proxy h1))) = Inr u"
      "serial_out u = serial_out (uplink (core (proxy h))) @ [ppp_frame bs2]"
      "cbor_encodes tc at 100 (items_MsgPublish \<lparr>publish_id = sub_id sub, publish_value = sample\<rparr>) bs2"
    using assms(14) u1(5) by (auto simp: subscribeHandler_def)
  let ?b = "v\<lparr>dev_broker := outgoingFrame_on bs (dev_broker v)\<rparr>"
  have b: "latencyPub (dev_broker ?b) = latencyPub (dev_broker v)" "dev_filters ?b = dev_filters v"
    "dev_framer ?b = dev_framer v" "dev_connected (dev_broker ?b)"
    using assms(3) by (simp_all add: outgoingFrame_on_def)
  from uptime_comes_down [OF assms(1) u1(6) d1(3), of ?b now down g gi junk t0] assms(4,6-8,12) obtain v2 answer latency where
    d2: "run_chunks (onRxd tc g gi junk t0 now) (down (ppp_frame bs2)) ?b = Inr v2"
      "dev_broker v2 = outgoingFrame_on answer (dev_broker ?b)\<lparr>loopbackReceived := snd now\<rparr>"
      "cbor_encodes tc at 100 (uptime_items (fst now - sent)) latency"
      "cbor_encodes tc at 100
        (items_MsgPublish \<lparr>publish_id = res_id (latencyPub (dev_broker v)), publish_value = latency\<rparr>) answer"
    unfolding b by blast
  have "dev_connected (on_connectTimer t (dev_broker v2))" if "t - snd now \<le> 5000" for t
    using that b(4) by (simp add: on_connectTimer_def d2(2) not_less [symmetric])
  then show ?thesis
    using u1 d1 d2 by (intro exI [of _ "outgoingFrame_on bs (dev_broker v)"] exI [of _ "ppp_frame bs"] exI [of _ h1]
        exI [of _ sample] exI [of _ u] exI [of _ "ppp_frame bs2"] exI [of _ v2] exI [of _ latency] exI [of _ answer])
      (simp add: outgoingFrame_on_def)
qed

text \<open>A connected device and a proxy that knows its uptime publisher.\<close>

definition online_board :: "(wire_encoder, bytes) Device" where
  "online_board = wire_board\<lparr>dev_broker := (wire_device 0)\<lparr>dev_connected := True\<rparr>\<rparr>"

definition online_host :: "(wire_encoder, bytes) Host" where
  "online_host = wire_host\<lparr>proxy := (proxy wire_host)\<lparr>core := (core (proxy wire_host))\<lparr>
     broker := (broker (core (proxy wire_host)))\<lparr>publishers :=
       [(res_id (uptimePub (wire_device 0)), \<lparr>pub_id = 0, pub_key = [], pub_reskey = Rid 9, zn_publisher = 2\<rparr>)]\<rparr>\<rparr>\<rparr>\<rparr>"

definition online_sub :: "wire_encoder forward Sub" where
  "online_sub = \<lparr>sub_id = 2, sub_key = [], sub_callback = forward_sample wire, zn_subscriber = 1\<rparr>"

lemma online_host: "proxy_ok 1024 1024 (proxy online_host)" "inputFrame (bytesToFrame online_host) = []"
    "map_of (publishers (broker (core (proxy online_host)))) (res_id (uptimePub (dev_broker online_board))) =
      Some \<lparr>pub_id = 0, pub_key = [], pub_reskey = Rid 9, zn_publisher = 2\<rparr>"
  using wire_host_ok by (simp_all add: online_host_def online_board_def proxy_ok_def core_ok_def)

lemma online_board: "dev_connected (dev_broker online_board)" "device_filters 1024 (dev_filters online_board)"
    "dev_inputFrame (dev_framer online_board) = []"
  by (simp_all add: online_board_def wire_board_def BytesToFrame_new_def)

lemma uptime_loops_back_witness:
  "\<exists>d1 up1 h1 sample u down1 v2.
    on_keepAlive wire (0, [], False) 5000 (dev_broker online_board) = Inr d1 \<and>
    run_chunks (serial_incoming wire numbering_zenoh 0) (wire_line up1) online_host = Inr h1 \<and>
    subscribeHandler sample online_sub (uplink (core (proxy h1))) = Inr u \<and>
    run_chunks (onRxd wire (0, [], False) [] 0 0 (5010 :: u64, 5011)) (wire_line down1) (online_board\<lparr>dev_broker := d1\<rparr>) = Inr v2 \<and>
    loopbackReceived (dev_broker v2) = 5011"
proof -
  have s: "(5000 :: u64) < 2 ^ 31" "sub_callback online_sub = forward_sample wire" by (simp_all add: online_sub_def)
  from uptime_loops_back [OF wire.cbor_channel_axioms connected_fits online_board(1) s(1) wire_uptime_fits wire_uptime_fits
      online_board(2,3) online_host(1,2) wire_line wire_line online_host(3) s(2) wire_uptime_fits,
      of "(0, [], False)" numbering_zenoh 0 "[]" 0 "(5010, 5011)"]
  show ?thesis unfolding snd_conv by blast
qed

end
