(* ===== verification/Whole_System.thy ===== *)
theory Whole_System
  imports Loopback
begin

text \<open>
  The device and the proxy as one system: each end with its state, the frames that are under way on
  the line in either direction, and the events that make it go on - the timers of the device, the
  line delivering what is under way or losing some of the frames, zenoh handing a sample to a subscriber of the proxy, and the
  restarts of the two: when the proxy restarts, what is under way is lost; when the device restarts, it still arrives. The operations are those of the two ends; this theory adds only the line.
\<close>

section \<open>State and events\<close>

text \<open>
  What the system runs in: the libraries, the two directions of the line, and what uninitialised
  variables on the stack hold.
\<close>

record ('e, 'i) surroundings =
  codec :: "('e, 'i) tinycbor"
  zenoh_lib :: "'e forward Sub zenoh"
  line_up :: "bytes \<Rightarrow> chunk list"
  line_down :: "bytes \<Rightarrow> chunk list"
  stack_encoder :: 'e
  stack_parser :: 'i
  stack_int :: c_int
  stack_time :: u64

record ('e, 'i) System =
  board :: "('e, 'i) Device"
  host :: "('e, 'i) Host"
  going_up :: "bytes list"
  going_down :: "bytes list"

datatype ('e, 'i) system_event =
    KeepAliveTick u64
  | ConnectTick u64
  | ArriveUp
  | ArriveDown "u64 \<times> u64"
  | ZenohSample c_int bytes
  | ProxyRestart "('e, 'i) Host"
  | BoardRestart "('e, 'i) Device"
  | FramesLost "nat set" "nat set"

abbreviation host_broker :: "('e, 'i) System \<Rightarrow> 'e forward BrokerZenoh" where
  "host_broker s \<equiv> broker (core (proxy (host s)))"

abbreviation host_uplink :: "('e, 'i) Host \<Rightarrow> 'e Uplink" where
  "host_uplink h \<equiv> uplink (core (proxy h))"

definition set_uplink :: "'e Uplink \<Rightarrow> ('e, 'i) Host \<Rightarrow> ('e, 'i) Host" where
  "set_uplink u h = h\<lparr>proxy := (proxy h)\<lparr>core := (core (proxy h))\<lparr>uplink := u\<rparr>\<rparr>\<rparr>"

definition set_board :: "('e, 'i) Device \<Rightarrow> ('e, 'i) System \<Rightarrow> ('e, 'i) System" where
  "set_board b s = s\<lparr>board := b,
     going_up := going_up s @ drop (length (serial_written (dev_broker (board s)))) (serial_written (dev_broker b))\<rparr>"

definition set_host :: "('e, 'i) Host \<Rightarrow> ('e, 'i) System \<Rightarrow> ('e, 'i) System" where
  "set_host h s = s\<lparr>host := h,
     going_down := going_down s @ drop (length (serial_out (host_uplink (host s)))) (serial_out (host_uplink h))\<rparr>"

fun system_step ::
    "('e, 'i) surroundings \<Rightarrow> ('e, 'i) system_event \<Rightarrow> ('e, 'i) System \<Rightarrow> ('e, 'i) System outcome" where
  "system_step env (KeepAliveTick t) s =
     seq (on_keepAlive (codec env) (stack_encoder env) t (dev_broker (board s))) (\<lambda>d.
       Inr (set_board ((board s)\<lparr>dev_broker := d\<rparr>) s))"
| "system_step env (ConnectTick t) s =
     Inr (set_board ((board s)\<lparr>dev_broker := on_connectTimer t (dev_broker (board s))\<rparr>) s)"
| "system_step env ArriveUp s =
     seq (run_chunks (serial_incoming (codec env) (zenoh_lib env) (stack_int env))
           (line_up env (concat (going_up s))) (host s)) (\<lambda>h.
       Inr (set_host h (s\<lparr>going_up := []\<rparr>)))"
| "system_step env (ArriveDown now) s =
     seq (run_chunks (onRxd (codec env) (stack_encoder env) (stack_parser env) (stack_int env) (stack_time env) now)
           (line_down env (concat (going_down s))) (board s)) (\<lambda>b.
       Inr (set_board b (s\<lparr>going_down := []\<rparr>)))"
| "system_step env (ZenohSample i v) s =
     (case map_of (subscribers (host_broker s)) i of
        None \<Rightarrow> Inr s
      | Some sub \<Rightarrow> seq (subscribeHandler v sub (host_uplink (host s))) (\<lambda>u.
          Inr (set_host (set_uplink u (host s)) s)))"
| "system_step env (ProxyRestart h) s = Inr (s\<lparr>host := h, going_up := [], going_down := []\<rparr>)"
| "system_step env (BoardRestart b) s = Inr (s\<lparr>board := b\<rparr>)"
| "system_step env (FramesLost up down) s =
     Inr (s\<lparr>going_up := nths (going_up s) (- up), going_down := nths (going_down s) (- down)\<rparr>)"

fun system_run ::
    "('e, 'i) surroundings \<Rightarrow> ('e, 'i) system_event list \<Rightarrow> ('e, 'i) System \<Rightarrow> ('e, 'i) System outcome" where
  "system_run env [] s = Inr s"
| "system_run env (e # es) s = seq (system_step env e s) (system_run env es)"

lemma system_run_append: "system_run env (es @ es') s = seq (system_run env es s) (system_run env es')"
proof (induction es arbitrary: s)
  case (Cons e es)
  then show ?case by (cases "system_step env e s") simp_all
qed simp

section \<open>Conditions\<close>

definition surroundings_ok :: "('e, 'i) surroundings \<Rightarrow>
    (nat \<Rightarrow> cbor_item list \<Rightarrow> 'e \<Rightarrow> 'e \<Rightarrow> bool) \<Rightarrow> (cbor_item list \<Rightarrow> 'i \<Rightarrow> bool) \<Rightarrow> (cbor_item \<Rightarrow> nat) \<Rightarrow> bool" where
  "surroundings_ok env open_array at item_size \<longleftrightarrow>
     cbor_channel (codec env) open_array at item_size 1024 1024 \<and> carries (line_up env) \<and> carries (line_down env) \<and>
     message_bytes item_size (items_MsgConnect \<lparr>clientId = brokerSrcPrefix\<rparr>) \<le> 100 \<and>
     message_bytes item_size (items_MsgConnect connected_reply) \<le> 1024"

definition board_ok :: "('e, 'i) Device \<Rightarrow> bool" where
  "board_ok b \<longleftrightarrow> device_filters 1024 (dev_filters b) \<and> dev_inputFrame (dev_framer b) = [] \<and>
     ser_capacity (dev_toCbor (dev_broker b)) = 100"

definition host_ok :: "('e, 'i) Host \<Rightarrow> bool" where
  "host_ok h \<longleftrightarrow> proxy_ok 1024 1024 (proxy h) \<and> inputFrame (bytesToFrame h) = []"

text \<open>Nothing is under way.\<close>

definition quiet :: "('e, 'i) System \<Rightarrow> bool" where
  "quiet s \<longleftrightarrow> board_ok (board s) \<and> host_ok (host s) \<and> going_up s = [] \<and> going_down s = []"

definition registration_fits :: "(cbor_item \<Rightarrow> nat) \<Rightarrow> 'e BrokerSerial \<Rightarrow> bool" where
  "registration_fits item_size d \<longleftrightarrow>
     list_all (\<lambda>r. message_bytes item_size (subscriber_items r) \<le> 100) (dev_subscribers d) \<and>
     list_all (\<lambda>r. message_bytes item_size (publisher_items r) \<le> 100) (dev_publishers d)"

definition same_resources :: "'e BrokerSerial \<Rightarrow> 'e BrokerSerial \<Rightarrow> bool" where
  "same_resources d d' \<longleftrightarrow> dev_publishers d' = dev_publishers d \<and> dev_subscribers d' = dev_subscribers d \<and>
     uptimePub d' = uptimePub d \<and> latencyPub d' = latencyPub d \<and> uptimeSub d' = uptimeSub d"

lemma same_resources_sends: "sends tc at xss d d' \<Longrightarrow> same_resources d d'"
  by (auto simp: sends_def same_resources_def)

section \<open>Frames on the line\<close>

text \<open>What the device has sent arrives, and is served in order.\<close>

lemma arrive_up:
  assumes "surroundings_ok env open_array at item_size" "host_ok (host s)" "going_down s = []"
    and "frames_of (codec env) at 100 (map client_items ms) (going_up s)" "ms \<noteq> []"
  shows "\<exists>s'. system_step env ArriveUp s = Inr s' \<and> board s' = board s \<and> host_ok (host s') \<and> going_up s' = [] \<and>
    host_broker s' = fold (broker_effect (zenoh_lib env) (forward_sample (codec env))) ms (host_broker s) \<and>
    frames_of (codec env) at 1024 (concat (map reply_items ms)) (going_down s')"
proof -
  from line_serves_sent [OF _ _ _ _ _ assms(4,5), of open_array item_size "host s" "line_up env" "zenoh_lib env" "stack_int env"]
    assms(1,2) obtain h' replies where
    "run_chunks (serial_incoming (codec env) (zenoh_lib env) (stack_int env)) (line_up env (concat (going_up s))) (host s) = Inr h'"
    "proxy_ok 1024 1024 (proxy h')" "inputFrame (bytesToFrame h') = []"
    "broker (core (proxy h')) = fold (broker_effect (zenoh_lib env) (forward_sample (codec env))) ms (host_broker s)"
    "serial_out (host_uplink h') = serial_out (host_uplink (host s)) @ replies"
    "frames_of (codec env) at 1024 (concat (map reply_items ms)) replies"
    by (auto simp: surroundings_ok_def host_ok_def)
  then show ?thesis
    using assms(3) by (simp add: set_host_def host_ok_def)
qed

lemma arrive_down:
  assumes "surroundings_ok env open_array at item_size" "board_ok (board s)" "going_up s = []"
    and "going_down s = [ppp_frame bs]" "bs \<noteq> []"
    and "bytesToFrame_on (codec env) (stack_encoder env) (stack_parser env) (stack_int env) (stack_time env) now bs
      (dev_filters (board s), dev_broker (board s)) = Inr (fs, d)"
    and "device_filters 1024 fs" "ser_capacity (dev_toCbor d) = 100"
    and "serial_written d = serial_written (dev_broker (board s)) @ out"
  shows "\<exists>s'. system_step env (ArriveDown now) s = Inr s' \<and> host s' = host s \<and> board_ok (board s') \<and>
    dev_broker (board s') = d \<and> going_down s' = [] \<and> going_up s' = out"
proof -
  have line: "carries (line_down env)" "dev_inputFrame (dev_framer (board s)) = []"
    using assms(1,2) by (simp_all add: surroundings_ok_def board_ok_def)
  have "timely (ucast BytesToFrame_frameTimeout) (line_down env (ppp_frame bs)) (dev_lastFrameFlag (dev_framer (board s)))"
    "concat (map snd (line_down env (ppp_frame bs))) = ppp_frame bs"
    using line(1) by (simp_all only: timeouts carries_frames)
  from device_reads_frame [OF this(1) line(2) assms(5) this(2) assms(6)] obtain e where
    "run_chunks (onRxd (codec env) (stack_encoder env) (stack_parser env) (stack_int env) (stack_time env) now)
      (line_down env (ppp_frame bs)) (board s) = Inr ((board s)\<lparr>dev_framer := e, dev_filters := fs, dev_broker := d\<rparr>)"
    "dev_inputFrame e = []" by blast
  then show ?thesis
    using assms(3,4,7-9) by (simp add: set_board_def board_ok_def)
qed

section \<open>Registering\<close>

lemma sends_keeps_more:
  assumes "sends tc at xss d d'"
  shows "uptimePub d' = uptimePub d" "latencyPub d' = latencyPub d" "uptimeSub d' = uptimeSub d"
    "loopbackReceived d' = loopbackReceived d"
  using assms by (auto simp: sends_def)

text \<open>A device that is not connected says hello, and the proxy answers.\<close>

lemma system_says_hello:
  assumes "surroundings_ok env open_array at item_size" "quiet s" "\<not> dev_connected (dev_broker (board s))"
  shows "\<exists>s' bs. system_run env [KeepAliveTick t, ArriveUp] s = Inr s' \<and> board_ok (board s') \<and> host_ok (host s') \<and>
    sends (codec env) at [items_MsgConnect \<lparr>clientId = brokerSrcPrefix\<rparr>] (dev_broker (board s)) (dev_broker (board s')) \<and>
    going_up s' = [] \<and> going_down s' = [ppp_frame bs] \<and>
    cbor_encodes (codec env) at 1024 (items_MsgConnect connected_reply) bs \<and>
    host_broker s' = broker_effect (zenoh_lib env) (forward_sample (codec env))
      (Connect \<lparr>clientId = brokerSrcPrefix\<rparr>) (host_broker s)"
proof -
  let ?d = "dev_broker (board s)" and ?hello = "Connect \<lparr>clientId = brokerSrcPrefix\<rparr>"
  have laws: "tinycbor_laws (codec env) open_array at item_size"
    and hello: "message_bytes item_size (items_MsgConnect \<lparr>clientId = brokerSrcPrefix\<rparr>) \<le> 100"
    using assms(1) by (simp_all add: surroundings_ok_def cbor_channel_def)
  have q: "board_ok (board s)" "host_ok (host s)" "going_up s = []" "going_down s = []" "ser_capacity (dev_toCbor ?d) = 100"
    using assms(2) by (simp_all add: quiet_def board_ok_def)
  from tinycbor_laws.dev_connect_sends [OF laws hello q(5)] obtain d1 where
    d1: "on_keepAlive (codec env) (stack_encoder env) t ?d = Inr d1"
      "sends (codec env) at [items_MsgConnect \<lparr>clientId = brokerSrcPrefix\<rparr>] ?d d1"
    using assms(3) by (auto simp: on_keepAlive_def)
  let ?s1 = "set_board ((board s)\<lparr>dev_broker := d1\<rparr>) s"
  have s1: "frames_of (codec env) at 100 (map client_items [?hello]) (going_up ?s1)" "going_down ?s1 = []"
    "host ?s1 = host s" "board ?s1 = (board s)\<lparr>dev_broker := d1\<rparr>"
    using d1(2) q by (auto simp: set_board_def sends_def)
  from arrive_up [OF assms(1) _ s1(2,1)] q(2) s1(3,4) obtain s2 where
    s2: "system_step env ArriveUp ?s1 = Inr s2" "board s2 = (board s)\<lparr>dev_broker := d1\<rparr>" "host_ok (host s2)"
      "going_up s2 = []"
      "host_broker s2 = broker_effect (zenoh_lib env) (forward_sample (codec env)) ?hello (host_broker s)"
      "frames_of (codec env) at 1024 [items_MsgConnect connected_reply] (going_down s2)" by auto
  from s2(6) obtain bs where
    "going_down s2 = [ppp_frame bs]" "cbor_encodes (codec env) at 1024 (items_MsgConnect connected_reply) bs"
    by (auto simp: frames_of_def list_all2_Cons1)
  moreover have "board_ok (board s2)"
    using s2(2) q(1) sends_keeps(1) [OF d1(2)] by (simp add: board_ok_def)
  ultimately show ?thesis
    using d1 s2 by (intro exI [of _ s2] exI [of _ bs]) simp
qed

text \<open>The answer makes it register.\<close>

lemma system_takes_answer:
  assumes "surroundings_ok env open_array at item_size" "board_ok (board s)" "host_ok (host s)"
    and "going_up s = []" "going_down s = [ppp_frame bs]"
    and "cbor_encodes (codec env) at 1024 (items_MsgConnect connected_reply) bs"
    and "registration_fits item_size (dev_broker (board s))" "registration (dev_broker (board s)) \<noteq> []"
  shows "\<exists>s'. system_run env [ArriveDown now, ArriveUp] s = Inr s' \<and> quiet s' \<and>
    dev_connected (dev_broker (board s')) \<and> same_resources (dev_broker (board s)) (dev_broker (board s')) \<and>
    loopbackReceived (dev_broker (board s')) = loopbackReceived (dev_broker (board s)) \<and>
    host_broker s' = fold (broker_effect (zenoh_lib env) (forward_sample (codec env)))
      (registration (dev_broker (board s))) (host_broker s)"
proof -
  let ?d = "dev_broker (board s)"
  let ?xs = "map subscriber_items (dev_subscribers ?d) @ map publisher_items (dev_publishers ?d)"
  have ch: "cbor_channel (codec env) open_array at item_size 1024 1024"
    using assms(1) by (simp add: surroundings_ok_def)
  have b: "ser_capacity (dev_toCbor ?d) = 100" "device_filters 1024 (dev_filters (board s))" "bs \<noteq> []"
    using assms(2,6) by (simp_all add: board_ok_def cbor_encodes_def)
  from registers_on_connect [OF ch _ _ b(1,2) assms(6), of "stack_encoder env" "stack_parser env" "stack_int env"
      "stack_time env" now] assms(7) obtain fs d where
    d: "bytesToFrame_on (codec env) (stack_encoder env) (stack_parser env) (stack_int env) (stack_time env) now bs
      (dev_filters (board s), ?d) = Inr (fs, d)" "device_filters 1024 fs" "dev_connected d"
      "sends (codec env) at ?xs (set_connected True ?d) d"
    by (auto simp: registration_fits_def)
  from d(4) obtain out where
    out: "serial_written d = serial_written ?d @ out" "frames_of (codec env) at 100 ?xs out" by (auto simp: sends_def)
  have cap: "ser_capacity (dev_toCbor d) = 100" using sends_keeps(1) [OF d(4)] b(1) by simp
  from arrive_down [OF assms(1,2,4,5) b(3) d(1,2) cap out(1)] obtain s1 where
    s1: "system_step env (ArriveDown now) s = Inr s1" "host s1 = host s" "board_ok (board s1)"
      "dev_broker (board s1) = d" "going_down s1 = []" "going_up s1 = out" by blast
  have "frames_of (codec env) at 100 (map client_items (registration ?d)) (going_up s1)" "host_ok (host s1)"
    using out(2) s1(2,6) assms(3) by (simp_all add: registration_items)
  from arrive_up [OF assms(1) this(2) s1(5) this(1) assms(8)] obtain s2 where
    s2: "system_step env ArriveUp s1 = Inr s2" "board s2 = board s1" "host_ok (host s2)" "going_up s2 = []"
      "host_broker s2 = fold (broker_effect (zenoh_lib env) (forward_sample (codec env))) (registration ?d) (host_broker s1)"
      "going_down s2 = []" by (auto simp: registration_items)
  show ?thesis
    by (rule exI [of _ s2]) (use s1 s2 d(3) sends_keeps [OF d(4)] sends_keeps_more [OF d(4)] in
      \<open>simp add: quiet_def same_resources_def\<close>)
qed

lemma system_registers:
  assumes "surroundings_ok env open_array at item_size" "quiet s" "\<not> dev_connected (dev_broker (board s))"
    and "registration_fits item_size (dev_broker (board s))" "registration (dev_broker (board s)) \<noteq> []"
  shows "\<exists>s'. system_run env [KeepAliveTick t, ArriveUp, ArriveDown now, ArriveUp] s = Inr s' \<and> quiet s' \<and>
    dev_connected (dev_broker (board s')) \<and> same_resources (dev_broker (board s)) (dev_broker (board s')) \<and>
    loopbackReceived (dev_broker (board s')) = loopbackReceived (dev_broker (board s)) \<and>
    host_broker s' = fold (broker_effect (zenoh_lib env) (forward_sample (codec env)))
      (Connect \<lparr>clientId = brokerSrcPrefix\<rparr> # registration (dev_broker (board s))) (host_broker s)"
proof -
  from system_says_hello [OF assms(1-3), of t] obtain s1 bs where
    s1: "system_run env [KeepAliveTick t, ArriveUp] s = Inr s1" "board_ok (board s1)" "host_ok (host s1)"
      "sends (codec env) at [items_MsgConnect \<lparr>clientId = brokerSrcPrefix\<rparr>] (dev_broker (board s)) (dev_broker (board s1))"
      "going_up s1 = []" "going_down s1 = [ppp_frame bs]"
      "cbor_encodes (codec env) at 1024 (items_MsgConnect connected_reply) bs"
      "host_broker s1 = broker_effect (zenoh_lib env) (forward_sample (codec env))
        (Connect \<lparr>clientId = brokerSrcPrefix\<rparr>) (host_broker s)" by blast
  note keeps = sends_keeps [OF s1(4)] sends_keeps_more [OF s1(4)]
  have same: "registration (dev_broker (board s1)) = registration (dev_broker (board s))"
    "registration_fits item_size (dev_broker (board s1)) = registration_fits item_size (dev_broker (board s))"
    by (simp_all add: registration_def registration_fits_def keeps)
  from system_takes_answer [OF assms(1) s1(2,3,5-7), of now] assms(4,5) obtain s2 where
    s2: "system_run env [ArriveDown now, ArriveUp] s1 = Inr s2" "quiet s2" "dev_connected (dev_broker (board s2))"
      "same_resources (dev_broker (board s1)) (dev_broker (board s2))"
      "loopbackReceived (dev_broker (board s2)) = loopbackReceived (dev_broker (board s1))"
      "host_broker s2 = fold (broker_effect (zenoh_lib env) (forward_sample (codec env)))
        (registration (dev_broker (board s))) (host_broker s1)"
    unfolding same by blast
  have "system_run env [KeepAliveTick t, ArriveUp, ArriveDown now, ArriveUp] s = Inr s2"
    using s1(1) s2(1) system_run_append [of env "[KeepAliveTick t, ArriveUp]" "[ArriveDown now, ArriveUp]" s] by simp
  with s1(8) s2 show ?thesis
    by (intro exI [of _ s2]) (simp add: same_resources_def keeps)
qed

section \<open>Looping\<close>

text \<open>The keep-alive of a connected device is a publish message with its uptime.\<close>

lemma system_sends_uptime:
  assumes "surroundings_ok env open_array at item_size" "quiet s" "dev_connected (dev_broker (board s))"
    and "uptime_fits item_size (res_id (uptimePub (dev_broker (board s)))) sent"
  shows "\<exists>s' v bs. system_run env [KeepAliveTick sent, ArriveUp] s = Inr s' \<and> quiet s' \<and>
    dev_broker (board s') = outgoingFrame_on bs (dev_broker (board s)) \<and>
    host_broker s' = broker_effect (zenoh_lib env) (forward_sample (codec env))
      (Publish \<lparr>publish_id = res_id (uptimePub (dev_broker (board s))), publish_value = v\<rparr>) (host_broker s) \<and>
    cbor_encodes (codec env) at 100 (uptime_items sent) v \<and> length v = message_bytes item_size (uptime_items sent)"
proof -
  let ?d = "dev_broker (board s)"
  have laws: "tinycbor_laws (codec env) open_array at item_size"
    using assms(1) by (simp add: surroundings_ok_def cbor_channel_def)
  have q: "board_ok (board s)" "host_ok (host s)" "going_up s = []" "going_down s = []"
    using assms(2) by (simp_all add: quiet_def)
  from tinycbor_laws.dev_publish_sends [OF laws assms(4), of "stack_encoder env" ?d] obtain v bs where
    v: "dev_publish (codec env) (stack_encoder env) (uptimePub ?d) sent ?d = Inr (outgoingFrame_on bs ?d)"
      "cbor_encodes (codec env) at 100 (uptime_items sent) v"
      "cbor_encodes (codec env) at 100 (items_MsgPublish \<lparr>publish_id = res_id (uptimePub ?d), publish_value = v\<rparr>) bs"
      "length v = message_bytes item_size (uptime_items sent)" by blast
  let ?m = "Publish \<lparr>publish_id = res_id (uptimePub ?d), publish_value = v\<rparr>"
  let ?s1 = "set_board ((board s)\<lparr>dev_broker := outgoingFrame_on bs ?d\<rparr>) s"
  have s1: "frames_of (codec env) at 100 (map client_items [?m]) (going_up ?s1)" "going_down ?s1 = []" "host ?s1 = host s"
    "board ?s1 = (board s)\<lparr>dev_broker := outgoingFrame_on bs ?d\<rparr>"
    using v(3) q by (simp_all add: set_board_def outgoingFrame_on_def frames_of_single)
  from arrive_up [OF assms(1) _ s1(2,1)] q(2) s1(3,4) obtain s2 where
    s2: "system_step env ArriveUp ?s1 = Inr s2" "board s2 = (board s)\<lparr>dev_broker := outgoingFrame_on bs ?d\<rparr>"
      "host_ok (host s2)" "going_up s2 = []" "going_down s2 = []"
      "host_broker s2 = broker_effect (zenoh_lib env) (forward_sample (codec env)) ?m (host_broker s)" by auto
  have "board_ok (board s2)" using q(1) s2(2) by (simp add: board_ok_def outgoingFrame_on_def)
  then show ?thesis
    using v s2 assms(3) by (intro exI [of _ s2] exI [of _ v] exI [of _ bs]) (simp add: on_keepAlive_def quiet_def)
qed

text \<open>With a proxy that knows the publisher it is a write to zenoh.\<close>

lemma system_publishes_uptime:
  assumes "surroundings_ok env open_array at item_size" "quiet s" "dev_connected (dev_broker (board s))"
    and "uptime_fits item_size (res_id (uptimePub (dev_broker (board s)))) sent"
    and "map_of (publishers (host_broker s)) (res_id (uptimePub (dev_broker (board s)))) = Some pub"
  shows "\<exists>s' v bs. system_run env [KeepAliveTick sent, ArriveUp] s = Inr s' \<and> quiet s' \<and>
    dev_broker (board s') = outgoingFrame_on bs (dev_broker (board s)) \<and>
    host_broker s' = (host_broker s)\<lparr>zn_calls := zn_calls (host_broker s) @
      [ZnWrite (zenoh_session (host_broker s)) (pub_reskey pub) v]\<rparr> \<and>
    cbor_encodes (codec env) at 100 (uptime_items sent) v \<and> length v = message_bytes item_size (uptime_items sent)"
  using system_sends_uptime [OF assms(1-4)] assms(5)
  by (auto simp: BrokerZenoh_publish_def zn_ask_def)

text \<open>The sample on its way down.\<close>

lemma system_forwards_sample:
  assumes "surroundings_ok env open_array at item_size" "quiet s"
    and "map_of (subscribers (host_broker s)) i = Some sub" "sub_callback sub = forward_sample (codec env)"
    and "message_bytes item_size (items_MsgPublish \<lparr>publish_id = sub_id sub, publish_value = v\<rparr>) \<le> 100"
  shows "\<exists>s' bs. system_step env (ZenohSample i v) s = Inr s' \<and> board s' = board s \<and> host_ok (host s') \<and>
    host_broker s' = host_broker s \<and> going_up s' = [] \<and> going_down s' = [ppp_frame bs] \<and>
    cbor_encodes (codec env) at 100 (items_MsgPublish \<lparr>publish_id = sub_id sub, publish_value = v\<rparr>) bs"
proof -
  let ?u = "host_uplink (host s)"
  have ch: "cbor_channel (codec env) open_array at item_size 1024 1024"
    and q: "host_ok (host s)" "going_up s = []" "going_down s = []" "ser_capacity (to_cbor ?u) = 1024"
    using assms(1,2) by (simp_all add: surroundings_ok_def quiet_def host_ok_def proxy_ok_def core_ok_def)
  from sample_forwards [OF ch assms(5) q(4)] obtain u bs where
    u: "forward_sample (codec env) (sub_id sub) v ?u = Inr u" "serial_out u = serial_out ?u @ [ppp_frame bs]"
      "cbor_encodes (codec env) at 100 (items_MsgPublish \<lparr>publish_id = sub_id sub, publish_value = v\<rparr>) bs" by blast
  have "cbor_channel.fits item_size 1024 (items_MsgPublish \<lparr>publish_id = sub_id sub, publish_value = v\<rparr>)"
    using assms(5) by (simp add: cbor_channel.fits_def [OF ch])
  from cbor_channel.forward_sends [OF ch this q(4)] u(1) have "ser_capacity (to_cbor u) = 1024" by auto
  then have "host_ok (set_uplink u (host s))"
    using q(1) by (simp add: host_ok_def set_uplink_def proxy_ok_def core_ok_def)
  then show ?thesis
    using u q assms(3,4) by (intro exI [of _ "set_host (set_uplink u (host s)) s"] exI [of _ bs])
      (simp add: subscribeHandler_def set_host_def set_uplink_def)
qed

text \<open>The device notes the loopback, and its latency goes up to zenoh.\<close>

lemma system_takes_loopback:
  assumes "surroundings_ok env open_array at item_size" "quiet s"
    and "map_of (subscribers (host_broker s)) i = Some sub" "sub_callback sub = forward_sample (codec env)"
    and "cbor_encodes (codec env) at 100 (uptime_items sent) v" "length v = message_bytes item_size (uptime_items sent)"
    and "sent < 2 ^ 31" "uptime_fits item_size (sub_id sub) sent"
    and "uptime_fits item_size (res_id (latencyPub (dev_broker (board s)))) (fst now - sent)"
    and "map_of (publishers (host_broker s)) (res_id (latencyPub (dev_broker (board s)))) = Some pub"
  shows "\<exists>s' v' bs. system_run env [ZenohSample i v, ArriveDown now, ArriveUp] s = Inr s' \<and> quiet s' \<and>
    dev_broker (board s') = outgoingFrame_on bs (dev_broker (board s))\<lparr>loopbackReceived := snd now\<rparr> \<and>
    host_broker s' = (host_broker s)\<lparr>zn_calls := zn_calls (host_broker s) @
      [ZnWrite (zenoh_session (host_broker s)) (pub_reskey pub) v']\<rparr> \<and>
    cbor_encodes (codec env) at 100 (uptime_items (fst now - sent)) v'"
proof -
  let ?d = "dev_broker (board s)"
  have ch: "cbor_channel (codec env) open_array at item_size 1024 1024"
    using assms(1) by (simp add: surroundings_ok_def)
  have q: "device_filters 1024 (dev_filters (board s))" "board_ok (board s)" "ser_capacity (dev_toCbor ?d) = 100"
    using assms(2) by (simp_all add: quiet_def board_ok_def)
  have "message_bytes item_size (items_MsgPublish \<lparr>publish_id = sub_id sub, publish_value = v\<rparr>) \<le> 100"
    using assms(6,8) by (simp add: uptime_fits_def)
  from system_forwards_sample [OF assms(1-4) this] obtain s1 bs where
    s1: "system_step env (ZenohSample i v) s = Inr s1" "board s1 = board s" "host_ok (host s1)"
      "host_broker s1 = host_broker s" "going_up s1 = []" "going_down s1 = [ppp_frame bs]"
      "cbor_encodes (codec env) at 100 (items_MsgPublish \<lparr>publish_id = sub_id sub, publish_value = v\<rparr>) bs" by blast
  from uptime_sample_flow [OF ch assms(5) s1(7) assms(9,7) q(1), of "stack_encoder env" "stack_parser env" "stack_int env" "stack_time env"]
  obtain fs bs' v' where
    d: "bytesToFrame_on (codec env) (stack_encoder env) (stack_parser env) (stack_int env) (stack_time env) now bs
        (dev_filters (board s), ?d) = Inr (fs, outgoingFrame_on bs' ?d\<lparr>loopbackReceived := snd now\<rparr>)"
      "device_filters 1024 fs" "cbor_encodes (codec env) at 100 (uptime_items (fst now - sent)) v'"
      "cbor_encodes (codec env) at 100 (items_MsgPublish \<lparr>publish_id = res_id (latencyPub ?d), publish_value = v'\<rparr>) bs'"
    by blast
  let ?d' = "outgoingFrame_on bs' ?d\<lparr>loopbackReceived := snd now\<rparr>" and
    ?m = "Publish \<lparr>publish_id = res_id (latencyPub ?d), publish_value = v'\<rparr>"
  have "bs \<noteq> []" using s1(7) by (simp add: cbor_encodes_def)
  from arrive_down [OF assms(1) _ s1(5,6) this, of now fs ?d' "[ppp_frame bs']"] s1(2) q(2,3) d(1,2) obtain s2 where
    s2: "system_step env (ArriveDown now) s1 = Inr s2" "host s2 = host s1" "board_ok (board s2)"
      "dev_broker (board s2) = ?d'" "going_down s2 = []" "going_up s2 = [ppp_frame bs']"
    by (auto simp: outgoingFrame_on_def)
  have "frames_of (codec env) at 100 (map client_items [?m]) (going_up s2)" "host_ok (host s2)"
    using d(4) s2(2,6) s1(3) by (simp_all add: frames_of_single)
  from arrive_up [OF assms(1) this(2) s2(5) this(1)] obtain s3 where
    s3: "system_step env ArriveUp s2 = Inr s3" "board s3 = board s2" "host_ok (host s3)" "going_up s3 = []"
      "going_down s3 = []"
      "host_broker s3 = broker_effect (zenoh_lib env) (forward_sample (codec env)) ?m (host_broker s2)" by auto
  show ?thesis
    using s1(1,4) s2 s3 d(3) assms(10) by (intro exI [of _ s3] exI [of _ v'] exI [of _ bs'])
      (simp add: quiet_def BrokerZenoh_publish_def zn_ask_def)
qed

section \<open>Power on\<close>

text \<open>The two ends as their programs construct them; \<open>garbage\<close> is what was in memory.\<close>

definition Board_new :: "u64 \<Rightarrow> MsgBase \<Rightarrow> 'e \<Rightarrow> 'i \<Rightarrow> Resource \<Rightarrow> u64 \<Rightarrow> ('e, 'i) Device" where
  "Board_new flag garbage enc it null loopback =
     \<lparr>dev_framer = BytesToFrame_new flag, dev_filters = device_filters_new garbage it,
      dev_broker = BrokerSerial_init (BrokerSerial_new enc null loopback)\<rparr>"

lemma Board_new_ok [simp]: "board_ok (Board_new flag garbage enc it null loopback)"
  by (simp add: board_ok_def Board_new_def BytesToFrame_new_def BrokerSerial_init_def BrokerSerial_new_def
      dev_publisher_def dev_subscriber_def CborSerializer_new_def Let_def)

lemma Host_new_ok [simp]: "host_ok (Host_new flag garbage enc it)"
  by (simp add: host_ok_def Host_new_def FrameExtractor_new_def)

lemma Host_new_broker [simp]: "broker (core (proxy (Host_new flag garbage enc it))) = BrokerZenoh_new"
  by (simp add: Host_new_def Proxy_new_def)

definition uptime_key :: bytes where "uptime_key = brokerSrcPrefix @ system_uptime"
definition latency_key :: bytes where "latency_key = brokerSrcPrefix @ system_latency"

text \<open>The resources that \<open>init\<close> creates.\<close>

definition has_own_resources :: "'e BrokerSerial \<Rightarrow> bool" where
  "has_own_resources d \<longleftrightarrow> uptimePub d = \<lparr>res_id = 0, res_key = uptime_key\<rparr> \<and>
     latencyPub d = \<lparr>res_id = 1, res_key = latency_key\<rparr> \<and>
     dev_publishers d = [uptimePub d, latencyPub d] \<and> dev_subscribers d = [\<lparr>res_id = 2, res_key = uptime_key\<rparr>]"

lemma Board_new_resources [simp]:
  "has_own_resources (dev_broker (Board_new flag garbage enc it null loopback))"
  "dev_connected (dev_broker (Board_new flag garbage enc it null loopback)) = False"
  "loopbackReceived (dev_broker (Board_new flag garbage enc it null loopback)) = loopback"
  by (simp_all add: has_own_resources_def Board_new_def BrokerSerial_init_def BrokerSerial_new_def
      dev_publisher_def dev_subscriber_def uptime_key_def latency_key_def device_names Let_def)

lemma own_resources_same: "same_resources d d' \<Longrightarrow> has_own_resources d \<Longrightarrow> has_own_resources d'"
  by (simp add: same_resources_def has_own_resources_def)

text \<open>What the proxy has to know of them.\<close>

definition knows_own_resources :: "'e forward \<Rightarrow> 'e forward BrokerZenoh \<Rightarrow> bool" where
  "knows_own_resources fw b \<longleftrightarrow> zenoh_session b \<noteq> 0 \<and>
     (\<exists>h. map_of (subscribers b) 2 = Some \<lparr>sub_id = 2, sub_key = uptime_key, sub_callback = fw, zn_subscriber = h\<rparr>) \<and>
     (\<exists>rid h. map_of (publishers b) 0 = Some \<lparr>pub_id = 0, pub_key = uptime_key, pub_reskey = Rid rid, zn_publisher = h\<rparr>) \<and>
     (\<exists>rid h. map_of (publishers b) 1 = Some \<lparr>pub_id = 1, pub_key = latency_key, pub_reskey = Rid rid, zn_publisher = h\<rparr>)"

text \<open>Zenoh opens sessions and accepts declarations.\<close>

definition zenoh_serves :: "'a zenoh \<Rightarrow> bool" where
  "zenoh_serves z \<longleftrightarrow> (\<forall>cs. zn_open z cs \<noteq> 0 \<and> zn_declare_subscriber z cs \<noteq> 0)"

lemma own_keys: "c_string uptime_key = uptime_key" "c_string latency_key = latency_key"
  by (simp_all add: uptime_key_def latency_key_def device_names)

lemma registration_own:
  assumes "has_own_resources d"
  shows "registration d = [Subscriber \<lparr>subscriber_id = 2, subscriber_topic = uptime_key\<rparr>,
    Publisher \<lparr>publisher_id = 0, publisher_topic = uptime_key\<rparr>, Publisher \<lparr>publisher_id = 1, publisher_topic = latency_key\<rparr>]"
  using assms by (simp add: registration_def has_own_resources_def)

lemma registration_known:
  assumes "has_own_resources d" "zenoh_serves z"
  shows "knows_own_resources fw (fold (broker_effect z fw)
    (Connect \<lparr>clientId = brokerSrcPrefix\<rparr> # registration d) BrokerZenoh_new)"
  using assms(2) unfolding registration_own [OF assms(1)]
  by (simp add: knows_own_resources_def zenoh_serves_def BrokerZenoh_new_def broker_defs um_emplace_def own_keys Let_def)

text \<open>A device that the proxy knows: its uptime loops, and its latency is published.\<close>

lemma known_device_loops:
  assumes "surroundings_ok env open_array at item_size" "quiet s1" "dev_connected (dev_broker (board s1))"
    and "has_own_resources (dev_broker (board s1))"
    and "knows_own_resources (forward_sample (codec env)) (host_broker s1)" and "sent < 2 ^ 31"
    and "uptime_fits item_size 0 sent" "uptime_fits item_size 1 (fst now - sent)" "uptime_fits item_size 2 sent"
  shows "\<exists>s2 s3 rid1 rid2 uptime latency bs bs'.
    system_run env [KeepAliveTick sent, ArriveUp] s1 = Inr s2 \<and> quiet s2 \<and>
    dev_broker (board s2) = outgoingFrame_on bs (dev_broker (board s1)) \<and>
    zn_calls (host_broker s2) = zn_calls (host_broker s1) @ [ZnWrite (zenoh_session (host_broker s1)) (Rid rid1) uptime] \<and>
    cbor_encodes (codec env) at 100 (uptime_items sent) uptime \<and>
    system_run env [ZenohSample 2 uptime, ArriveDown now, ArriveUp] s2 = Inr s3 \<and> quiet s3 \<and>
    dev_broker (board s3) = outgoingFrame_on bs' (dev_broker (board s2))\<lparr>loopbackReceived := snd now\<rparr> \<and>
    zn_calls (host_broker s3) = zn_calls (host_broker s2) @ [ZnWrite (zenoh_session (host_broker s1)) (Rid rid2) latency] \<and>
    cbor_encodes (codec env) at 100 (uptime_items (fst now - sent)) latency"
proof -
  have own: "uptimePub (dev_broker (board s1)) = \<lparr>res_id = 0, res_key = uptime_key\<rparr>"
    "latencyPub (dev_broker (board s1)) = \<lparr>res_id = 1, res_key = latency_key\<rparr>"
    using assms(4) by (simp_all add: has_own_resources_def)
  from assms(5) obtain rid1 rid2 h0 h1 h2 where
    known: "map_of (subscribers (host_broker s1)) 2 =
        Some \<lparr>sub_id = 2, sub_key = uptime_key, sub_callback = forward_sample (codec env), zn_subscriber = h2\<rparr>"
      "map_of (publishers (host_broker s1)) 0 = Some \<lparr>pub_id = 0, pub_key = uptime_key, pub_reskey = Rid rid1, zn_publisher = h0\<rparr>"
      "map_of (publishers (host_broker s1)) 1 = Some \<lparr>pub_id = 1, pub_key = latency_key, pub_reskey = Rid rid2, zn_publisher = h1\<rparr>"
    unfolding knows_own_resources_def by blast
  from system_publishes_uptime [OF assms(1-3), of sent] assms(7) known(2) obtain s2 v bs where
    s2: "system_run env [KeepAliveTick sent, ArriveUp] s1 = Inr s2" "quiet s2"
      "dev_broker (board s2) = outgoingFrame_on bs (dev_broker (board s1))"
      "host_broker s2 = (host_broker s1)\<lparr>zn_calls := zn_calls (host_broker s1) @
        [ZnWrite (zenoh_session (host_broker s1)) (Rid rid1) v]\<rparr>"
      "cbor_encodes (codec env) at 100 (uptime_items sent) v" "length v = message_bytes item_size (uptime_items sent)"
    unfolding own by auto
  have same: "subscribers (host_broker s2) = subscribers (host_broker s1)"
    "publishers (host_broker s2) = publishers (host_broker s1)" "latencyPub (dev_broker (board s2)) = \<lparr>res_id = 1, res_key = latency_key\<rparr>"
    using own by (simp_all add: s2(3,4) outgoingFrame_on_def)
  let ?sub = "\<lparr>sub_id = 2, sub_key = uptime_key, sub_callback = forward_sample (codec env), zn_subscriber = h2\<rparr>"
  let ?pub = "\<lparr>pub_id = 1, pub_key = latency_key, pub_reskey = Rid rid2, zn_publisher = h1\<rparr>"
  have loop: "map_of (subscribers (host_broker s2)) 2 = Some ?sub" "sub_callback ?sub = forward_sample (codec env)"
    "uptime_fits item_size (sub_id ?sub) sent"
    "uptime_fits item_size (res_id (latencyPub (dev_broker (board s2)))) (fst now - sent)"
    "map_of (publishers (host_broker s2)) (res_id (latencyPub (dev_broker (board s2)))) = Some ?pub"
    using assms(8,9) known(1,3) by (simp_all add: same)
  from system_takes_loopback [OF assms(1) s2(2) loop(1,2) s2(5,6) assms(6) loop(3-5)] obtain s3 v' bs' where
    s3: "system_run env [ZenohSample 2 v, ArriveDown now, ArriveUp] s2 = Inr s3" "quiet s3"
      "dev_broker (board s3) = outgoingFrame_on bs' (dev_broker (board s2))\<lparr>loopbackReceived := snd now\<rparr>"
      "host_broker s3 = (host_broker s2)\<lparr>zn_calls := zn_calls (host_broker s2) @
        [ZnWrite (zenoh_session (host_broker s2)) (pub_reskey ?pub) v']\<rparr>"
      "cbor_encodes (codec env) at 100 (uptime_items (fst now - sent)) v'"
    by blast
  show ?thesis
    by (rule exI [of _ s2], rule exI [of _ s3], rule exI [of _ rid1], rule exI [of _ rid2], rule exI [of _ v],
        rule exI [of _ v'], rule exI [of _ bs], rule exI [of _ bs']) (use s2 s3 in simp)
qed

section \<open>Surroundings for the witnesses\<close>

definition wire_surroundings :: "(wire_encoder, bytes) surroundings" where
  "wire_surroundings = \<lparr>codec = wire, zenoh_lib = numbering_zenoh\<lparr>zn_declare_subscriber := \<lambda>_. 7\<rparr>,
     line_up = wire_line, line_down = wire_line, stack_encoder = (0, [], False), stack_parser = [], stack_int = 0,
     stack_time = 0\<rparr>"

lemma wire_surroundings: "surroundings_ok wire_surroundings wire_open wire_at wire_size"
    "zenoh_serves (zenoh_lib wire_surroundings)"
  using wire.cbor_channel_axioms connected_fits wire_line wire_device_fits(1)
  unfolding surroundings_ok_def by (simp_all add: wire_surroundings_def zenoh_serves_def numbering_zenoh_def)

lemma wire_registration_fits: "has_own_resources d \<Longrightarrow> registration_fits wire_size d"
  by (simp add: registration_fits_def has_own_resources_def wire_size_eval device_names uptime_key_def latency_key_def)

end
