(* ===== verification/Codec_Types.thy ===== *)
theory Codec_Types
  imports Msg_Filter
begin

text \<open>
  What the serializer, the deserializer and the filters keep whatever bytes they work on and whatever
  the CBOR library answers: the sizes of their buffers and the types of the filters. The locale
  \<open>keeps_reflector\<close> passes an invariant of a reflector's operations on to the messages.
\<close>

section \<open>Reflectors that keep an invariant\<close>

locale keeps_reflector =
  fixes R :: "'r reflector" and I :: "'r \<Rightarrow> bool"
  assumes keeps_begin: "rf_begin R r = Inr r' \<Longrightarrow> I r \<Longrightarrow> I r'"
    and keeps_const: "rf_const R t n r = Inr r' \<Longrightarrow> I r \<Longrightarrow> I r'"
    and keeps_int: "rf_int R t n r = Inr (t', r') \<Longrightarrow> I r \<Longrightarrow> I r'"
    and keeps_text: "rf_text R s n r = Inr (s', r') \<Longrightarrow> I r \<Longrightarrow> I r'"
    and keeps_bytes: "rf_bytes R s n r = Inr (s', r') \<Longrightarrow> I r \<Longrightarrow> I r'"
    and keeps_end: "rf_end R r = Inr r' \<Longrightarrow> I r \<Longrightarrow> I r'"
begin

lemmas keeps = keeps_begin keeps_const keeps_int keeps_text keeps_bytes keeps_end

lemma keeps_base: "reflect_MsgBase R m r = Inr (m', r') \<Longrightarrow> I r \<Longrightarrow> I r'"
  by (auto simp: reflect_defs elim!: seq_InrE dest!: keeps)

lemma keeps_connect: "reflect_MsgConnect R m1 r = Inr (m1', r') \<Longrightarrow> I r \<Longrightarrow> I r'"
  by (auto simp: reflect_defs elim!: seq_InrE dest!: keeps)

lemma keeps_disconnect: "reflect_MsgDisconnect R r = Inr r' \<Longrightarrow> I r \<Longrightarrow> I r'"
  by (auto simp: reflect_defs elim!: seq_InrE dest!: keeps)

lemma keeps_publish: "reflect_MsgPublish R m2 r = Inr (m2', r') \<Longrightarrow> I r \<Longrightarrow> I r'"
  by (auto simp: reflect_defs elim!: seq_InrE dest!: keeps)

lemma keeps_publisher: "reflect_MsgPublisher R m3 r = Inr (m3', r') \<Longrightarrow> I r \<Longrightarrow> I r'"
  by (auto simp: reflect_defs elim!: seq_InrE dest!: keeps)

lemma keeps_subscriber: "reflect_MsgSubscriber R m4 r = Inr (m4', r') \<Longrightarrow> I r \<Longrightarrow> I r'"
  by (auto simp: reflect_defs elim!: seq_InrE dest!: keeps)

lemmas keeps_messages = keeps_base keeps_connect keeps_disconnect keeps_publish keeps_publisher keeps_subscriber

end

definition de_typed :: "nat \<Rightarrow> 'i CborDeserializer \<Rightarrow> bool" where
  "de_typed c d \<longleftrightarrow> de_capacity d = c \<and> length (de_buffer d) \<le> c"

definition ser_typed :: "nat \<Rightarrow> 'e CborSerializer \<Rightarrow> bool" where
  "ser_typed c s \<longleftrightarrow> ser_capacity s = c"

lemma de_typed_advance [simp]:
  "de_typed c (de_advance tc d) = de_typed c d" "de_typed c (de_advance_fixed tc d) = de_typed c d"
  by (simp_all add: de_typed_def de_advance_def de_advance_fixed_def split: prod.split)

interpretation de_types: keeps_reflector "de_reflector tc" "de_typed c" for tc c
  by unfold_locales
    (auto simp: de_reflector_def de_begin_def de_const_int_def de_int_def de_text_def de_bytes_def de_end_def Let_def
      elim!: seq_InrE split: prod.splits if_splits, auto simp: de_typed_def)

interpretation ser_types: keeps_reflector "ser_reflector tc" "ser_typed c" for tc c
  by unfold_locales
    (auto simp: ser_reflector_def ser_begin_def ser_int_def ser_text_def ser_bytes_def ser_end_def assert_ok_def ser_typed_def
      elim!: seq_InrE split: prod.splits if_splits)

lemma de_typed_fromBytes: "de_typed c d \<Longrightarrow> de_typed c (fromBytes bs d)"
  by (simp add: de_typed_def fromBytes_def Let_def)

section \<open>Filters\<close>

lemma filter_typed:
  assumes "MsgFilter_on tc inp f = Inr (out, f')" "de_typed 1024 (filter_fromCbor f)"
  shows "de_typed 1024 (filter_fromCbor f') \<and> filter_msgType f' = filter_msgType f"
  using assms by (auto simp: MsgFilter_on_def elim!: seq_InrE dest!: de_types.keeps_messages intro: de_typed_fromBytes)

text \<open>What the filters keep of themselves, the flows keep.\<close>

lemma filter_flows_filters:
  assumes "filter_flows tc hs frame fs s = Inr (fs', s')" "list_all Q fs"
    and "\<And>inp f out f'. MsgFilter_on tc inp f = Inr (out, f') \<Longrightarrow> Q f \<Longrightarrow> Q f'"
  shows "list_all Q fs' \<and> map filter_msgType fs' = map filter_msgType fs"
  using assms
proof (induction tc hs frame fs s arbitrary: fs' rule: filter_flows.induct)
  case (1 tc h hs inp f fs s)
  then obtain f1 s1 fs2 where flow: "filter_flow tc h inp f s = Inr (f1, s1)"
    "filter_flows tc hs inp fs s1 = Inr (fs2, s')" "fs' = f1 # fs2"
    by (auto elim!: seq_InrE)
  from flow(1) obtain out where out: "MsgFilter_on tc inp f = Inr (out, f1)"
    by (auto simp: filter_flow_def elim!: seq_InrE split: option.splits)
  have "filter_msgType f1 = filter_msgType f"
    using out by (auto simp: MsgFilter_on_def elim!: seq_InrE)
  moreover have "Q f1" using "1.prems"(2,3) out by auto
  ultimately show ?case
    using "1.IH" [OF flow(2) _ "1.prems"(3)] "1.prems"(2) flow(3) by simp
qed simp_all

interpretation de_caps: keeps_reflector "de_reflector tc" "\<lambda>d. de_capacity d = c" for tc c
  by unfold_locales
    (auto simp: de_reflector_def de_begin_def de_const_int_def de_int_def de_text_def de_bytes_def de_end_def Let_def
      de_advance_def de_advance_fixed_def elim!: seq_InrE split: prod.splits if_splits)

lemma filter_flows_ok:
  assumes "filter_flows tc hs frame fs s = Inr (fs', s')" "filters_ok c fs"
  shows "filters_ok c fs' \<and> map filter_msgType fs' = map filter_msgType fs"
  unfolding filters_ok_def
  by (rule filter_flows_filters [OF assms(1) assms(2) [unfolded filters_ok_def]])
    (auto simp: MsgFilter_on_def fromBytes_def Let_def elim!: seq_InrE dest!: de_caps.keeps_messages)

end
