(* ===== verification/Proxy_Types.thy ===== *)
theory Proxy_Types
  imports Host Codec_Types
begin

text \<open>
  The type invariant of the proxy: what holds of its state whatever bytes arrive on the serial
  line, whatever samples zenoh delivers in between, and whatever the CBOR library answers.
\<close>

section \<open>The invariant\<close>

definition uplink_typed :: "'e Uplink \<Rightarrow> bool" where
  "uplink_typed u \<longleftrightarrow> ser_typed 1024 (to_cbor u) \<and> set (serial_out u) \<subseteq> range ppp_frame"

definition core_typed :: "('e, 'i) tinycbor \<Rightarrow> ('e, 'i) proxy_state \<Rightarrow> bool" where
  "core_typed tc p \<longleftrightarrow> de_typed 1024 (from_cbor p) \<and> uplink_typed (uplink p) \<and> broker_ok (broker p) \<and>
     list_all (\<lambda>(i, sub). sub_callback sub = forward_sample tc) (subscribers (broker p))"

definition proxy_typed :: "('e, 'i) tinycbor \<Rightarrow> ('e, 'i) Proxy \<Rightarrow> bool" where
  "proxy_typed tc p \<longleftrightarrow> map filter_msgType (filters p) = proxy_filter_types \<and>
     list_all (\<lambda>f. de_typed 1024 (filter_fromCbor f)) (filters p) \<and> core_typed tc (core p)"

lemma proxy_typed_new: "proxy_typed tc (Proxy_new garbage enc it)"
  by (simp add: proxy_typed_def core_typed_def uplink_typed_def Proxy_new_def MsgFilter_new_def CborDeserializer_new_def de_typed_def
      ser_typed_def CborSerializer_new_def list_all_iff comp_def) (simp add: BrokerZenoh_new_def)

lemma sends_typed:
  "send_connect tc m u = Inr u' \<Longrightarrow> uplink_typed u \<Longrightarrow> uplink_typed u'"
  "forward_sample tc i v u = Inr u' \<Longrightarrow> uplink_typed u \<Longrightarrow> uplink_typed u'"
  by (auto simp: uplink_typed_def send_connect_def forward_sample_def toSerialMsg_on_def FrameToBytes_on_def
      elim!: seq_InrE dest!: ser_types.keeps_messages)

lemma handler_typed:
  assumes "h \<in> set (proxy_handlers tc z junk)" "h frame p = Inr p'" "core_typed tc p"
  shows "core_typed tc p'"
proof -
  have ok: "broker_ok (broker p')"
    using handler_steps [OF assms(1,2)] assms(3) broker_ok_step by (auto simp: core_typed_def)
  have cb: "list_all (\<lambda>(i, sub). sub_callback sub = forward_sample tc) (subscribers (snd (BrokerZenoh_connect z c b)))"
    "list_all (\<lambda>(i, sub). sub_callback sub = forward_sample tc) (subscribers (snd (BrokerZenoh_disconnect b)))"
    "list_all (\<lambda>(i, sub). sub_callback sub = forward_sample tc)
       (subscribers (snd (BrokerZenoh_subscriber z n k (forward_sample tc) b)))"
    "list_all (\<lambda>(i, sub). sub_callback sub = forward_sample tc) (subscribers (snd (BrokerZenoh_publisher z n k b)))"
    "list_all (\<lambda>(i, sub). sub_callback sub = forward_sample tc) (subscribers (snd (BrokerZenoh_publish z n bs b)))"
    if "list_all (\<lambda>(i, sub). sub_callback sub = forward_sample tc) (subscribers b)" for b c n k bs
    using that by (auto simp: broker_defs um_emplace_def Let_def split: option.split)
  consider "h = on_connect tc z" | "h = on_subscriber tc z junk" | "h = on_publisher tc z junk"
    | "h = on_publish tc z junk" | "h = on_disconnect tc"
    using assms(1) by (auto simp: proxy_handlers_def)
  then show ?thesis
  proof cases
    case 1
    have "uplink_typed u" if "send_connect tc connected_reply (uplink p) = Inr u" for u
      using sends_typed(1) [OF that] assms(3) by (simp add: core_typed_def)
    with 1 show ?thesis
      using assms(2,3) ok cb(1)
      by (auto simp: on_connect_def core_typed_def Let_def case_prod_beta elim!: seq_InrE split: if_splits
          dest!: de_types.keeps_messages intro: de_typed_fromBytes)
  qed (use assms(2,3) ok cb in \<open>auto simp: handler_defs core_typed_def Let_def case_prod_beta
      elim!: seq_InrE split: if_splits dest!: de_types.keeps_messages intro: de_typed_fromBytes\<close>)
qed

lemma flows_typed:
  assumes "filter_flows tc (proxy_handlers tc z junk) frame fs p = Inr (fs', p')"
    and "list_all (\<lambda>f. de_typed 1024 (filter_fromCbor f)) fs" "core_typed tc p"
  shows "list_all (\<lambda>f. de_typed 1024 (filter_fromCbor f)) fs' \<and> map filter_msgType fs' = map filter_msgType fs \<and>
    core_typed tc p'"
proof -
  have "list_all (\<lambda>f. de_typed 1024 (filter_fromCbor f)) fs' \<and> map filter_msgType fs' = map filter_msgType fs"
    by (rule filter_flows_filters [OF assms(1,2)]) (blast dest: filter_typed)
  moreover have "core_typed tc p'"
    by (rule filter_flows_keep [where P = "core_typed tc", OF assms(1,3)]) (blast intro: handler_typed)
  ultimately show ?thesis by blast
qed

lemma fromSerialMsg_typed:
  assumes "fromSerialMsg_on tc z junk frame p = Inr p'" "proxy_typed tc p"
  shows "proxy_typed tc p'"
proof -
  obtain fs c where f: "filter_flows tc (proxy_handlers tc z junk) frame (filters p) (core p) = Inr (fs, c)"
    "p' = p\<lparr>filters := fs, core := c\<rparr>"
    using assms(1) by (auto simp: fromSerialMsg_on_def elim!: seq_InrE)
  then show ?thesis
    using flows_typed [OF f(1)] assms(2) by (simp add: proxy_typed_def)
qed

lemma dispatch_typed: "dispatch tc z junk bss p = Inr p' \<Longrightarrow> proxy_typed tc p \<Longrightarrow> proxy_typed tc p'"
proof (induction bss arbitrary: p)
  case (Cons bs bss)
  then show ?case by (auto simp: dispatch_Cons elim!: seq_InrE dest: fromSerialMsg_typed)
qed simp

section \<open>Everything that happens to a proxy\<close>

text \<open>A chunk on the serial line, a sample for one of its subscribers, a change of the serial connection.\<close>

inductive host_step ::
    "('e, 'i) tinycbor \<Rightarrow> 'e forward Sub zenoh \<Rightarrow> ('e, 'i) Host \<Rightarrow> ('e, 'i) Host \<Rightarrow> bool" for tc z where
  step_chunk: "serial_incoming tc z junk clk bs h = Inr h' \<Longrightarrow> host_step tc z h h'"
| step_sample: "(i, sub) \<in> set (subscribers (broker (core (proxy h)))) \<Longrightarrow>
    subscribeHandler v sub (uplink (core (proxy h))) = Inr u \<Longrightarrow>
    host_step tc z h (h\<lparr>proxy := (proxy h)\<lparr>core := (core (proxy h))\<lparr>uplink := u\<rparr>\<rparr>\<rparr>)"
| step_connected: "host_step tc z h (h\<lparr>proxy := (proxy h)\<lparr>core := on_serial_connected b (core (proxy h))\<rparr>\<rparr>)"

lemma host_step_typed:
  assumes "host_step tc z h h'" "proxy_typed tc (proxy h)"
  shows "proxy_typed tc (proxy h')"
  using assms(1)
proof cases
  case (step_chunk junk clk bs)
  then show ?thesis
    using assms(2) by (auto simp: serial_incoming_def elim!: seq_InrE dest: dispatch_typed)
next
  case (step_sample i sub v u)
  have "sub_callback sub = forward_sample tc"
    using assms(2) step_sample(2) by (auto simp: proxy_typed_def core_typed_def list_all_iff)
  then have "uplink_typed u"
    using sends_typed(2) assms(2) step_sample(3) by (auto simp: subscribeHandler_def proxy_typed_def core_typed_def)
  then show ?thesis
    using assms(2) step_sample(1) by (simp add: proxy_typed_def core_typed_def)
next
  case (step_connected b)
  have "broker_ok (snd (BrokerZenoh_disconnect (broker (core (proxy h)))))"
    using broker_ok_step [OF broker_step_snd(2) [of z "broker (core (proxy h))"]] assms(2) by (simp add: proxy_typed_def core_typed_def)
  then show ?thesis
    using assms(2) step_connected
    by (auto simp: proxy_typed_def core_typed_def on_serial_connected_def BrokerZenoh_disconnect_def split: prod.splits)
qed

section \<open>Properties\<close>

text \<open>
  C10: Types. In every state a freshly started proxy can reach, whatever chunks arrive, samples are
  delivered and the serial connection does in between, and whatever the CBOR library answers: the
  buffers have their sizes and hold no more than fits, the five filters keep their message types, the
  tables of the broker are keyed by the identifiers of their entries, without duplicates and null
  handles, every subscriber calls the forwarding function, and all that was put on the serial line
  are frames.
\<close>

theorem proxy_well_typed:
  assumes "(host_step tc z)\<^sup>*\<^sup>* (Host_new flag garbage enc it) h"
  shows "map filter_msgType (filters (proxy h)) = [B_CONNECT, B_SUBSCRIBER, B_PUBLISHER, B_PUBLISH, B_DISCONNECT] \<and>
    list_all (\<lambda>f. de_capacity (filter_fromCbor f) = 1024 \<and> length (de_buffer (filter_fromCbor f)) \<le> 1024) (filters (proxy h)) \<and>
    length (de_buffer (from_cbor (core (proxy h)))) \<le> 1024 \<and> ser_capacity (to_cbor (uplink (core (proxy h)))) = 1024 \<and>
    broker_ok (broker (core (proxy h))) \<and>
    list_all (\<lambda>(i, sub). sub_callback sub = forward_sample tc) (subscribers (broker (core (proxy h)))) \<and>
    set (serial_out (uplink (core (proxy h)))) \<subseteq> range ppp_frame"
proof -
  have "proxy_typed tc (proxy h)"
    using assms by (induction rule: rtranclp_induct) (simp_all add: Host_new_def proxy_typed_new host_step_typed)
  then show ?thesis
    by (simp add: proxy_typed_def core_typed_def uplink_typed_def de_typed_def ser_typed_def proxy_filter_types_def)
qed

lemma proxy_well_typed_witness:
  "\<exists>h. (host_step wire numbering_zenoh)\<^sup>*\<^sup>* (Host_new 0 \<lparr>msgType = 0\<rparr> (0, [], False) []) h \<and>
    inputFrame (bytesToFrame h) = [0x41] \<and> broker_ok (broker (core (proxy h))) \<and>
    set (serial_out (uplink (core (proxy h)))) \<subseteq> range ppp_frame"
proof -
  let ?h = "wire_host\<lparr>bytesToFrame := (bytesToFrame wire_host)\<lparr>inputFrame := [0x41]\<rparr>\<rparr>"
  have "serial_incoming wire numbering_zenoh 0 (\<lambda>_. 5) [0x41] wire_host = Inr ?h"
    by (simp add: wire_host_def Host_new_def FrameExtractor_new_def serial_incoming_def FrameExtractor_on_def
        handleRxd_def rxd_byte_def ppp_chars FrameExtractor_frameTimeout_def)
  then have r: "(host_step wire numbering_zenoh)\<^sup>*\<^sup>* (Host_new 0 \<lparr>msgType = 0\<rparr> (0, [], False) []) ?h"
    unfolding wire_host_def by (intro r_into_rtranclp step_chunk)
  from proxy_well_typed [OF r] r show ?thesis
    by (intro exI [of _ ?h]) simp
qed

end
