(* ===== verification/Codec_Faults.thy ===== *)
theory Codec_Faults
  imports Codec_Types "HOL-Library.Sublist"
begin

text \<open>
  The faults that a received frame can cause on either end: in \<open>ppp_deframe\<close> and in the
  deserializer. The locales \<open>reflector_bytes_faults\<close> and \<open>reflector_faults\<close> pass a bound on the faults
  of a reflector's operations on to the messages, those without text and all.
\<close>

section \<open>Faults of messages\<close>

lemma seq_InlE:
  assumes "seq m k = Inl e"
  obtains "m = Inl e" | x where "m = Inr x" "k x = Inl e"
  using assms by (cases m) auto

locale reflector_bytes_faults =
  fixes R :: "'r reflector" and S :: "fault set"
  assumes faults_begin: "rf_begin R r = Inl e \<Longrightarrow> e \<in> S"
    and faults_const: "rf_const R t n r = Inl e \<Longrightarrow> e \<in> S"
    and faults_int: "rf_int R t n r = Inl e \<Longrightarrow> e \<in> S"
    and faults_bytes: "rf_bytes R s n r = Inl e \<Longrightarrow> e \<in> S"
    and faults_end: "rf_end R r = Inl e \<Longrightarrow> e \<in> S"
begin

lemma faults_no_text:
  "reflect_MsgBase R m r = Inl e \<Longrightarrow> e \<in> S"
  "reflect_MsgDisconnect R r = Inl e \<Longrightarrow> e \<in> S"
  "reflect_MsgPublish R m2 r = Inl e \<Longrightarrow> e \<in> S"
  by (auto simp: reflect_defs elim!: seq_InlE dest: faults_begin faults_const faults_int faults_bytes faults_end)

end

locale reflector_faults = reflector_bytes_faults R S for R :: "'r reflector" and S +
  assumes faults_text: "rf_text R s n r = Inl e \<Longrightarrow> e \<in> S"
begin

lemma faults_messages:
  "reflect_MsgConnect R m1 r = Inl e \<Longrightarrow> e \<in> S"
  "reflect_MsgPublisher R m3 r = Inl e \<Longrightarrow> e \<in> S"
  "reflect_MsgSubscriber R m4 r = Inl e \<Longrightarrow> e \<in> S"
  by (auto simp: reflect_defs elim!: seq_InlE dest: faults_begin faults_const faults_int faults_text faults_end)

end

text \<open>
  Strings that tinycbor recognises but cannot duplicate: the deserializer reads uninitialised
  variables then, and only then. Byte strings have been measured before.
\<close>

definition bytes_dup_total :: "('e, 'i) tinycbor \<Rightarrow> bool" where
  "bytes_dup_total tc \<longleftrightarrow> (\<forall>it. value_is_byte_string tc it \<and> value_calculate_string_length tc it = 0 \<longrightarrow>
     fst (value_dup_byte_string tc it) = 0)"

definition dup_total :: "('e, 'i) tinycbor \<Rightarrow> bool" where
  "dup_total tc \<longleftrightarrow> bytes_dup_total tc \<and> (\<forall>it. value_is_text_string tc it \<longrightarrow> fst (value_dup_text_string tc it) = 0)"

definition bytes_dup_faults :: "('e, 'i) tinycbor \<Rightarrow> fault set" where
  "bytes_dup_faults tc = (if bytes_dup_total tc then {} else {UninitRead})"

definition dup_faults :: "('e, 'i) tinycbor \<Rightarrow> fault set" where
  "dup_faults tc = (if dup_total tc then {} else {UninitRead})"

lemma dup_faults_subset: "bytes_dup_faults tc \<subseteq> dup_faults tc"
  by (auto simp: bytes_dup_faults_def dup_faults_def dup_total_def)

lemmas de_defs = de_reflector_def de_begin_def de_const_int_def de_int_def de_text_def de_bytes_def de_end_def Let_def

interpretation de_bytes_faults: reflector_bytes_faults "de_reflector tc" "bytes_dup_faults tc" for tc
  by unfold_locales
    (auto simp: de_defs bytes_dup_faults_def bytes_dup_total_def elim!: seq_InlE split: prod.splits if_splits)

interpretation de_faults: reflector_faults "de_reflector tc" "dup_faults tc" for tc
  by unfold_locales
    (auto simp: de_defs dup_faults_def dup_total_def bytes_dup_total_def elim!: seq_InlE split: prod.splits if_splits)

section \<open>Faults of frames\<close>

lemma deframe_fault: "ppp_deframe b = Inl e \<Longrightarrow> e = PopBackEmpty \<and> 3 \<le> length b \<and>
    length (filter (\<lambda>c. c \<noteq> PPP_ESC_CHAR) b) < 2"
  by (auto simp: ppp_deframe_cases length_unstuff split: if_splits)

text \<open>A frame of at least three bytes of which fewer than two are not escapes.\<close>

definition popping :: "bytes \<Rightarrow> bool" where
  "popping b \<longleftrightarrow> 3 \<le> length b \<and> length (filter (\<lambda>c. c \<noteq> PPP_ESC_CHAR) b) < 2"

definition pops :: "bytes \<Rightarrow> fault \<Rightarrow> bool" where
  "pops bs e \<longleftrightarrow> e = PopBackEmpty \<and> (\<exists>body. popping body \<and> sublist body bs)"

lemma pops_append: "pops xs e \<Longrightarrow> pops (xs @ ys) e" "pops ys e \<Longrightarrow> pops (xs @ ys) e"
  unfolding pops_def by (metis sublist_appendI sublist_append_leftI sublist_append_rightI sublist_order.order.trans)+

section \<open>Faults of filters\<close>

lemma filter_fault: "MsgFilter_on tc inp f = Inl e \<Longrightarrow> e \<in> bytes_dup_faults tc"
  by (auto simp: MsgFilter_on_def Let_def elim!: seq_InlE dest: de_bytes_faults.faults_no_text)

text \<open>Handlers that keep an invariant and fault within a set.\<close>

definition bounded :: "('s \<Rightarrow> bool) \<Rightarrow> fault set \<Rightarrow> (bytes \<Rightarrow> 's \<Rightarrow> 's outcome) \<Rightarrow> bool" where
  "bounded I S h \<longleftrightarrow> (\<forall>inp s. I s \<longrightarrow> (\<forall>e. h inp s = Inl e \<longrightarrow> e \<in> S) \<and> (\<forall>s'. h inp s = Inr s' \<longrightarrow> I s'))"

lemma filter_flows_fault:
  assumes "filter_flows tc hs frame fs s = Inl e" "list_all (bounded I S) hs" "I s" "bytes_dup_faults tc \<subseteq> S"
  shows "e \<in> S"
  using assms
proof (induction tc hs frame fs s rule: filter_flows.induct)
  case (1 tc h hs inp f fs s)
  have h: "bounded I S h" "list_all (bounded I S) hs"
    using "1.prems"(2) by simp_all
  from "1.prems"(1) consider "filter_flow tc h inp f s = Inl e"
    | f1 s1 where "filter_flow tc h inp f s = Inr (f1, s1)" "filter_flows tc hs inp fs s1 = Inl e"
    by (auto elim!: seq_InlE)
  then show ?case
  proof cases
    case 1
    with h(1) "1.prems"(3,4) show ?thesis
      by (auto simp: filter_flow_def bounded_def elim!: seq_InlE dest: filter_fault split: option.splits)
  next
    case (2 f1 s1)
    from 2(1) have "s1 = s \<or> (\<exists>fr. h fr s = Inr s1)"
      by (auto simp: filter_flow_def elim!: seq_InrE split: option.splits)
    then have "I s1"
      using h(1) "1.prems"(3) unfolding bounded_def by blast
    from "1.IH" [OF 2(2) h(2) this "1.prems"(4)] show ?thesis .
  qed
qed simp_all

lemma filter_flows_bounded:
  assumes "filter_flows tc hs frame fs s = Inr (fs', s')" "list_all (bounded I S) hs" "I s"
  shows "I s'"
  using assms(1,3)
proof (rule filter_flows_keep)
  fix h inp t t'
  assume "h \<in> set hs" "h inp t = Inr t'" "I t"
  with assms(2) show "I t'" unfolding list_all_iff bounded_def by blast
qed

end
