(* ===== verification/Device_Faults.thy ===== *)
theory Device_Faults
  imports Link Codec_Faults
begin

text \<open>
  What can happen to a device: its timers and any bytes on its serial line. Its resources, buffers and
  filters stay as \<open>init\<close> made them, what it sends are messages of its own, its timers never fault, and the faults that bytes can cause are
  those of the frames and the one of \<open>toStdout\<close>, which indexes past its literal.
\<close>

section \<open>The invariant\<close>

text \<open>Everything the device sends fits its buffers.\<close>

definition dev_fits :: "(cbor_item \<Rightarrow> nat) \<Rightarrow> 'e BrokerSerial \<Rightarrow> bool" where
  "dev_fits item_size d \<longleftrightarrow> ser_capacity (dev_toCbor d) = 100 \<and>
     message_bytes item_size (items_MsgConnect \<lparr>clientId = brokerSrcPrefix\<rparr>) \<le> 100 \<and>
     list_all (\<lambda>r. message_bytes item_size (subscriber_items r) \<le> 100) (dev_subscribers d) \<and>
     list_all (\<lambda>r. message_bytes item_size (publisher_items r) \<le> 100) (dev_publishers d) \<and>
     (\<forall>t. uptime_fits item_size (res_id (uptimePub d)) t \<and> uptime_fits item_size (res_id (latencyPub d)) t)"

text \<open>What a device answers with - its registration and its latency - and what else it sends.\<close>

definition dev_answers :: "'e BrokerSerial \<Rightarrow> client_message set" where
  "dev_answers d = set (registration d) \<union> {Publish m | m. publish_id m = res_id (latencyPub d)}"

definition dev_messages :: "'e BrokerSerial \<Rightarrow> client_message set" where
  "dev_messages d = insert (Connect \<lparr>clientId = brokerSrcPrefix\<rparr>)
     (dev_answers d \<union> {Publish m | m. publish_id m = res_id (uptimePub d)})"

text \<open>\<open>d'\<close> comes from \<open>d\<close>: it has its resources, and has sent only frames of messages in \<open>M\<close> since.\<close>

definition dev_follows ::
    "('e, 'i) tinycbor \<Rightarrow> (cbor_item list \<Rightarrow> 'i \<Rightarrow> bool) \<Rightarrow> client_message set \<Rightarrow>
      'e BrokerSerial \<Rightarrow> 'e BrokerSerial \<Rightarrow> bool" where
  "dev_follows tc at M d d' \<longleftrightarrow> dev_publishers d' = dev_publishers d \<and> dev_subscribers d' = dev_subscribers d \<and>
     uptimePub d' = uptimePub d \<and> latencyPub d' = latencyPub d \<and> uptimeSub d' = uptimeSub d \<and>
     resourceId d' = resourceId d \<and> ser_capacity (dev_toCbor d') = ser_capacity (dev_toCbor d) \<and>
     (\<exists>ms new. serial_written d' = serial_written d @ new \<and> set ms \<subseteq> M \<and> frames_of tc at 100 (map client_items ms) new)"

lemma follows_refl: "dev_follows tc at M d d"
  unfolding dev_follows_def by (simp add: exI [of _ "[]"])

lemma follows_trans:
  assumes "dev_follows tc at M d d'" "dev_follows tc at M d' d''"
  shows "dev_follows tc at M d d''"
proof -
  from assms obtain ms xs ns ys where
    w: "serial_written d' = serial_written d @ xs" "serial_written d'' = serial_written d' @ ys"
      "set ms \<subseteq> M" "set ns \<subseteq> M" "frames_of tc at 100 (map client_items ms) xs" "frames_of tc at 100 (map client_items ns) ys"
    unfolding dev_follows_def by blast
  then have "serial_written d'' = serial_written d @ (xs @ ys)" "set (ms @ ns) \<subseteq> M"
    "frames_of tc at 100 (map client_items (ms @ ns)) (xs @ ys)"
    by (simp_all add: frames_of_append)
  then have "\<exists>ms new. serial_written d'' = serial_written d @ new \<and> set ms \<subseteq> M \<and> frames_of tc at 100 (map client_items ms) new" by blast
  with assms show ?thesis unfolding dev_follows_def by metis
qed

lemma follows_fits: "dev_follows tc at M d d' \<Longrightarrow> dev_fits item_size d \<Longrightarrow> dev_fits item_size d'"
  by (simp add: dev_follows_def dev_fits_def)

lemma follows_mono: "dev_follows tc at M d d' \<Longrightarrow> M \<subseteq> N \<Longrightarrow> dev_follows tc at N d d'"
  unfolding dev_follows_def by blast

lemma follows_same:
  "dev_follows tc at M d d' \<Longrightarrow> dev_answers d' = dev_answers d"
  "dev_follows tc at M d d' \<Longrightarrow> dev_messages d' = dev_messages d"
  by (simp_all add: dev_follows_def dev_answers_def dev_messages_def registration_def)

lemma answers_trans:
  "dev_follows tc at (dev_answers d) d d' \<Longrightarrow> dev_follows tc at (dev_answers d') d' d'' \<Longrightarrow>
    dev_follows tc at (dev_answers d) d d''"
  using follows_same(1) follows_trans by metis

lemma messages_trans:
  "dev_follows tc at (dev_messages d) d d' \<Longrightarrow> dev_follows tc at (dev_messages d') d' d'' \<Longrightarrow>
    dev_follows tc at (dev_messages d) d d''"
  using follows_same(2) follows_trans by metis

lemma answers_are_messages: "dev_answers d \<subseteq> dev_messages d"
  by (auto simp: dev_messages_def)

lemma follows_sends: "sends tc at (map client_items ms) d d' \<Longrightarrow> set ms \<subseteq> M \<Longrightarrow> dev_follows tc at M d d'"
  by (auto simp: sends_def dev_follows_def)

lemma follows_publish:
  assumes "cbor_encodes tc at 100 (items_MsgPublish m) bs" "Publish m \<in> M"
  shows "dev_follows tc at M d (outgoingFrame_on bs d)"
  using assms frames_of_single [of tc at 100 "items_MsgPublish m" bs] unfolding dev_follows_def
  by (auto simp: outgoingFrame_on_def intro!: exI [of _ "[Publish m]"])

lemma follows_set: "dev_follows tc at M d (set_connected v d)" "dev_follows tc at M d (d\<lparr>loopbackReceived := t\<rparr>)"
  unfolding dev_follows_def by (simp_all add: exI [of _ "[]"])

lemma follows_connectTimer: "dev_follows tc at M d (on_connectTimer t d)"
  unfolding on_connectTimer_def Let_def by (cases "5000 < t - loopbackReceived d")
    (simp_all add: follows_refl follows_set del: set_connected_def)

section \<open>Operations\<close>

context tinycbor_laws begin

lemma keepAlive_safe:
  assumes "dev_fits item_size d"
  shows "\<exists>d'. on_keepAlive tc g t d = Inr d' \<and> dev_follows tc at (dev_messages d) d d'"
proof (cases "dev_connected d")
  case True
  from assms have "uptime_fits item_size (res_id (uptimePub d)) t" by (simp add: dev_fits_def)
  moreover have "Publish \<lparr>publish_id = res_id (uptimePub d), publish_value = v\<rparr> \<in> dev_messages d" for v
    by (simp add: dev_messages_def)
  ultimately show ?thesis
    using dev_publish_sends [of "uptimePub d" t g d] True by (auto simp: on_keepAlive_def intro: follows_publish)
next
  case False
  from assms have "message_bytes item_size (items_MsgConnect \<lparr>clientId = brokerSrcPrefix\<rparr>) \<le> 100"
    "ser_capacity (dev_toCbor d) = 100" by (simp_all add: dev_fits_def)
  from dev_connect_sends [OF this] False follows_sends [where ms = "[Connect \<lparr>clientId = brokerSrcPrefix\<rparr>]" and M = "dev_messages d"] show ?thesis
    by (auto simp: on_keepAlive_def dev_messages_def)
qed

lemma incomingConnect_safe:
  assumes "dev_fits item_size d"
  shows "\<exists>d'. on_incomingConnect tc inp d = Inr d' \<and> dev_follows tc at (dev_answers d) d d'"
proof -
  from dev_registration_sends [of d inp] assms obtain d' where
    "on_incomingConnect tc inp d = Inr d'" "dev_follows tc at (dev_answers d) (set_connected True d) d'"
    by (auto simp: dev_fits_def dev_answers_def simp flip: registration_items simp del: set_connected_def intro: follows_sends)
  with follows_trans [OF follows_set(1)] show ?thesis by blast
qed

lemma incomingPublish_safe:
  assumes "dev_fits item_size d"
  shows "case on_incomingPublish tc g gi junk t0 now inp d of
    Inl e \<Rightarrow> e \<in> bytes_dup_faults tc | Inr d' \<Rightarrow> dev_follows tc at (dev_answers d) d d'"
proof (cases "dev_receive tc gi junk t0 inp")
  case (Inl e)
  then have "e \<in> bytes_dup_faults tc"
    by (auto simp: dev_receive_def de_begin_def de_uint64_def de_end_def Let_def elim!: seq_InlE
        split: if_splits prod.splits dest!: de_bytes_faults.faults_no_text)
  with Inl show ?thesis by (simp add: on_incomingPublish_def)
next
  case (Inr r)
  show ?thesis
  proof (cases r)
    case (Some t)
    from assms have "uptime_fits item_size (res_id (latencyPub d)) (fst now - t)" by (simp add: dev_fits_def)
    from dev_publish_sends [OF this, of g d] obtain bs v where
      bs: "dev_publish tc g (latencyPub d) (fst now - t) d = Inr (outgoingFrame_on bs d)"
      "cbor_encodes tc at 100 (items_MsgPublish \<lparr>publish_id = res_id (latencyPub d), publish_value = v\<rparr>) bs" by blast
    have "Publish \<lparr>publish_id = res_id (latencyPub d), publish_value = v\<rparr> \<in> dev_answers d" by (simp add: dev_answers_def)
    with Inr Some bs show ?thesis
      using follows_trans [OF follows_publish [OF bs(2)] follows_set(2)] by (simp add: on_incomingPublish_def)
  qed (use Inr in \<open>simp add: on_incomingPublish_def follows_refl\<close>)
qed

lemma dev_handlers_bounded:
  assumes "dev_fits item_size d0"
  shows "list_all (bounded (dev_follows tc at (dev_answers d0) d0) (bytes_dup_faults tc)) (dev_handlers tc g gi junk t0 now)"
proof -
  have fits: "dev_fits item_size d" if "dev_follows tc at (dev_answers d0) d0 d" for d
    using follows_fits [OF that assms] .
  have "bounded (dev_follows tc at (dev_answers d0) d0) (bytes_dup_faults tc) (on_incomingPublish tc g gi junk t0 now)"
    unfolding bounded_def
  proof (intro allI impI conjI)
    fix inp s e
    assume "dev_follows tc at (dev_answers d0) d0 s" "on_incomingPublish tc g gi junk t0 now inp s = Inl e"
    with incomingPublish_safe [OF fits, of s g gi junk t0 now inp] show "e \<in> bytes_dup_faults tc" by simp
  next
    fix inp s s'
    assume "dev_follows tc at (dev_answers d0) d0 s" "on_incomingPublish tc g gi junk t0 now inp s = Inr s'"
    with incomingPublish_safe [OF fits, of s g gi junk t0 now inp] show "dev_follows tc at (dev_answers d0) d0 s'"
      using answers_trans by simp
  qed
  moreover have "bounded (dev_follows tc at (dev_answers d0) d0) (bytes_dup_faults tc) (on_incomingConnect tc)"
    unfolding bounded_def
  proof (intro allI impI conjI)
    fix inp s e
    assume "dev_follows tc at (dev_answers d0) d0 s" "on_incomingConnect tc inp s = Inl e"
    with incomingConnect_safe [OF fits, of s inp] show "e \<in> bytes_dup_faults tc" by simp
  next
    fix inp s s'
    assume "dev_follows tc at (dev_answers d0) d0 s" "on_incomingConnect tc inp s = Inr s'"
    with incomingConnect_safe [OF fits, of s inp] show "dev_follows tc at (dev_answers d0) d0 s'"
      using answers_trans by simp
  qed
  moreover have "bounded (dev_follows tc at (dev_answers d0) d0) (bytes_dup_faults tc) (\<lambda>_. Inr)"
    by (simp add: bounded_def)
  ultimately show ?thesis
    by (simp add: dev_handlers_def)
qed

end

section \<open>The framer\<close>

text \<open>Bytes between flags that are no frame, and more than the literal has.\<close>

definition rejected :: "bytes \<Rightarrow> fault \<Rightarrow> bool" where
  "rejected bs e \<longleftrightarrow> e = OutOfBounds \<and>
     (\<exists>noise clean. sublist noise bs \<and> 17 < length noise \<and> ppp_deframe noise = Inr (False, clean))"

lemma dev_toStdout_fault: "dev_toStdout bs s = Inl e \<Longrightarrow> e = OutOfBounds \<and> 17 < length bs"
  by (auto simp: dev_toStdout_def ignoring_bytes_def split: if_splits)

lemma dev_toStdout_keeps: "dev_toStdout bs s = Inr s' \<Longrightarrow>
    dev_inputFrame s' = dev_inputFrame s \<and> dev_lastFrameFlag s' = dev_lastFrameFlag s"
  by (auto simp: dev_toStdout_def split: if_splits)

lemma rejected_append: "rejected xs e \<Longrightarrow> rejected (xs @ ys) e" "rejected ys e \<Longrightarrow> rejected (xs @ ys) e"
  unfolding rejected_def by (meson sublist_append_leftI sublist_append_rightI sublist_order.order.trans)+

lemma dev_rxd_byte_fault:
  "dev_rxd_byte t b s = Inl e \<Longrightarrow> pops (dev_inputFrame s) e \<or> rejected (dev_inputFrame s) e"
  by (auto simp: dev_rxd_byte_def dev_handleFrame_def Let_def pops_def popping_def rejected_def
      elim!: seq_InlE split: if_splits prod.splits dest: deframe_fault dest!: dev_toStdout_fault)

lemma dev_rxd_byte_next:
  "dev_rxd_byte t b s = Inr s' \<Longrightarrow> (dev_inputFrame s' = [] \<or> dev_inputFrame s' = dev_inputFrame s @ [b]) \<and>
    dev_lastFrameFlag s' \<in> {dev_lastFrameFlag s, t}"
  by (auto simp: dev_rxd_byte_def dev_handleFrame_def dev_emit_def Let_def
      elim!: seq_InrE split: if_splits prod.splits dest!: dev_toStdout_keeps)

text \<open>What has not been framed yet is the end of what has been \<open>seen\<close>.\<close>

lemma dev_loop_cases:
  assumes "suffix (dev_inputFrame s) seen"
  shows "case for_each (\<lambda>i. dev_rxd_byte (clk i)) n bs s of
      Inl e \<Rightarrow> pops (seen @ bs) e \<or> rejected (seen @ bs) e
    | Inr s' \<Rightarrow> dev_lastFrameFlag s' \<in> insert (dev_lastFrameFlag s) (clk ` {n..<n + length bs})"
  using assms
proof (induction bs arbitrary: n s seen)
  case (Cons b bs)
  show ?case
  proof (cases "dev_rxd_byte (clk n) b s")
    case (Inl e)
    then have "pops seen e \<or> rejected seen e"
      using dev_rxd_byte_fault [OF Inl] Cons.prems by (auto simp: suffix_def intro: pops_append rejected_append)
    with Inl show ?thesis by (auto simp: pops_append rejected_append)
  next
    case (Inr s1)
    then have "suffix (dev_inputFrame s1) (seen @ [b])" "dev_lastFrameFlag s1 \<in> {dev_lastFrameFlag s, clk n}"
      using dev_rxd_byte_next [OF Inr] Cons.prems by auto
    from this(2) Cons.IH [OF this(1), of "Suc n"] Inr show ?thesis
      by (auto split: sum.splits)
  qed
qed simp

text \<open>A chunk of more than 17 bytes at the end of which the last flag was seen too long ago.\<close>

definition late_chunk :: "(nat \<Rightarrow> u64) \<Rightarrow> u64 \<Rightarrow> bytes \<Rightarrow> bool" where
  "late_chunk clk flag bs \<longleftrightarrow> 17 < length bs \<and>
     (\<exists>t. t \<in> insert flag (clk ` {0..<length bs}) \<and> clk (length bs) - t > ucast BytesToFrame_frameTimeout)"

lemma framer_fault:
  assumes "BytesToFrame_on clk bs s = Inl e"
  shows "pops (dev_inputFrame s @ bs) e \<or> rejected (dev_inputFrame s @ bs) e \<or>
    (e = OutOfBounds \<and> late_chunk clk (dev_lastFrameFlag s) bs)"
proof -
  note loop = dev_loop_cases [where s = s and seen = "dev_inputFrame s" and clk = clk and n = 0 and bs = bs]
  show ?thesis
  proof (cases "for_each (\<lambda>i. dev_rxd_byte (clk i)) 0 bs s")
    case (Inl e')
    with loop assms show ?thesis by (auto simp: BytesToFrame_on_def dev_handleRxd_def)
  next
    case (Inr s1)
    with loop have "dev_lastFrameFlag s1 \<in> insert (dev_lastFrameFlag s) (clk ` {0..<length bs})" by simp
    moreover have "e = OutOfBounds \<and> 17 < length bs \<and>
        clk (length bs) - dev_lastFrameFlag s1 > ucast BytesToFrame_frameTimeout"
      using assms Inr by (auto simp: BytesToFrame_on_def dev_handleRxd_def elim!: seq_InlE split: if_splits
          dest!: dev_toStdout_fault)
    ultimately show ?thesis unfolding late_chunk_def by blast
  qed
qed

section \<open>A device in operation\<close>

context tinycbor_laws begin

lemma frame_cases:
  assumes "dev_fits item_size d"
  shows "case bytesToFrame_on tc g gi junk t0 now bs (fs, d) of
      Inl e \<Rightarrow> e \<in> bytes_dup_faults tc
    | Inr p \<Rightarrow> dev_follows tc at (dev_answers d) d (snd p) \<and> (device_filters c fs \<longrightarrow> device_filters c (fst p))"
proof (cases "bytesToFrame_on tc g gi junk t0 now bs (fs, d)")
  case (Inl e)
  then have "filter_flows tc (dev_handlers tc g gi junk t0 now) bs fs d = Inl e"
    by (simp add: bytesToFrame_on_def)
  from filter_flows_fault [OF this dev_handlers_bounded [OF assms] follows_refl subset_refl] Inl
  show ?thesis by simp
next
  case (Inr p)
  then have "filter_flows tc (dev_handlers tc g gi junk t0 now) bs fs d = Inr (fst p, snd p)"
    by (simp add: bytesToFrame_on_def)
  from filter_flows_bounded [OF this dev_handlers_bounded [OF assms] follows_refl] Inr filter_flows_ok [OF this, of c]
  show ?thesis by (auto simp: device_filters_def)
qed

lemma dispatch_cases:
  assumes "dev_fits item_size d"
  shows "case dev_dispatch tc g gi junk t0 now bss (fs, d) of
      Inl e \<Rightarrow> e \<in> bytes_dup_faults tc
    | Inr p \<Rightarrow> dev_follows tc at (dev_answers d) d (snd p) \<and> (device_filters c fs \<longrightarrow> device_filters c (fst p))"
  using assms
proof (induction bss arbitrary: fs d)
  case (Cons bs bss)
  note step = frame_cases [OF Cons.prems, where c = c and g = g and gi = gi and junk = junk and ?t0.0 = t0 and now = now and
      bs = bs and fs = fs]
  have bss: "dev_dispatch tc g gi junk t0 now (bs # bss) (fs, d) =
      seq (bytesToFrame_on tc g gi junk t0 now bs (fs, d)) (dev_dispatch tc g gi junk t0 now bss)"
    using dev_dispatch_append [of tc g gi junk t0 now "[bs]" bss "(fs, d)"] by (simp add: dev_dispatch_single)
  show ?case
  proof (cases "bytesToFrame_on tc g gi junk t0 now bs (fs, d)")
    case (Inl e)
    with step bss show ?thesis by simp
  next
    case (Inr p)
    with step have p: "dev_follows tc at (dev_answers d) d (snd p)" "device_filters c fs \<longrightarrow> device_filters c (fst p)" by simp_all
    with Cons.IH [OF follows_fits [OF p(1) Cons.prems], of "fst p"] Inr bss show ?thesis
      by (auto split: sum.splits intro: answers_trans)
  qed
qed (simp add: follows_refl)

lemma onRxd_cases:
  assumes "dev_fits item_size (dev_broker v)"
  shows "case onRxd tc g gi junk t0 now clk bs v of
      Inl e \<Rightarrow> pops (dev_inputFrame (dev_framer v) @ bs) e \<or> rejected (dev_inputFrame (dev_framer v) @ bs) e \<or>
        (e = OutOfBounds \<and> late_chunk clk (dev_lastFrameFlag (dev_framer v)) bs) \<or> e \<in> bytes_dup_faults tc
    | Inr v' \<Rightarrow> dev_follows tc at (dev_answers (dev_broker v)) (dev_broker v) (dev_broker v') \<and>
        (device_filters c (dev_filters v) \<longrightarrow> device_filters c (dev_filters v'))"
proof (cases "BytesToFrame_on clk bs (dev_framer v)")
  case (Inl e)
  with framer_fault [OF Inl] show ?thesis by (auto simp: onRxd_def)
next
  case (Inr f)
  let ?bss = "dev_emitted (drop (length (dev_outputs (dev_framer v))) (dev_outputs f))"
  note cases = dispatch_cases [OF assms, where c = c and g = g and gi = gi and junk = junk and ?t0.0 = t0 and now = now and
      bss = ?bss and fs = "dev_filters v"]
  show ?thesis
  proof (cases "dev_dispatch tc g gi junk t0 now ?bss (dev_filters v, dev_broker v)")
    case (Inl e)
    with cases Inr show ?thesis by (simp add: onRxd_def)
  next
    case p: (Inr p)
    with cases Inr show ?thesis by (cases p) (simp add: onRxd_def)
  qed
qed

end

text \<open>What happens to a device: bytes arrive, with whatever the clock and the stack hold, and the timers fire.\<close>

inductive device_life :: "('e, 'i) tinycbor \<Rightarrow> ('e, 'i) Device \<Rightarrow> ('e, 'i) Device \<Rightarrow> bool" for tc where
  rxd: "onRxd tc g gi junk t0 now clk bs v = Inr v' \<Longrightarrow> device_life tc v v'"
| keepAliveTick: "on_keepAlive tc g t (dev_broker v) = Inr d \<Longrightarrow> device_life tc v (v\<lparr>dev_broker := d\<rparr>)"
| connectTick: "device_life tc v (v\<lparr>dev_broker := on_connectTimer t (dev_broker v)\<rparr>)"

lemma life_follows:
  assumes "tinycbor_laws tc open_array at item_size"
    and "device_life tc v v'" "dev_fits item_size (dev_broker v)"
  shows "dev_follows tc at (dev_messages (dev_broker v)) (dev_broker v) (dev_broker v')"
  using assms(2)
proof cases
  case (rxd g gi junk t0 now clk bs)
  with tinycbor_laws.onRxd_cases [OF assms(1,3), where g = g and gi = gi and junk = junk and ?t0.0 = t0 and
      now = now and clk = clk and bs = bs] show ?thesis
    by (auto intro: follows_mono [OF _ answers_are_messages])
next
  case (keepAliveTick g t d)
  with tinycbor_laws.keepAlive_safe [OF assms(1,3), of g t] show ?thesis by auto
next
  case (connectTick t)
  then show ?thesis by (simp add: follows_connectTimer)
qed

lemma life_reachable:
  assumes "tinycbor_laws tc open_array at item_size"
    and "(device_life tc)\<^sup>*\<^sup>* v v'" "dev_fits item_size (dev_broker v)"
  shows "dev_follows tc at (dev_messages (dev_broker v)) (dev_broker v) (dev_broker v')"
  using assms(2)
proof induction
  case base
  show ?case by (rule follows_refl)
next
  case (step v' v'')
  from life_follows [OF assms(1) step.hyps(2) follows_fits [OF step.IH assms(3)]]
  show ?case by (rule messages_trans [OF step.IH])
qed

section \<open>Properties\<close>


lemma wire_board_fits: "dev_fits wire_size (dev_broker wire_board)"
  unfolding dev_fits_def wire_board_def Device.simps
  by (intro conjI wire_device_fits allI wire_uptime_fits wire_device_state)


end
