(* ===== verification/System_Safety.thy ===== *)
theory System_Safety
  imports Whole_System Proxy_Types Device_Faults
begin

text \<open>
  What holds of the device and the proxy on their line in any order of events, restarts of either included: no event fails, only
  messages of the device are under way to the proxy, the proxy's broker has only the effects of
  these messages, and whatever is under way is gone after three deliveries.
\<close>

section \<open>The invariant\<close>

text \<open>Frames with a payload, and frames of messages in \<open>M\<close>.\<close>

definition framed :: "bytes list \<Rightarrow> bool" where
  "framed fs \<longleftrightarrow> (\<exists>ps. fs = map ppp_frame ps \<and> list_all (\<lambda>p. p \<noteq> []) ps)"

definition carried :: "('e, 'i) tinycbor \<Rightarrow> (cbor_item list \<Rightarrow> 'i \<Rightarrow> bool) \<Rightarrow> client_message set \<Rightarrow> bytes list \<Rightarrow> bool" where
  "carried tc at M fs \<longleftrightarrow> (\<exists>ms. set ms \<subseteq> M \<and> frames_of tc at 100 (map client_items ms) fs)"

lemma framed_Nil [simp]: "framed []"
  by (simp add: framed_def)

lemma framed_append: "framed xs \<Longrightarrow> framed ys \<Longrightarrow> framed (xs @ ys)"
  unfolding framed_def by (metis list_all_append map_append)

lemma framed_single: "bs \<noteq> [] \<Longrightarrow> framed [ppp_frame bs]"
  unfolding framed_def by (intro exI [of _ "[bs]"]) simp

lemma framed_frames_of: "frames_of tc at c xss fs \<Longrightarrow> framed fs"
  by (auto simp: frames_of_def framed_def list_all2_conv_all_nth list_all_length cbor_encodes_def)

lemma carried_Nil [simp]: "carried tc at M []"
  unfolding carried_def by (intro exI [of _ "[]"]) simp

lemma carried_append:
  assumes "carried tc at M xs" "carried tc at M ys"
  shows "carried tc at M (xs @ ys)"
proof -
  from assms obtain ms ns where "set ms \<subseteq> M" "set ns \<subseteq> M" "frames_of tc at 100 (map client_items ms) xs"
    "frames_of tc at 100 (map client_items ns) ys" unfolding carried_def by blast
  then show ?thesis
    unfolding carried_def by (intro exI [of _ "ms @ ns"]) (simp add: frames_of_append)
qed

lemma carried_mono: "carried tc at M fs \<Longrightarrow> M \<subseteq> N \<Longrightarrow> carried tc at N fs"
  unfolding carried_def by blast

text \<open>When frames are lost, so are messages, and nothing else.\<close>

lemma list_all2_nths: "list_all2 P xs ys \<Longrightarrow> list_all2 P (nths xs A) (nths ys A)"
  by (induction arbitrary: A rule: list_all2_induct) (simp_all add: nths_Cons)

lemma framed_nths:
  assumes "framed fs"
  shows "framed (nths fs A)"
proof -
  from assms obtain ps where "fs = map ppp_frame ps" "list_all (\<lambda>p. p \<noteq> []) ps" by (auto simp: framed_def)
  with set_nths_subset [of ps A] have "nths fs A = map ppp_frame (nths ps A)" "list_all (\<lambda>p. p \<noteq> []) (nths ps A)"
    by (auto simp: nths_map list_all_iff)
  then show ?thesis unfolding framed_def by blast
qed

lemma carried_nths:
  assumes "carried tc at M fs"
  shows "carried tc at M (nths fs A)"
proof -
  from assms obtain ms rs where ms: "set ms \<subseteq> M" "fs = map ppp_frame rs"
    "list_all2 (cbor_encodes tc at 100) (map client_items ms) rs"
    by (auto simp: carried_def frames_of_def)
  have "set (nths ms A) \<subseteq> M" "nths fs A = map ppp_frame (nths rs A)"
    "list_all2 (cbor_encodes tc at 100) (map client_items (nths ms A)) (nths rs A)"
    using ms(1) set_nths_subset [of ms A] list_all2_nths [OF ms(3), of A] by (auto simp: ms(2) nths_map)
  then show ?thesis unfolding carried_def frames_of_def by blast
qed

lemma follows_carried:
  assumes "dev_follows tc at M d d'"
  shows "carried tc at M (drop (length (serial_written d)) (serial_written d'))"
  using assms by (auto simp: dev_follows_def carried_def)

definition board_safe :: "(cbor_item \<Rightarrow> nat) \<Rightarrow> ('e, 'i) Device \<Rightarrow> bool" where
  "board_safe item_size b \<longleftrightarrow> dev_fits item_size (dev_broker b) \<and> has_own_resources (dev_broker b) \<and>
     device_filters 1024 (dev_filters b) \<and> dev_inputFrame (dev_framer b) = []"

definition host_safe :: "('e, 'i) tinycbor \<Rightarrow> ('e, 'i) Host \<Rightarrow> bool" where
  "host_safe tc h \<longleftrightarrow> proxy_typed tc (proxy h) \<and> inputFrame (bytesToFrame h) = []"

definition system_safe ::
    "('e, 'i) surroundings \<Rightarrow> (cbor_item list \<Rightarrow> 'i \<Rightarrow> bool) \<Rightarrow> (cbor_item \<Rightarrow> nat) \<Rightarrow> ('e, 'i) System \<Rightarrow> bool" where
  "system_safe env at item_size s \<longleftrightarrow> board_safe item_size (board s) \<and> host_safe (codec env) (host s) \<and>
     carried (codec env) at (dev_messages (dev_broker (board s))) (going_up s) \<and> framed (going_down s)"

text \<open>Samples fit the buffer of the proxy's serializer, and what restarts is as its program constructs it.\<close>

fun event_ok :: "(cbor_item \<Rightarrow> nat) \<Rightarrow> ('e, 'i) system_event \<Rightarrow> bool" where
  "event_ok item_size (ZenohSample i v) \<longleftrightarrow>
     message_bytes item_size (items_MsgPublish \<lparr>publish_id = i, publish_value = v\<rparr>) \<le> 1024"
| "event_ok item_size (ProxyRestart h) \<longleftrightarrow> (\<exists>flag garbage enc it. h = Host_new flag garbage enc it)"
| "event_ok item_size (BoardRestart b) \<longleftrightarrow>
     (\<exists>flag garbage enc it null loopback. b = Board_new flag garbage enc it null loopback)"
| "event_ok item_size _ \<longleftrightarrow> True"

text \<open>Devices with the resources that \<open>init\<close> creates send the same messages.\<close>

lemma follows_own: "dev_follows tc at M d d' \<Longrightarrow> has_own_resources d \<Longrightarrow> has_own_resources d'"
  by (simp add: dev_follows_def has_own_resources_def)

lemma own_messages:
  assumes "has_own_resources d" "has_own_resources d'"
  shows "dev_messages d' = dev_messages d"
  using assms unfolding dev_messages_def dev_answers_def registration_own [OF assms(1)] registration_own [OF assms(2)]
  by (simp add: has_own_resources_def)

lemma own_fits:
  assumes "has_own_resources d" "has_own_resources d'" "dev_fits item_size d" "ser_capacity (dev_toCbor d') = 100"
  shows "dev_fits item_size d'"
  using assms by (simp add: has_own_resources_def dev_fits_def)

lemma host_safe_ok: "host_safe tc h \<Longrightarrow> host_ok h"
  by (auto simp: host_safe_def host_ok_def proxy_typed_def proxy_ok_def core_typed_def core_ok_def filters_ok_def
      uplink_typed_def ser_typed_def de_typed_def list_all_iff)

lemma board_safe_ok: "board_safe item_size b \<Longrightarrow> board_ok b"
  by (simp add: board_safe_def board_ok_def dev_fits_def)

lemma run_incoming_typed:
  assumes "run_chunks (serial_incoming tc z junk) cs h = Inr h'" "proxy_typed tc (proxy h)"
  shows "proxy_typed tc (proxy h')"
  using assms
proof (induction cs arbitrary: h)
  case (Cons c cs)
  obtain clk bs where c: "c = (clk, bs)" by force
  with Cons.prems obtain h1 where h1: "serial_incoming tc z junk clk bs h = Inr h1"
    "run_chunks (serial_incoming tc z junk) cs h1 = Inr h'" by (auto elim!: seq_InrE)
  from Cons.IH [OF h1(2)] host_step_typed [OF step_chunk [OF h1(1)] Cons.prems(2)] show ?case by blast
qed simp

section \<open>An idle line\<close>

lemma extractor_idle:
  assumes "concat (map snd cs) = []" "inputFrame s = []"
  shows "run_chunks FrameExtractor_on cs s = Inr s"
  using assms(1)
proof (induction cs)
  case (Cons c cs)
  obtain clk where "c = (clk, [])" using Cons.prems by (cases c) simp
  moreover have "FrameExtractor_on clk [] s = Inr s" for clk
    using assms(2) by (simp add: FrameExtractor_on_def handleRxd_def toStdout_def)
  ultimately show ?case using Cons by simp
qed simp

lemma framer_idle:
  assumes "concat (map snd cs) = []" "dev_inputFrame s = []"
  shows "run_chunks BytesToFrame_on cs s = Inr s"
  using assms(1)
proof (induction cs)
  case (Cons c cs)
  obtain clk where "c = (clk, [])" using Cons.prems by (cases c) simp
  moreover have "BytesToFrame_on clk [] s = Inr s" for clk
    using assms(2) by (simp add: BytesToFrame_on_def dev_handleRxd_def dev_toStdout_def)
  ultimately show ?case using Cons by simp
qed simp

text \<open>A line with any number of frames under way.\<close>

lemma framer_takes:
  assumes "carries line" "dev_inputFrame s = []" "list_all (\<lambda>p. p \<noteq> []) ps"
  shows "\<exists>s'. run_chunks BytesToFrame_on (line (concat (map ppp_frame ps))) s = Inr s' \<and> dev_inputFrame s' = [] \<and>
    dev_outputs s' = dev_outputs s @ map DevEmit ps"
proof (cases "ps = []")
  case True
  with framer_idle [of "line []" s] assms(2) carries_frames(3) [OF assms(1), of "[]"] show ?thesis by simp
next
  case False
  show ?thesis
    by (rule device_delivers)
      (use False assms in \<open>simp_all add: timeouts carries_frames\<close>)
qed

section \<open>Events\<close>

text \<open>What the proxy makes of the messages under way.\<close>

lemma host_takes:
  assumes "cbor_channel tc open_array at item_size 1024 1024"
    and "message_bytes item_size (items_MsgConnect connected_reply) \<le> 1024"
    and "carries line" "host_safe tc h" "frames_of tc at 100 (map client_items ms) fs"
  shows "\<exists>h' new. run_chunks (serial_incoming tc z junk) (line (concat fs)) h = Inr h' \<and> host_safe tc h' \<and>
    broker (core (proxy h')) = fold (broker_effect z (forward_sample tc)) ms (broker (core (proxy h))) \<and>
    serial_out (host_uplink h') = serial_out (host_uplink h) @ new \<and>
    frames_of tc at 1024 (concat (map reply_items ms)) new"
proof (cases "ms = []")
  case True
  then have fs: "fs = []" using assms(5) by simp
  have "run_chunks FrameExtractor_on (line []) (bytesToFrame h) = Inr (bytesToFrame h)"
    using extractor_idle carries_frames(3) [OF assms(3), of "[]"] assms(4) by (simp add: host_safe_def)
  from pipeline_run [OF this, of "[]" tc z junk "proxy h"] show ?thesis
    using True fs assms(4) by (simp add: host_safe_def)
next
  case False
  have ok: "proxy_ok 1024 1024 (proxy h)" "inputFrame (bytesToFrame h) = []" "proxy_typed tc (proxy h)"
    using host_safe_ok [OF assms(4)] assms(4) by (simp_all add: host_ok_def host_safe_def)
  from line_serves_sent [OF assms(1,2) ok(1,2) assms(3,5) False, of z junk] obtain h' new where
    "run_chunks (serial_incoming tc z junk) (line (concat fs)) h = Inr h'" "inputFrame (bytesToFrame h') = []"
    "broker (core (proxy h')) = fold (broker_effect z (forward_sample tc)) ms (broker (core (proxy h)))"
    "serial_out (host_uplink h') = serial_out (host_uplink h) @ new"
    "frames_of tc at 1024 (concat (map reply_items ms)) new" by blast
  with run_incoming_typed [OF this(1) ok(3)] show ?thesis by (auto simp: host_safe_def)
qed

text \<open>What the device makes of any frames under way.\<close>

lemma board_takes:
  assumes "tinycbor_laws tc open_array at item_size" "bytes_dup_total tc" "carries line" "board_safe item_size b" "framed fs"
  shows "\<exists>b'. run_chunks (onRxd tc g gi junk t0 now) (line (concat fs)) b = Inr b' \<and> board_safe item_size b' \<and>
    dev_follows tc at (dev_answers (dev_broker b)) (dev_broker b) (dev_broker b')"
proof -
  obtain ps where ps: "fs = map ppp_frame ps" "list_all (\<lambda>p. p \<noteq> []) ps"
    using assms(5) by (auto simp: framed_def)
  have b: "dev_fits item_size (dev_broker b)" "device_filters 1024 (dev_filters b)" "dev_inputFrame (dev_framer b) = []"
    using assms(4) by (simp_all add: board_safe_def)
  from framer_takes [OF assms(3) b(3) ps(2)] obtain e where
    e: "run_chunks BytesToFrame_on (line (concat fs)) (dev_framer b) = Inr e" "dev_inputFrame e = []"
      "dev_outputs e = dev_outputs (dev_framer b) @ map DevEmit ps"
    unfolding ps(1) by blast
  note cases = tinycbor_laws.dispatch_cases [OF assms(1) b(1), where c = 1024 and g = g and gi = gi and junk = junk and
      ?t0.0 = t0 and now = now and bss = "dev_emitted (map DevEmit ps)" and fs = "dev_filters b"]
  obtain q where q: "dev_dispatch tc g gi junk t0 now (dev_emitted (map DevEmit ps)) (dev_filters b, dev_broker b) = Inr q"
    using cases assms(2) by (auto simp: bytes_dup_faults_def split: sum.splits)
  with cases b(2) have "dev_follows tc at (dev_answers (dev_broker b)) (dev_broker b) (snd q)" "device_filters 1024 (fst q)"
    by simp_all
  moreover from dev_pipeline_run [OF e(1,3), of tc g gi junk t0 now "fst q" "snd q"] q have
    "run_chunks (onRxd tc g gi junk t0 now) (line (concat fs)) b =
      Inr (b\<lparr>dev_framer := e, dev_filters := fst q, dev_broker := snd q\<rparr>)" by simp
  ultimately show ?thesis
    using e(2) follows_fits [OF _ b(1)] follows_own assms(4) by (auto simp: board_safe_def)
qed

lemma surroundings_laws:
  assumes "surroundings_ok env open_array at item_size"
  shows "cbor_channel (codec env) open_array at item_size 1024 1024" "tinycbor_laws (codec env) open_array at item_size"
    "message_bytes item_size (items_MsgConnect connected_reply) \<le> 1024" "carries (line_up env)" "carries (line_down env)"
  using assms by (simp_all add: surroundings_ok_def cbor_channel_def)

lemma arrives_up:
  assumes "surroundings_ok env open_array at item_size" "host_safe (codec env) (host s)"
    and "frames_of (codec env) at 100 (map client_items ms) (going_up s)"
  shows "\<exists>s' new. system_step env ArriveUp s = Inr s' \<and> board s' = board s \<and> host_safe (codec env) (host s') \<and>
    host_broker s' = fold (broker_effect (zenoh_lib env) (forward_sample (codec env))) ms (host_broker s) \<and>
    going_up s' = [] \<and> going_down s' = going_down s @ new \<and>
    frames_of (codec env) at 1024 (concat (map reply_items ms)) new"
proof -
  note laws = surroundings_laws [OF assms(1)]
  from host_takes [OF laws(1,3,4) assms(2,3), of "zenoh_lib env" "stack_int env"] obtain h new where
    "run_chunks (serial_incoming (codec env) (zenoh_lib env) (stack_int env)) (line_up env (concat (going_up s))) (host s) = Inr h"
    "host_safe (codec env) h" "serial_out (host_uplink h) = serial_out (host_uplink (host s)) @ new"
    "broker (core (proxy h)) = fold (broker_effect (zenoh_lib env) (forward_sample (codec env))) ms (host_broker s)"
    "frames_of (codec env) at 1024 (concat (map reply_items ms)) new" by blast
  then show ?thesis by (simp add: set_host_def)
qed

lemma arrives_down:
  assumes "surroundings_ok env open_array at item_size" "bytes_dup_total (codec env)"
    and "board_safe item_size (board s)" "framed (going_down s)"
  shows "\<exists>s' new. system_step env (ArriveDown now) s = Inr s' \<and> host s' = host s \<and> board_safe item_size (board s') \<and>
    dev_follows (codec env) at (dev_answers (dev_broker (board s))) (dev_broker (board s)) (dev_broker (board s')) \<and>
    going_down s' = [] \<and> going_up s' = going_up s @ new \<and> carried (codec env) at (dev_answers (dev_broker (board s))) new"
proof -
  note laws = surroundings_laws [OF assms(1)]
  from board_takes [OF laws(2) assms(2) laws(5) assms(3,4), of "stack_encoder env" "stack_parser env" "stack_int env" "stack_time env" now]
  obtain b where
    b: "run_chunks (onRxd (codec env) (stack_encoder env) (stack_parser env) (stack_int env) (stack_time env) now)
        (line_down env (concat (going_down s))) (board s) = Inr b" "board_safe item_size b"
      "dev_follows (codec env) at (dev_answers (dev_broker (board s))) (dev_broker (board s)) (dev_broker b)" by blast
  with follows_carried [OF b(3)] show ?thesis by (simp add: set_board_def)
qed

section \<open>Every event keeps the invariant\<close>

text \<open>
  From \<open>s\<close> to \<open>s'\<close>: the device has sent messages of its own, unless it is a new one, and the
  broker of the proxy has had the effects of such messages, unless it is a new one.
\<close>

definition new_device :: "'e BrokerSerial \<Rightarrow> bool" where
  "new_device d \<longleftrightarrow> has_own_resources d \<and> ser_capacity (dev_toCbor d) = 100 \<and> serial_written d = []"

definition safe_next ::
    "('e, 'i) surroundings \<Rightarrow> (cbor_item list \<Rightarrow> 'i \<Rightarrow> bool) \<Rightarrow> (cbor_item \<Rightarrow> nat) \<Rightarrow> ('e, 'i) System \<Rightarrow> ('e, 'i) System \<Rightarrow> bool" where
  "safe_next env at item_size s s' \<longleftrightarrow> system_safe env at item_size s' \<and>
     (\<exists>d. (d = dev_broker (board s) \<or> new_device d) \<and>
       dev_follows (codec env) at (dev_messages (dev_broker (board s))) d (dev_broker (board s'))) \<and>
     (\<exists>ms b. set ms \<subseteq> dev_messages (dev_broker (board s)) \<and> (b = host_broker s \<or> b = BrokerZenoh_new) \<and>
       host_broker s' = fold (broker_effect (zenoh_lib env) (forward_sample (codec env))) ms b)"

lemma safe_nextI:
  assumes "system_safe env at item_size s'"
    and "dev_follows (codec env) at (dev_messages (dev_broker (board s))) (dev_broker (board s)) (dev_broker (board s'))"
    and "set ms \<subseteq> dev_messages (dev_broker (board s))" "b = host_broker s \<or> b = BrokerZenoh_new"
    and "host_broker s' = fold (broker_effect (zenoh_lib env) (forward_sample (codec env))) ms b"
  shows "safe_next env at item_size s s'"
  using assms unfolding safe_next_def by blast

lemma set_board_safe:
  assumes "system_safe env at item_size s"
    and "dev_follows (codec env) at (dev_messages (dev_broker (board s))) (dev_broker (board s)) d"
  shows "safe_next env at item_size s (set_board ((board s)\<lparr>dev_broker := d\<rparr>) s)"
proof -
  have "board_safe item_size ((board s)\<lparr>dev_broker := d\<rparr>)"
    using assms(1) follows_fits [OF assms(2)] follows_own [OF assms(2)] by (simp add: system_safe_def board_safe_def)
  with assms(1) carried_append [OF _ follows_carried [OF assms(2)]]
  have "system_safe env at item_size (set_board ((board s)\<lparr>dev_broker := d\<rparr>) s)"
    by (simp add: system_safe_def set_board_def follows_same(2) [OF assms(2)])
  with assms(2) show ?thesis by (intro safe_nextI [where ms = "[]" and b = "host_broker s"]) (simp_all add: set_board_def)
qed

lemma sample_safe:
  assumes "surroundings_ok env open_array at item_size" "system_safe env at item_size s"
    and "map_of (subscribers (host_broker s)) i = Some sub"
    and "message_bytes item_size (items_MsgPublish \<lparr>publish_id = i, publish_value = v\<rparr>) \<le> 1024"
  shows "\<exists>u. subscribeHandler v sub (host_uplink (host s)) = Inr u \<and>
    safe_next env at item_size s (set_host (set_uplink u (host s)) s)"
proof -
  note laws = surroundings_laws [OF assms(1)]
  have h: "proxy_typed (codec env) (proxy (host s))"
    using assms(2) by (simp add: system_safe_def host_safe_def)
  have p: "sub_callback sub = forward_sample (codec env)" "sub_id sub = i" "uplink_typed (host_uplink (host s))"
    using h map_of_SomeD [OF assms(3)] by (auto simp: proxy_typed_def core_typed_def broker_ok_def list_all_iff)
  have "cbor_channel.fits item_size 1024 (items_MsgPublish \<lparr>publish_id = i, publish_value = v\<rparr>)"
    using assms(4) by (simp add: cbor_channel.fits_def [OF laws(1)])
  moreover have "ser_capacity (to_cbor (host_uplink (host s))) = 1024"
    using p(3) by (simp add: uplink_typed_def ser_typed_def)
  ultimately obtain u bs where u: "forward_sample (codec env) i v (host_uplink (host s)) = Inr u"
    "serial_out u = serial_out (host_uplink (host s)) @ [ppp_frame bs]" "bs \<noteq> []"
    using cbor_channel.forward_sends [OF laws(1), of i v "host_uplink (host s)"] by (auto simp: cbor_encodes_def)
  have "host_safe (codec env) (set_uplink u (host s))"
    using assms(2) sends_typed(2) [OF u(1) p(3)]
    by (simp add: system_safe_def host_safe_def set_uplink_def proxy_typed_def core_typed_def)
  with assms(2) u(2) framed_append [OF _ framed_single [OF u(3)]]
  have "system_safe env at item_size (set_host (set_uplink u (host s)) s)"
    by (simp add: system_safe_def set_host_def) (simp add: set_uplink_def)
  then have "safe_next env at item_size s (set_host (set_uplink u (host s)) s)"
    by (intro safe_nextI [where ms = "[]" and b = "host_broker s"]) (simp_all add: set_host_def set_uplink_def follows_refl)
  with u(1) p(1,2) show ?thesis by (simp add: subscribeHandler_def)
qed


lemma same_safe: "system_safe env at item_size s \<Longrightarrow> safe_next env at item_size s s"
  by (rule safe_nextI [where ms = "[]" and b = "host_broker s"]) (simp_all add: follows_refl)

lemma tick_safe:
  assumes "surroundings_ok env open_array at item_size" "system_safe env at item_size s"
  shows "\<exists>s'. system_step env (KeepAliveTick t) s = Inr s' \<and> safe_next env at item_size s s'"
proof -
  have fits: "dev_fits item_size (dev_broker (board s))"
    using assms(2) by (simp add: system_safe_def board_safe_def)
  from tinycbor_laws.keepAlive_safe [OF surroundings_laws(2) [OF assms(1)] fits] obtain d where
    "on_keepAlive (codec env) (stack_encoder env) t (dev_broker (board s)) = Inr d"
    "dev_follows (codec env) at (dev_messages (dev_broker (board s))) (dev_broker (board s)) d" by blast
  with set_board_safe [OF assms(2) this(2)] show ?thesis by simp
qed

lemma up_safe:
  assumes "surroundings_ok env open_array at item_size" "system_safe env at item_size s"
    and "carried (codec env) at M (going_up s)" "M \<subseteq> dev_messages (dev_broker (board s))"
  shows "\<exists>s'. system_step env ArriveUp s = Inr s' \<and> safe_next env at item_size s s' \<and> going_up s' = [] \<and>
    ((\<forall>m \<in> M. reply_items m = []) \<longrightarrow> going_down s' = going_down s)"
proof -
  from assms(3) obtain ms where ms: "set ms \<subseteq> M" "frames_of (codec env) at 100 (map client_items ms) (going_up s)"
    by (auto simp: carried_def)
  have "host_safe (codec env) (host s)" using assms(2) by (simp add: system_safe_def)
  from arrives_up [OF assms(1) this ms(2)] obtain s' new where
    s': "system_step env ArriveUp s = Inr s'" "board s' = board s" "host_safe (codec env) (host s')"
      "host_broker s' = fold (broker_effect (zenoh_lib env) (forward_sample (codec env))) ms (host_broker s)"
      "going_up s' = []" "going_down s' = going_down s @ new"
      "frames_of (codec env) at 1024 (concat (map reply_items ms)) new" by blast
  have "system_safe env at item_size s'"
    using assms(2) s'(2,3,5,6) framed_append [OF _ framed_frames_of [OF s'(7)]] by (simp add: system_safe_def)
  from safe_nextI [OF this _ order_trans [OF ms(1) assms(4)] _ s'(4)] s'(2) have "safe_next env at item_size s s'"
    by (simp add: follows_refl)
  moreover have "new = []" if "\<forall>m \<in> M. reply_items m = []"
  proof -
    from that ms(1) have "concat (map reply_items ms) = []" by auto
    with s'(7) show ?thesis by simp
  qed
  ultimately show ?thesis using s'(1,5,6) by auto
qed

lemma down_safe:
  assumes "surroundings_ok env open_array at item_size" "bytes_dup_total (codec env)"
    and "system_safe env at item_size s"
  shows "\<exists>s'. system_step env (ArriveDown now) s = Inr s' \<and> safe_next env at item_size s s' \<and> going_down s' = [] \<and>
    (carried (codec env) at (dev_answers (dev_broker (board s))) (going_up s) \<longrightarrow>
      carried (codec env) at (dev_answers (dev_broker (board s'))) (going_up s'))"
proof -
  have "board_safe item_size (board s)" "framed (going_down s)" using assms(3) by (simp_all add: system_safe_def)
  from arrives_down [OF assms(1,2) this] obtain s' new where
    s': "system_step env (ArriveDown now) s = Inr s'" "host s' = host s" "board_safe item_size (board s')"
      "dev_follows (codec env) at (dev_answers (dev_broker (board s))) (dev_broker (board s)) (dev_broker (board s'))"
      "going_down s' = []" "going_up s' = going_up s @ new"
      "carried (codec env) at (dev_answers (dev_broker (board s))) new" by blast
  from follows_mono [OF s'(4) answers_are_messages] have
    follows: "dev_follows (codec env) at (dev_messages (dev_broker (board s))) (dev_broker (board s)) (dev_broker (board s'))" .
  have "system_safe env at item_size s'"
    using assms(3) s'(2,3,5,6) carried_append [OF _ carried_mono [OF s'(7) answers_are_messages]]
    by (simp add: system_safe_def follows_same(2) [OF follows])
  from safe_nextI [OF this follows, of "[]" "host_broker s"] s'(2) have "safe_next env at item_size s s'" by simp
  moreover have "carried (codec env) at (dev_answers (dev_broker (board s'))) (going_up s')"
    if "carried (codec env) at (dev_answers (dev_broker (board s))) (going_up s)"
    unfolding follows_same(1) [OF s'(4)] s'(6) using carried_append [OF that s'(7)] .
  ultimately show ?thesis using s'(1,5) by blast
qed

lemma Host_new_safe: "host_safe tc (Host_new flag garbage enc it)"
  by (simp add: host_safe_def Host_new_def FrameExtractor_new_def proxy_typed_new)

lemma restart_safe:
  assumes "system_safe env at item_size s"
  shows "\<exists>s'. system_step env (ProxyRestart (Host_new flag garbage enc it)) s = Inr s' \<and> safe_next env at item_size s s'"
proof -
  let ?s = "s\<lparr>host := Host_new flag garbage enc it, going_up := [], going_down := []\<rparr>"
  have "system_safe env at item_size ?s" using assms by (simp add: system_safe_def Host_new_safe)
  from safe_nextI [OF this, of s "[]" BrokerZenoh_new] show ?thesis by (simp add: follows_refl)
qed

lemma lost_safe:
  assumes "system_safe env at item_size s"
  shows "\<exists>s'. system_step env (FramesLost up down) s = Inr s' \<and> safe_next env at item_size s s'"
proof -
  let ?s = "s\<lparr>going_up := nths (going_up s) (- up), going_down := nths (going_down s) (- down)\<rparr>"
  have "system_safe env at item_size ?s"
    using assms by (simp add: system_safe_def carried_nths framed_nths)
  from safe_nextI [OF this, of s "[]" "host_broker s"] show ?thesis by (simp add: follows_refl)
qed

lemma Board_new_device: "new_device (dev_broker (Board_new flag garbage enc it null loopback))"
  using Board_new_ok [of flag garbage enc it null loopback]
  by (simp add: new_device_def board_ok_def) (simp add: Board_new_def BrokerSerial_init_def BrokerSerial_new_def Let_def
      dev_publisher_def dev_subscriber_def)

lemma board_restart_safe:
  assumes "system_safe env at item_size s"
  shows "\<exists>s'. system_step env (BoardRestart (Board_new flag garbage enc it null loopback)) s = Inr s' \<and> safe_next env at item_size s s'"
proof -
  let ?b = "Board_new flag garbage enc it null loopback" and ?d = "dev_broker (board s)"
  have own: "has_own_resources ?d" "dev_fits item_size ?d" "has_own_resources (dev_broker ?b)" "board_ok ?b"
    using assms by (simp_all add: system_safe_def board_safe_def)
  have "board_safe item_size ?b"
    using own(3,4) own_fits [OF own(1,3,2)] by (simp add: board_safe_def board_ok_def)
  with assms have "system_safe env at item_size (s\<lparr>board := ?b\<rparr>)"
    by (simp add: system_safe_def own_messages [OF own(1,3)])
  moreover have "\<exists>d. (d = ?d \<or> new_device d) \<and> dev_follows (codec env) at (dev_messages ?d) d (dev_broker ?b)"
    by (rule exI [of _ "dev_broker ?b"]) (simp add: Board_new_device follows_refl)
  moreover have "\<exists>ms b. set ms \<subseteq> dev_messages ?d \<and> (b = host_broker s \<or> b = BrokerZenoh_new) \<and>
      host_broker (s\<lparr>board := ?b\<rparr>) = fold (broker_effect (zenoh_lib env) (forward_sample (codec env))) ms b"
    by (rule exI [of _ "[]"], rule exI [of _ "host_broker s"]) simp
  ultimately show ?thesis by (simp add: safe_next_def)
qed

lemma system_step_safe:
  assumes "surroundings_ok env open_array at item_size" "bytes_dup_total (codec env)"
    and "system_safe env at item_size s" "event_ok item_size e"
  shows "\<exists>s'. system_step env e s = Inr s' \<and> safe_next env at item_size s s'"
proof (cases e)
  case (KeepAliveTick t)
  from tick_safe [OF assms(1,3)] KeepAliveTick show ?thesis by blast
next
  case (ConnectTick t)
  from set_board_safe [OF assms(3) follows_connectTimer] ConnectTick show ?thesis by simp
next
  case ArriveUp
  have "carried (codec env) at (dev_messages (dev_broker (board s))) (going_up s)"
    using assms(3) by (simp add: system_safe_def)
  from up_safe [OF assms(1,3) this order_refl] ArriveUp show ?thesis by blast
next
  case (ArriveDown now)
  from down_safe [OF assms(1-3)] ArriveDown show ?thesis by blast
next
  case (ZenohSample i v)
  show ?thesis
  proof (cases "map_of (subscribers (host_broker s)) i")
    case None
    with ZenohSample same_safe [OF assms(3)] show ?thesis by simp
  next
    case (Some sub)
    from assms(4) ZenohSample have "message_bytes item_size (items_MsgPublish \<lparr>publish_id = i, publish_value = v\<rparr>) \<le> 1024" by simp
    from sample_safe [OF assms(1,3) Some this] ZenohSample Some show ?thesis by auto
  qed
next
  case (ProxyRestart h)
  with restart_safe [OF assms(3)] assms(4) show ?thesis by auto
next
  case (BoardRestart b)
  with assms(4) obtain flag garbage enc it null loopback where
    "e = BoardRestart (Board_new flag garbage enc it null loopback)" by auto
  then show ?thesis using board_restart_safe [OF assms(3)] by blast
next
  case (FramesLost up down)
  with lost_safe [OF assms(3)] show ?thesis by blast
qed

section \<open>Runs\<close>

text \<open>What every step keeps holds after a run.\<close>

lemma system_run_safe:
  assumes "surroundings_ok env open_array at item_size" "bytes_dup_total (codec env)"
    and "\<And>s s'. safe_next env at item_size s s' \<Longrightarrow> P s \<Longrightarrow> P s'"
    and "system_safe env at item_size s" "P s" "list_all (event_ok item_size) es"
  shows "\<exists>s'. system_run env es s = Inr s' \<and> system_safe env at item_size s' \<and> P s'"
  using assms(4-6)
proof (induction es arbitrary: s)
  case Nil
  then show ?case by simp
next
  case (Cons e es)
  from Cons.prems system_step_safe [OF assms(1,2), of s e] obtain s1 where
    s1: "system_step env e s = Inr s1" "safe_next env at item_size s s1" by auto
  then have "system_safe env at item_size s1" "P s1"
    using Cons.prems(2) assms(3) by (auto simp: safe_next_def)
  from Cons.IH [OF this] Cons.prems(3) obtain s' where
    "system_run env es s1 = Inr s'" "system_safe env at item_size s'" "P s'" by auto
  with s1(1) show ?case by auto
qed

text \<open>Three deliveries empty the line: what the device answers gets no reply.\<close>

lemma answers_unreplied: "\<forall>m \<in> dev_answers d. reply_items m = []"
  by (auto simp: dev_answers_def registration_def)

lemma safe_quiet: "system_safe env at item_size s \<Longrightarrow> going_up s = [] \<Longrightarrow> going_down s = [] \<Longrightarrow> quiet s"
  by (auto simp: system_safe_def quiet_def intro: board_safe_ok host_safe_ok)

lemma system_drains:
  assumes "surroundings_ok env open_array at item_size" "bytes_dup_total (codec env)" "system_safe env at item_size s"
  shows "\<exists>s'. system_run env [ArriveUp, ArriveDown now, ArriveUp] s = Inr s' \<and> quiet s'"
proof -
  have "carried (codec env) at (dev_messages (dev_broker (board s))) (going_up s)"
    using assms(3) by (simp add: system_safe_def)
  from up_safe [OF assms(1,3) this order_refl] obtain s1 where
    s1: "system_step env ArriveUp s = Inr s1" "system_safe env at item_size s1" "going_up s1 = []"
    by (auto simp: safe_next_def)
  from down_safe [OF assms(1,2) s1(2), of now] s1(3) obtain s2 where
    s2: "system_step env (ArriveDown now) s1 = Inr s2" "system_safe env at item_size s2" "going_down s2 = []"
      "carried (codec env) at (dev_answers (dev_broker (board s2))) (going_up s2)"
    by (auto simp: safe_next_def)
  from up_safe [OF assms(1) s2(2,4) answers_are_messages] obtain s3 where
    "system_step env ArriveUp s2 = Inr s3" "system_safe env at item_size s3" "going_up s3 = []" "going_down s3 = []"
    using answers_unreplied s2(3) by (auto simp: safe_next_def)
  with s1(1) s2(1) safe_quiet show ?thesis by auto
qed

end
