(* ===== verification/System_Recovery.thy ===== *)
theory System_Recovery
  imports System_Safety
begin

text \<open>
  The proxy's tables hold nothing but the resources of the device, in any order of events; so from any
  state the system can get into, the line empties, the connect timer ends a connection that has not
  looped back, and the device and the proxy find each other again.
\<close>

section \<open>Tables of the device's own resources\<close>

definition own_subscriber :: "'e forward \<Rightarrow> c_int \<times> 'e forward Sub \<Rightarrow> bool" where
  "own_subscriber fw p \<longleftrightarrow> (\<exists>h. p = (2, \<lparr>sub_id = 2, sub_key = uptime_key, sub_callback = fw, zn_subscriber = h\<rparr>))"

definition own_publisher :: "c_int \<times> Pub \<Rightarrow> bool" where
  "own_publisher p \<longleftrightarrow> (\<exists>rid h. p = (0, \<lparr>pub_id = 0, pub_key = uptime_key, pub_reskey = Rid rid, zn_publisher = h\<rparr>) \<or>
     p = (1, \<lparr>pub_id = 1, pub_key = latency_key, pub_reskey = Rid rid, zn_publisher = h\<rparr>))"

definition own_tables :: "'e forward \<Rightarrow> 'e forward BrokerZenoh \<Rightarrow> bool" where
  "own_tables fw b \<longleftrightarrow> list_all (own_subscriber fw) (subscribers b) \<and> list_all own_publisher (publishers b)"

lemma own_tables_new [simp]: "own_tables fw BrokerZenoh_new"
  by (simp add: own_tables_def BrokerZenoh_new_def)

lemma own_tables_run:
  assumes "own_tables fw b"
  shows "own_tables fw (snd (BrokerZenoh_connect z client b))" "own_tables fw (snd (BrokerZenoh_publish z i v b))"
    "own_tables fw (snd (BrokerZenoh_subscriber z 2 uptime_key fw b))"
    "own_tables fw (snd (BrokerZenoh_publisher z 0 uptime_key b))"
    "own_tables fw (snd (BrokerZenoh_publisher z 1 latency_key b))"
  using assms by (simp_all add: own_tables_def broker_defs um_emplace_def own_subscriber_def own_publisher_def Let_def
      split: option.splits)

lemma own_effect:
  assumes "has_own_resources d" "m \<in> dev_messages d" "own_tables fw b"
  shows "own_tables fw (broker_effect z fw m b)"
  using assms(2) own_tables_run [OF assms(3)]
  by (auto simp: dev_messages_def dev_answers_def registration_own [OF assms(1)] own_keys)

lemma own_effects:
  assumes "has_own_resources d" "own_tables fw b" "set ms \<subseteq> dev_messages d"
  shows "own_tables fw (fold (broker_effect z fw) ms b)"
  using assms(2,3) by (induction ms arbitrary: b) (auto intro: own_effect [OF assms(1)])

text \<open>
  With the device's resources and messages: since its start it has written nothing but messages of its own.
\<close>

definition own_system :: "('e, 'i) surroundings \<Rightarrow> (cbor_item list \<Rightarrow> 'i \<Rightarrow> bool) \<Rightarrow> ('e, 'i) System \<Rightarrow> bool" where
  "own_system env at s \<longleftrightarrow> has_own_resources (dev_broker (board s)) \<and>
     carried (codec env) at (dev_messages (dev_broker (board s))) (serial_written (dev_broker (board s))) \<and>
     own_tables (forward_sample (codec env)) (host_broker s)"

lemma own_written:
  assumes "dev_follows tc at M d d'" "carried tc at M (serial_written d)"
  shows "carried tc at M (serial_written d')"
proof -
  from assms(1) have "serial_written d' = serial_written d @ drop (length (serial_written d)) (serial_written d')"
    by (auto simp: dev_follows_def)
  with carried_append [OF assms(2) follows_carried [OF assms(1)]] show ?thesis by simp
qed

lemma own_next:
  assumes "safe_next env at item_size s s'" "own_system env at s"
  shows "own_system env at s'"
proof -
  let ?M = "dev_messages (dev_broker (board s))"
  from assms(1) obtain d ms b where
    n: "d = dev_broker (board s) \<or> new_device d" "dev_follows (codec env) at ?M d (dev_broker (board s'))"
      "set ms \<subseteq> ?M" "b = host_broker s \<or> b = BrokerZenoh_new"
      "host_broker s' = fold (broker_effect (zenoh_lib env) (forward_sample (codec env))) ms b"
    unfolding safe_next_def by blast
  have own: "has_own_resources (dev_broker (board s))" "own_tables (forward_sample (codec env)) b"
    "has_own_resources d" "carried (codec env) at ?M (serial_written d)"
    using n(1,4) assms(2) by (auto simp: own_system_def new_device_def)
  from own_effects [OF own(1,2) n(3)] have "own_tables (forward_sample (codec env)) (host_broker s')"
    unfolding n(5) .
  moreover have own': "has_own_resources (dev_broker (board s'))" using follows_own [OF n(2) own(3)] .
  ultimately show ?thesis
    using own_written [OF n(2) own(4)] by (simp add: own_system_def own_messages [OF own(1) own'])
qed

lemma own_run:
  assumes "surroundings_ok env open_array at item_size" "bytes_dup_total (codec env)"
    and "system_safe env at item_size s" "own_system env at s" "list_all (event_ok item_size) es"
  shows "\<exists>s'. system_run env es s = Inr s' \<and> system_safe env at item_size s' \<and> own_system env at s'"
  by (rule system_run_safe [where P = "own_system env at", OF assms(1,2) _ assms(3-5)]) (rule own_next)

section \<open>Registering anew\<close>

text \<open>Whatever of its own the proxy knew of the device, it knows all of it after a registration.\<close>

lemma map_of_own:
  "list_all (own_subscriber fw) m \<Longrightarrow> map_of m 2 = Some sub \<Longrightarrow>
    \<exists>h. sub = \<lparr>sub_id = 2, sub_key = uptime_key, sub_callback = fw, zn_subscriber = h\<rparr>"
  "list_all own_publisher n \<Longrightarrow> map_of n 0 = Some pub \<Longrightarrow>
    \<exists>rid h. pub = \<lparr>pub_id = 0, pub_key = uptime_key, pub_reskey = Rid rid, zn_publisher = h\<rparr>"
  "list_all own_publisher n \<Longrightarrow> map_of n 1 = Some pub \<Longrightarrow>
    \<exists>rid h. pub = \<lparr>pub_id = 1, pub_key = latency_key, pub_reskey = Rid rid, zn_publisher = h\<rparr>"
  by (drule map_of_SomeD, auto simp: list_all_iff own_subscriber_def own_publisher_def)+

lemma tables_after:
  "zenoh_serves z \<Longrightarrow> zenoh_session (snd (BrokerZenoh_connect z client b)) \<noteq> 0"
  "subscribers (snd (BrokerZenoh_connect z client b)) = subscribers b"
  "publishers (snd (BrokerZenoh_connect z client b)) = publishers b"
  "zenoh_session (snd (BrokerZenoh_subscriber z i key cb b)) = zenoh_session b"
  "publishers (snd (BrokerZenoh_subscriber z i key cb b)) = publishers b"
  "zenoh_serves z \<Longrightarrow> map_of (subscribers (snd (BrokerZenoh_subscriber z i key cb b))) i \<noteq> None"
  "zenoh_session (snd (BrokerZenoh_publisher z j key b)) = zenoh_session b"
  "subscribers (snd (BrokerZenoh_publisher z j key b)) = subscribers b"
  "map_of (publishers (snd (BrokerZenoh_publisher z j key b))) k = None \<longleftrightarrow> k \<noteq> j \<and> map_of (publishers b) k = None"
  by (auto simp: zenoh_serves_def broker_defs um_emplace_def map_add_def Let_def split: option.splits if_splits)

lemma registered_again:
  assumes "has_own_resources d" "zenoh_serves z" "own_tables fw b"
  shows "knows_own_resources fw (fold (broker_effect z fw) (Connect \<lparr>clientId = brokerSrcPrefix\<rparr> # registration d) b)"
proof -
  let ?b = "fold (broker_effect z fw) (Connect \<lparr>clientId = brokerSrcPrefix\<rparr> # registration d) b"
  have "set (Connect \<lparr>clientId = brokerSrcPrefix\<rparr> # registration d) \<subseteq> dev_messages d"
    by (auto simp: dev_messages_def dev_answers_def)
  from own_effects [OF assms(1,3) this, of z] have
    own: "list_all (own_subscriber fw) (subscribers ?b)" "list_all own_publisher (publishers ?b)"
    by (simp_all add: own_tables_def)
  have "zenoh_session ?b \<noteq> 0" "map_of (subscribers ?b) 2 \<noteq> None" "map_of (publishers ?b) 0 \<noteq> None"
    "map_of (publishers ?b) 1 \<noteq> None"
    unfolding registration_own [OF assms(1)] by (simp_all add: tables_after assms(2) own_keys)
  then show ?thesis
    using map_of_own(1) [OF own(1)] map_of_own(2,3) [OF own(2)] unfolding knows_own_resources_def by blast
qed

section \<open>Power on and runs\<close>

definition System_new :: "('e, 'i) Device \<Rightarrow> ('e, 'i) Host \<Rightarrow> ('e, 'i) System" where
  "System_new b h = \<lparr>board = b, host = h, going_up = [], going_down = []\<rparr>"

lemma System_new_sel [simp]: "board (System_new b h) = b" "host (System_new b h) = h"
    "going_up (System_new b h) = []" "going_down (System_new b h) = []"
  by (simp_all add: System_new_def)

lemma power_on_safe:
  assumes "dev_fits item_size (dev_broker (Board_new flag garbage enc it null loopback))"
  shows "system_safe env at item_size (System_new (Board_new flag garbage enc it null loopback) (Host_new hflag hgarbage henc hit))"
    "own_system env at (System_new (Board_new flag garbage enc it null loopback) (Host_new hflag hgarbage henc hit))"
  using assms Board_new_ok [of flag garbage enc it null loopback] Board_new_device [of flag garbage enc it null loopback]
  by (simp_all add: system_safe_def own_system_def board_safe_def board_ok_def new_device_def Host_new_safe)

text \<open>A quiet system whose connect timer finds no loopback registers again.\<close>

lemma quiet_reconnects:
  assumes "surroundings_ok env open_array at item_size" "zenoh_serves (zenoh_lib env)"
    and "quiet s" "own_system env at s" "dev_fits item_size (dev_broker (board s))"
    and "5000 < late - loopbackReceived (dev_broker (board s))"
  shows "\<exists>s'. system_run env [ConnectTick late, KeepAliveTick t, ArriveUp, ArriveDown now, ArriveUp] s = Inr s' \<and>
    quiet s' \<and> dev_connected (dev_broker (board s')) \<and> has_own_resources (dev_broker (board s')) \<and>
    knows_own_resources (forward_sample (codec env)) (host_broker s')"
proof -
  let ?b = "(board s)\<lparr>dev_broker := set_connected False (dev_broker (board s))\<rparr>"
  have late: "system_step env (ConnectTick late) s = Inr (s\<lparr>board := ?b\<rparr>)"
    using assms(6) by (simp add: set_board_def on_connectTimer_def)
  have q: "quiet (s\<lparr>board := ?b\<rparr>)" "\<not> dev_connected (dev_broker ?b)" "has_own_resources (dev_broker ?b)"
    "registration_fits item_size (dev_broker ?b)" "own_tables (forward_sample (codec env)) (host_broker s)"
    using assms(3-5) by (simp_all add: quiet_def board_ok_def own_system_def has_own_resources_def
        registration_fits_def dev_fits_def)
  then have "registration (dev_broker ?b) \<noteq> []" by (simp add: registration_own)
  from system_registers [OF assms(1) q(1) _ _ _, of t now] this q obtain s' where
    s': "system_run env [KeepAliveTick t, ArriveUp, ArriveDown now, ArriveUp] (s\<lparr>board := ?b\<rparr>) = Inr s'" "quiet s'"
      "dev_connected (dev_broker (board s'))" "same_resources (dev_broker ?b) (dev_broker (board s'))"
      "knows_own_resources (forward_sample (codec env)) (host_broker s')"
    using registered_again [OF q(3) assms(2) q(5)] by auto
  show ?thesis
    by (rule exI [of _ s']) (use late s' own_resources_same [OF s'(4) q(3)] in simp)
qed

text \<open>A connected device that the proxy knows has its uptime written to zenoh.\<close>

lemma known_publishes:
  assumes "surroundings_ok env open_array at item_size" "quiet s" "dev_connected (dev_broker (board s))"
    and "has_own_resources (dev_broker (board s))" "uptime_fits item_size 0 sent"
    and "knows_own_resources (forward_sample (codec env)) (host_broker s)"
  shows "\<exists>s' rid v. system_run env [KeepAliveTick sent, ArriveUp] s = Inr s' \<and> quiet s' \<and>
    zn_calls (host_broker s') = zn_calls (host_broker s) @ [ZnWrite (zenoh_session (host_broker s)) (Rid rid) v] \<and>
    cbor_encodes (codec env) at 100 (uptime_items sent) v"
proof -
  have own: "res_id (uptimePub (dev_broker (board s))) = 0" using assms(4) by (simp add: has_own_resources_def)
  from assms(6) obtain rid h where
    pub: "map_of (publishers (host_broker s)) 0 = Some \<lparr>pub_id = 0, pub_key = uptime_key, pub_reskey = Rid rid, zn_publisher = h\<rparr>"
    unfolding knows_own_resources_def by blast
  from system_publishes_uptime [OF assms(1-3), of sent] assms(5) pub obtain s' v where
    "system_run env [KeepAliveTick sent, ArriveUp] s = Inr s'" "quiet s'"
    "host_broker s' = (host_broker s)\<lparr>zn_calls := zn_calls (host_broker s) @
      [ZnWrite (zenoh_session (host_broker s)) (Rid rid) v]\<rparr>"
    "cbor_encodes (codec env) at 100 (uptime_items sent) v" unfolding own by auto
  then show ?thesis by (intro exI [of _ s'] exI [of _ rid] exI [of _ v]) simp
qed

lemma own_uptime_fits: "dev_fits item_size d \<Longrightarrow> has_own_resources d \<Longrightarrow> uptime_fits item_size 0 t"
  by (simp add: dev_fits_def has_own_resources_def)

section \<open>Properties\<close>

lemma wire_total: "bytes_dup_total wire"
  unfolding bytes_dup_total_def by (auto simp: wire_def wire_dup_def split: if_splits option.splits)

lemma Board_new_fits: "dev_fits wire_size (dev_broker (Board_new flag garbage enc it null loopback))"
proof -
  let ?d = "dev_broker (Board_new flag garbage enc it null loopback)"
  have "has_own_resources ?d" "ser_capacity (dev_toCbor ?d) = 100"
    using Board_new_ok [of flag garbage enc it null loopback] by (simp_all add: board_ok_def)
  with wire_registration_fits [of ?d] wire_device_fits(1) show ?thesis
    by (simp add: dev_fits_def registration_fits_def)
qed


text \<open>A board and a proxy just switched on.\<close>

definition power_on :: "(wire_encoder, bytes) System" where
  "power_on = System_new (Board_new 0 \<lparr>msgType = 0\<rparr> (0, [], False) [] \<lparr>res_id = 0, res_key = []\<rparr> 77)
     (Host_new 0 \<lparr>msgType = 9\<rparr> (0, [], False) [])"

definition busy_events :: "(wire_encoder, bytes) system_event list" where
  "busy_events = [KeepAliveTick 1000, ZenohSample 2 [1], ArriveUp, FramesLost {0} {}, KeepAliveTick 1500, ArriveDown (1510, 1510), ConnectTick 2000,
     ProxyRestart (Host_new 3 \<lparr>msgType = 4\<rparr> (0, [], False) []), ArriveUp, KeepAliveTick 3000,
     BoardRestart (Board_new 5 \<lparr>msgType = 2\<rparr> (0, [], False) [] \<lparr>res_id = 0, res_key = []\<rparr> 0), ArriveDown (3010, 3010)]"

lemma busy_events: "list_all (event_ok wire_size) busy_events"
proof -
  have "\<exists>flag garbage enc it. Host_new 3 \<lparr>msgType = 4\<rparr> (0, [], False) [] = Host_new flag garbage enc it"
    "\<exists>flag garbage enc it null loopback. Board_new 5 \<lparr>msgType = 2\<rparr> (0, [], False) [] \<lparr>res_id = 0, res_key = []\<rparr> 0 =
      Board_new flag garbage enc it null loopback" by blast+
  then show ?thesis by (simp add: busy_events_def wire_size_eval)
qed




end
