(* ===== verification/Broker_Interface.thy ===== *)
theory Broker_Interface
  imports Proxy
begin

text \<open>
  The interface \<open>common/BrokerAbstract.h\<close>, which \<open>BrokerZenoh\<close> implements: its methods as a record
  of functions over the state of the implementation, the contract that the proxy relies on - tables of
  the declared subscribers and publishers - as a locale, and its interpretation. The handlers of
  \<open>src/proxy.cpp\<close> do to their broker what calls of the interface do.
\<close>

section \<open>The interface\<close>

text \<open>
  The methods of the abstract class; every one returns an \<open>int\<close>. The member \<open>connected\<close> is never used.
\<close>

record ('s, 'cb) BrokerAbstract =
  ba_init :: "'s \<Rightarrow> c_int \<times> 's"
  ba_connect :: "bytes \<Rightarrow> 's \<Rightarrow> c_int \<times> 's"
  ba_disconnect :: "'s \<Rightarrow> c_int \<times> 's"
  ba_publisher :: "c_int \<Rightarrow> bytes \<Rightarrow> 's \<Rightarrow> c_int \<times> 's"
  ba_subscriber :: "c_int \<Rightarrow> bytes \<Rightarrow> 'cb \<Rightarrow> 's \<Rightarrow> c_int \<times> 's"
  ba_publish :: "c_int \<Rightarrow> bytes \<Rightarrow> 's \<Rightarrow> c_int \<times> 's"
  ba_unSubscribe :: "c_int \<Rightarrow> 's \<Rightarrow> c_int \<times> 's"

definition BrokerZenoh_methods :: "'cb Sub zenoh \<Rightarrow> ('cb BrokerZenoh, 'cb) BrokerAbstract" where
  "BrokerZenoh_methods z = \<lparr>ba_init = BrokerZenoh_init, ba_connect = BrokerZenoh_connect z,
     ba_disconnect = BrokerZenoh_disconnect, ba_publisher = BrokerZenoh_publisher z,
     ba_subscriber = BrokerZenoh_subscriber z, ba_publish = BrokerZenoh_publish z,
     ba_unSubscribe = BrokerZenoh_unSubscribe\<rparr>"

datatype 'cb broker_call =
    CallInit
  | CallConnect bytes
  | CallDisconnect
  | CallPublisher c_int bytes
  | CallSubscriber c_int bytes 'cb
  | CallPublish c_int bytes
  | CallUnSubscribe c_int

fun ba_call :: "('s, 'cb) BrokerAbstract \<Rightarrow> 'cb broker_call \<Rightarrow> 's \<Rightarrow> c_int \<times> 's" where
  "ba_call B CallInit s = ba_init B s"
| "ba_call B (CallConnect client) s = ba_connect B client s"
| "ba_call B CallDisconnect s = ba_disconnect B s"
| "ba_call B (CallPublisher i key) s = ba_publisher B i key s"
| "ba_call B (CallSubscriber i key cb) s = ba_subscriber B i key cb s"
| "ba_call B (CallPublish i bs) s = ba_publish B i bs s"
| "ba_call B (CallUnSubscribe i) s = ba_unSubscribe B i s"

text \<open>A sequence of calls, and what they return.\<close>

fun ba_run :: "('s, 'cb) BrokerAbstract \<Rightarrow> 'cb broker_call list \<Rightarrow> 's \<Rightarrow> c_int list \<times> 's" where
  "ba_run B [] s = ([], s)"
| "ba_run B (c # cs) s = (let (rc, s) = ba_call B c s; (rcs, s) = ba_run B cs s in (rc # rcs, s))"

section \<open>The contract\<close>

text \<open>
  The abstract state: what is declared under which identifier. A declaration that returns 0 is
  entered unless its identifier is known; \<open>disconnect\<close> forgets all of them, and \<open>unSubscribe\<close> none.
\<close>

datatype 'cb broker_tables =
  Tables (spec_subs: "c_int \<rightharpoonup> bytes \<times> 'cb") (spec_pubs: "c_int \<rightharpoonup> bytes")

text \<open>Tables are ordered: the larger has all the entries of the smaller.\<close>

instantiation broker_tables :: (type) order
begin

definition less_eq_broker_tables :: "'a broker_tables \<Rightarrow> 'a broker_tables \<Rightarrow> bool" where
  "t \<le> t' \<longleftrightarrow> spec_subs t \<subseteq>\<^sub>m spec_subs t' \<and> spec_pubs t \<subseteq>\<^sub>m spec_pubs t'"

definition less_broker_tables :: "'a broker_tables \<Rightarrow> 'a broker_tables \<Rightarrow> bool" where
  "t < t' \<longleftrightarrow> t \<le> t' \<and> \<not> t' \<le> (t :: 'a broker_tables)"

instance
proof
  fix x y z :: "'a broker_tables"
  show "x < y \<longleftrightarrow> x \<le> y \<and> \<not> y \<le> x" by (rule less_broker_tables_def)
  show "x \<le> x" by (simp add: less_eq_broker_tables_def)
  show "x \<le> y \<Longrightarrow> y \<le> z \<Longrightarrow> x \<le> z" unfolding less_eq_broker_tables_def by (meson map_le_trans)
  show "x \<le> y \<Longrightarrow> y \<le> x \<Longrightarrow> x = y"
    unfolding less_eq_broker_tables_def by (meson broker_tables.expand map_le_antisym)
qed

end

definition enter :: "'k \<Rightarrow> 'v \<Rightarrow> ('k \<rightharpoonup> 'v) \<Rightarrow> ('k \<rightharpoonup> 'v)" where
  "enter k v m = (case m k of None \<Rightarrow> m(k \<mapsto> v) | Some _ \<Rightarrow> m)"

fun spec_call :: "'cb broker_call \<Rightarrow> c_int \<Rightarrow> 'cb broker_tables \<Rightarrow> 'cb broker_tables" where
  "spec_call (CallSubscriber i key cb) rc t =
     (if rc = 0 then Tables (enter i (key, cb) (spec_subs t)) (spec_pubs t) else t)"
| "spec_call (CallPublisher i key) rc t =
     (if rc = 0 then Tables (spec_subs t) (enter i key (spec_pubs t)) else t)"
| "spec_call CallDisconnect rc t = Tables Map.empty Map.empty"
| "spec_call _ rc t = t"

text \<open>What a call may return.\<close>

fun may_return :: "'cb broker_call \<Rightarrow> 'cb broker_tables \<Rightarrow> c_int \<Rightarrow> bool" where
  "may_return (CallConnect _) t rc \<longleftrightarrow> rc = 0 \<or> rc = - 1"
| "may_return (CallSubscriber i _ _) t rc \<longleftrightarrow> rc = 0 \<or> rc = - 1 \<and> spec_subs t i = None"
| "may_return (CallPublish i _) t rc \<longleftrightarrow> (spec_pubs t i = None \<longrightarrow> rc = ENOENT)"
| "may_return _ t rc \<longleftrightarrow> rc = 0"

fun spec_run :: "'cb broker_call list \<Rightarrow> c_int list \<Rightarrow> 'cb broker_tables \<Rightarrow> 'cb broker_tables option" where
  "spec_run [] [] t = Some t"
| "spec_run (c # cs) (rc # rcs) t = (if may_return c t rc then spec_run cs rcs (spec_call c rc t) else None)"
| "spec_run _ _ t = None"

lemma enter_grows: "m \<subseteq>\<^sub>m enter k v m"
  by (auto simp: enter_def map_le_def split: option.splits)

lemma spec_call_grows: "c \<noteq> CallDisconnect \<Longrightarrow> t \<le> spec_call c rc t"
  by (cases c) (auto simp: less_eq_broker_tables_def enter_grows)

locale broker_interface =
  fixes B :: "('s, 'cb) BrokerAbstract" and tables :: "'s \<Rightarrow> 'cb broker_tables"
  assumes call_tables: "tables (snd (ba_call B c s)) = spec_call c (fst (ba_call B c s)) (tables s)"
    and call_returns: "may_return c (tables s) (fst (ba_call B c s))"
begin

text \<open>The implementation runs as the abstract tables do.\<close>

lemma run_tables: "spec_run cs (fst (ba_run B cs s)) (tables s) = Some (tables (snd (ba_run B cs s)))"
proof (induction cs arbitrary: s)
  case (Cons c cs)
  obtain rc s1 where c: "ba_call B c s = (rc, s1)" by force
  with call_tables [of c s] call_returns [of c s]
  have "tables s1 = spec_call c rc (tables s)" "may_return c (tables s) rc" by simp_all
  with Cons.IH [of s1] c show ?case by (simp add: case_prod_beta)
qed simp

text \<open>Until a disconnect the tables only grow.\<close>

lemma run_grows: "CallDisconnect \<notin> set cs \<Longrightarrow> tables s \<le> tables (snd (ba_run B cs s))"
proof (induction cs arbitrary: s)
  case (Cons c cs)
  have "tables s \<le> tables (snd (ba_call B c s))"
    unfolding call_tables using Cons.prems by (auto intro: spec_call_grows)
  also have "\<dots> \<le> tables (snd (ba_run B cs (snd (ba_call B c s))))"
    using Cons by simp
  finally show ?case by (simp add: case_prod_beta)
qed simp

end

section \<open>The broker for zenoh implements it\<close>

definition broker_view :: "'cb BrokerZenoh \<Rightarrow> 'cb broker_tables" where
  "broker_view b = Tables (\<lambda>i. map_option (\<lambda>sub. (sub_key sub, sub_callback sub)) (map_of (subscribers b) i))
     (\<lambda>i. map_option pub_key (map_of (publishers b) i))"

lemma view_emplace: "(\<lambda>i. map_option f (map_of (um_emplace k v m) i)) = enter k (f v) (\<lambda>i. map_option f (map_of m i))"
  by (auto simp: map_of_um_emplace enter_def split: option.splits)

lemma broker_calls_tables:
  "broker_view (snd (ba_call (BrokerZenoh_methods z) c b)) =
    spec_call c (fst (ba_call (BrokerZenoh_methods z) c b)) (broker_view b)"
  by (cases c) (auto simp: BrokerZenoh_methods_def broker_view_def broker_defs BrokerZenoh_unSubscribe_def
      view_emplace enter_def Let_def split: option.splits)

lemma broker_calls_return:
  "may_return c (broker_view b) (fst (ba_call (BrokerZenoh_methods z) c b))"
  by (cases c) (auto simp: BrokerZenoh_methods_def broker_view_def broker_defs BrokerZenoh_unSubscribe_def
      Let_def split: option.splits)

interpretation zenoh_broker: broker_interface "BrokerZenoh_methods z" broker_view for z
  by unfold_locales (rule broker_calls_tables broker_calls_return)+

text \<open>What a message does to the broker of the proxy is a call of the interface.\<close>

fun message_call :: "'cb \<Rightarrow> client_message \<Rightarrow> 'cb broker_call" where
  "message_call fw (Connect m) = CallConnect (c_string (clientId m))"
| "message_call fw (Subscriber m) = CallSubscriber (subscriber_id m) (c_string (subscriber_topic m)) fw"
| "message_call fw (Publisher m) = CallPublisher (publisher_id m) (c_string (publisher_topic m))"
| "message_call fw (Publish m) = CallPublish (publish_id m) (publish_value m)"
| "message_call fw Disconnect = CallDisconnect"

lemma effect_is_call: "broker_effect z fw m b = snd (ba_call (BrokerZenoh_methods z) (message_call fw m) b)"
  by (cases m) (simp_all add: BrokerZenoh_methods_def)

lemma effects_are_calls:
  "fold (broker_effect z fw) ms b = snd (ba_run (BrokerZenoh_methods z) (map (message_call fw) ms) b)"
  by (induction ms arbitrary: b) (simp_all add: effect_is_call case_prod_beta)

section \<open>Properties\<close>

text \<open>
  C11: The broker implements its interface. Whatever calls are made and whatever zenoh answers, the
  tables of \<open>BrokerZenoh\<close> are what the contract of the interface gives for the values the calls returned,
  and each of them returned a value it may: a publisher is always declared, a subscriber unless
  zenoh refused it, a publish with an unknown identifier is \<open>ENOENT\<close>, and a declaration under a
  known identifier changes nothing. The messages of a client are such calls.
\<close>

theorem broker_implements_interface:
  "spec_run calls (fst (ba_run (BrokerZenoh_methods z) calls b)) (broker_view b) =
      Some (broker_view (snd (ba_run (BrokerZenoh_methods z) calls b))) \<and>
    fold (broker_effect z fw) ms b = snd (ba_run (BrokerZenoh_methods z) (map (message_call fw) ms) b)"
  by (rule conjI [OF zenoh_broker.run_tables effects_are_calls])

text \<open>
  A resource that a client has declared is known to the proxy under its first name until the
  client disconnects, whatever else is called.
\<close>

theorem declarations_stay:
  assumes "CallDisconnect \<notin> set calls"
    and "spec_subs (broker_view b) i = Some (key, cb)" "spec_pubs (broker_view b) j = Some topic"
  shows "spec_subs (broker_view (snd (ba_run (BrokerZenoh_methods z) calls b))) i = Some (key, cb) \<and>
    spec_pubs (broker_view (snd (ba_run (BrokerZenoh_methods z) calls b))) j = Some topic"
  using zenoh_broker.run_grows [OF assms(1), where s = b and z = z] assms(2,3)
  by (metis less_eq_broker_tables_def map_le_def domI)

lemma declarations_stay_witness:
  "spec_subs (broker_view (snd (ba_run (BrokerZenoh_methods numbering_zenoh)
      [CallPublisher 8 [0x63], CallSubscriber 7 [0x64] (), CallUnSubscribe 7] busy_broker))) 7 = Some ([0x61], ()) \<and>
    spec_pubs (broker_view (snd (ba_run (BrokerZenoh_methods numbering_zenoh)
      [CallPublisher 8 [0x63], CallSubscriber 7 [0x64] (), CallUnSubscribe 7] busy_broker))) 8 = Some [0x62]"
  by (rule declarations_stay) (simp_all add: broker_view_def busy_broker_eval)

end
