(* ===== verification/Shared_Serializer.thy ===== *)
theory Shared_Serializer
  imports Link
begin

text \<open>
  One serializer, two threads. In \<open>main\<close> of \<open>src/proxy.cpp\<close> the worker thread writes its reply with
  \<open>toCbor\<close>, and the callback of every subscriber, which zenoh runs on a thread of its own, writes the
  sample with the same object; no lock orders them. The threads are the sequences of the calls
  they make on it, a run of the program is an interleaving of the two. \<open>toBytes\<close> and the passing of
  the frame to the serial line are one step here, which only leaves runs out.
\<close>

section \<open>The calls of a message\<close>

datatype 'e sender_call =
    Call "'e CborSerializer \<Rightarrow> 'e CborSerializer outcome"
  | SendOn

fun sender_step :: "'e sender_call \<Rightarrow> 'e Uplink \<Rightarrow> 'e Uplink outcome" where
  "sender_step (Call f) u = seq (f (to_cbor u)) (\<lambda>s. Inr (u\<lparr>to_cbor := s\<rparr>))"
| "sender_step SendOn u = seq (toBytes (to_cbor u)) (\<lambda>bs. Inr (toSerialMsg_on bs u))"

fun run_senders :: "'e sender_call list \<Rightarrow> 'e Uplink \<Rightarrow> 'e Uplink outcome" where
  "run_senders [] u = Inr u"
| "run_senders (x # xs) u = seq (sender_step x u) (run_senders xs)"

lemma run_senders_append: "run_senders (xs @ ys) u = seq (run_senders xs u) (run_senders ys)"
proof (induction xs arbitrary: u)
  case (Cons x xs)
  then show ?case by (cases "sender_step x u") simp_all
qed simp

definition reply_steps :: "('e, 'i) tinycbor \<Rightarrow> MsgConnect \<Rightarrow> 'e sender_call list" where
  "reply_steps tc m =
     [Call (ser_begin tc), Call (ser_int tc B_CONNECT), Call (ser_text tc (clientId m)), Call (ser_end tc), SendOn]"

definition sample_steps :: "('e, 'i) tinycbor \<Rightarrow> MsgPublish \<Rightarrow> 'e sender_call list" where
  "sample_steps tc m =
     [Call (ser_begin tc), Call (ser_int tc B_PUBLISH), Call (ser_int tc (publish_id m)),
      Call (ser_bytes tc (publish_value m)), Call (ser_end tc), SendOn]"

text \<open>Undisturbed, the calls are the handlers of the two threads.\<close>

lemma reply_steps_run: "run_senders (reply_steps tc m) u = send_connect tc m u"
  by (simp add: reply_steps_def send_connect_def reflect_MsgConnect_def ser_reflector_def seq_assoc)

lemma sample_steps_run:
  "run_senders (sample_steps tc m) u = forward_sample tc (publish_id m) (publish_value m) u"
  by (simp add: sample_steps_def forward_sample_def reflect_MsgPublish_def ser_reflector_def seq_assoc)

section \<open>Messages one after the other\<close>

text \<open>What the two threads send, and the calls that send it.\<close>

datatype sent_message = Reply MsgConnect | Sample MsgPublish

fun sent_items :: "sent_message \<Rightarrow> cbor_item list" where
  "sent_items (Reply m) = items_MsgConnect m"
| "sent_items (Sample m) = items_MsgPublish m"

fun sent_steps :: "('e, 'i) tinycbor \<Rightarrow> sent_message \<Rightarrow> 'e sender_call list" where
  "sent_steps tc (Reply m) = reply_steps tc m"
| "sent_steps tc (Sample m) = sample_steps tc m"

context cbor_channel begin

lemma sent_alone:
  assumes "fits (sent_items m)" "ser_capacity (to_cbor u) = cap"
  shows "\<exists>u' bs. run_senders (sent_steps tc m) u = Inr u' \<and> ser_capacity (to_cbor u') = cap \<and>
    serial_out u' = serial_out u @ [ppp_frame bs] \<and> encodes (sent_items m) bs"
proof (cases m)
  case (Reply r)
  with send_connect_sends [of r u] assms show ?thesis by (simp add: reply_steps_run)
next
  case (Sample r)
  obtain i v where "r = \<lparr>publish_id = i, publish_value = v\<rparr>" by (cases r)
  with forward_sends [of i v u] assms Sample show ?thesis by (simp add: sample_steps_run)
qed

lemma sent_in_turn:
  assumes "list_all (\<lambda>m. fits (sent_items m)) ms" "ser_capacity (to_cbor u) = cap"
  shows "\<exists>u' out. run_senders (concat (map (sent_steps tc) ms)) u = Inr u' \<and> ser_capacity (to_cbor u') = cap \<and>
    serial_out u' = serial_out u @ out \<and> frames_of tc at cap (map sent_items ms) out"
  using assms
proof (induction ms arbitrary: u)
  case Nil
  then show ?case by (intro exI [of _ u] exI [of _ "[]"]) simp
next
  case (Cons m ms)
  from sent_alone [of m u] Cons.prems obtain u1 bs where
    1: "run_senders (sent_steps tc m) u = Inr u1" "ser_capacity (to_cbor u1) = cap"
      "serial_out u1 = serial_out u @ [ppp_frame bs]" "encodes (sent_items m) bs" by auto
  from Cons.IH [of u1] Cons.prems(1) 1(2) obtain u2 out where
    2: "run_senders (concat (map (sent_steps tc) ms)) u1 = Inr u2" "ser_capacity (to_cbor u2) = cap"
      "serial_out u2 = serial_out u1 @ out" "frames_of tc at cap (map sent_items ms) out" by auto
  have "frames_of tc at cap (map sent_items (m # ms)) (ppp_frame bs # out)"
    using frames_of_append [OF frames_of_single [OF 1(4)] 2(4)] by simp
  with 1 2 show ?case
    by (intro exI [of _ u2] exI [of _ "ppp_frame bs # out"]) (simp add: run_senders_append)
qed

end

section \<open>Messages at the same time\<close>

text \<open>The sample's \<open>begin\<close> falls between the reply's \<open>begin\<close> and its first member.\<close>

definition raced_items :: "MsgPublish \<Rightarrow> cbor_item list" where
  "raced_items m = items_MsgConnect connected_reply @ items_MsgPublish m"

context cbor_channel begin

lemma call_put_int:
  assumes "ser_writing (to_cbor u) xs" "fits (xs @ [CInt (sint v)])"
  shows "\<exists>u'. sender_step (Call (ser_int tc v)) u = Inr u' \<and> serial_out u' = serial_out u \<and>
    ser_writing (to_cbor u') (xs @ [CInt (sint v)])"
  using ser_put_int [OF assms] by auto

lemma call_put_text:
  assumes "ser_writing (to_cbor u) xs" "fits (xs @ [CText t])"
  shows "\<exists>u'. sender_step (Call (ser_text tc t)) u = Inr u' \<and> serial_out u' = serial_out u \<and>
    ser_writing (to_cbor u') (xs @ [CText t])"
  using put_text [of cap xs "ser_root (to_cbor u)" "ser_encoder (to_cbor u)" t] assms by (auto simp: ser_defs)

lemma call_put_bytes:
  assumes "ser_writing (to_cbor u) xs" "fits (xs @ [CBytes b])"
  shows "\<exists>u'. sender_step (Call (ser_bytes tc b)) u = Inr u' \<and> serial_out u' = serial_out u \<and>
    ser_writing (to_cbor u') (xs @ [CBytes b])"
  using put_bytes [of cap xs "ser_root (to_cbor u)" "ser_encoder (to_cbor u)" b] assms by (auto simp: ser_defs)

lemma call_begin:
  assumes "ser_capacity (to_cbor u) = cap"
  shows "\<exists>u'. sender_step (Call (ser_begin tc)) u = Inr u' \<and> serial_out u' = serial_out u \<and>
    ser_capacity (to_cbor u') = cap \<and> ser_writing (to_cbor u') []"
  using create [of cap] cap_bounds assms by (auto simp: ser_defs)

lemma call_end_emit:
  assumes "ser_writing (to_cbor u) xs" "fits xs"
  shows "\<exists>u' bs. run_senders [Call (ser_end tc), SendOn] u = Inr u' \<and>
    serial_out u' = serial_out u @ [ppp_frame bs] \<and> encodes xs bs"
proof -
  from ser.w_end [OF assms] obtain s' bs where
    "ser_end tc (to_cbor u) = Inr s'" "toBytes s' = Inr bs" "encodes xs bs"
    by (auto simp: ser_written_def ser_reflector_def)
  then show ?thesis by (auto simp: toSerialMsg_on_def FrameToBytes_on_def intro!: exI [of _ bs])
qed

lemma race:
  assumes "fits (raced_items m)" "ser_capacity (to_cbor u) = cap"
  shows "\<exists>u' bs. run_senders [Call (ser_begin tc), Call (ser_begin tc), Call (ser_int tc B_CONNECT),
      Call (ser_text tc (clientId connected_reply)), Call (ser_int tc B_PUBLISH), Call (ser_int tc (publish_id m)),
      Call (ser_bytes tc (publish_value m)), Call (ser_end tc), SendOn] u = Inr u' \<and>
    serial_out u' = serial_out u @ [ppp_frame bs] \<and> encodes (raced_items m) bs"
proof -
  let ?is = "[CInt (sint B_CONNECT), CText (clientId connected_reply), CInt (sint B_PUBLISH), CInt (sint (publish_id m)),
    CBytes (publish_value m)]"
  have items: "raced_items m = ?is" by (simp add: raced_items_def items_defs)
  have fits: "fits (take n ?is)" for n
    using assms(1) unfolding items by (rule ser.fits_take)
  from call_begin [OF assms(2)] obtain a where
    a: "sender_step (Call (ser_begin tc)) u = Inr a" "serial_out a = serial_out u" "ser_capacity (to_cbor a) = cap"
    by blast
  from call_begin [OF a(3)] obtain b where
    b: "sender_step (Call (ser_begin tc)) a = Inr b" "serial_out b = serial_out a" "ser_writing (to_cbor b) []"
    by blast
  from call_put_int [OF b(3), of B_CONNECT] fits [of 1] obtain c where
    c: "sender_step (Call (ser_int tc B_CONNECT)) b = Inr c" "serial_out c = serial_out b"
      "ser_writing (to_cbor c) (take 1 ?is)" by auto
  from call_put_text [OF c(3), of "clientId connected_reply"] fits [of 2] obtain d where
    d: "sender_step (Call (ser_text tc (clientId connected_reply))) c = Inr d" "serial_out d = serial_out c"
      "ser_writing (to_cbor d) (take 2 ?is)" by auto
  from call_put_int [OF d(3), of B_PUBLISH] fits [of 3] obtain e where
    e: "sender_step (Call (ser_int tc B_PUBLISH)) d = Inr e" "serial_out e = serial_out d"
      "ser_writing (to_cbor e) (take 3 ?is)" by auto
  from call_put_int [OF e(3), of "publish_id m"] fits [of 4] obtain f where
    f: "sender_step (Call (ser_int tc (publish_id m))) e = Inr f" "serial_out f = serial_out e"
      "ser_writing (to_cbor f) (take 4 ?is)" by auto
  from call_put_bytes [OF f(3), of "publish_value m"] fits [of 5] obtain g where
    g: "sender_step (Call (ser_bytes tc (publish_value m))) f = Inr g" "serial_out g = serial_out f"
      "ser_writing (to_cbor g) ?is" by auto
  from call_end_emit [OF g(3)] assms(1) items obtain u' bs where
    "run_senders [Call (ser_end tc), SendOn] g = Inr u'" "serial_out u' = serial_out g @ [ppp_frame bs]"
    "encodes ?is bs" by auto
  with a b c d e f g items show ?thesis
    by (auto simp del: sender_step.simps intro!: exI [of _ bs])
qed

end

text \<open>
  C16: Race on the serializer. For every sample whose items fit the proxy's buffer beside those of the
  reply, there is an interleaving of the calls of the two threads, in which the reply's call of \<open>end\<close> comes
  last, that puts one frame with the items of both messages on the line in place of the sample. Every
  filter for samples refuses this frame, so the sample is lost, and a filter for connects passes it on.
\<close>

theorem sample_lost_in_race:
  assumes "cbor_channel tc open_array at item_size 1024 1024"
    and "message_bytes item_size (raced_items m) \<le> 1024" and "ser_capacity (to_cbor u) = 1024"
  shows "\<exists>calls u' bs. calls @ [Call (ser_end tc), SendOn] \<in> shuffles (reply_steps tc connected_reply) (sample_steps tc m) \<and>
    run_senders calls u = Inr u' \<and> serial_out u' = serial_out u @ [ppp_frame bs] \<and>
    cbor_encodes tc at 1024 (raced_items m) bs \<and>
    (\<forall>f. de_capacity (filter_fromCbor f) = 1024 \<longrightarrow>
      (\<exists>f'. MsgFilter_on tc bs f = Inr (if filter_msgType f = B_CONNECT then Some bs else None, f')))"
proof -
  let ?calls = "[Call (ser_begin tc), Call (ser_begin tc), Call (ser_int tc B_CONNECT),
      Call (ser_text tc (clientId connected_reply)), Call (ser_int tc B_PUBLISH), Call (ser_int tc (publish_id m)),
      Call (ser_bytes tc (publish_value m)), Call (ser_end tc), SendOn]"
  have "cbor_channel.fits item_size 1024 (raced_items m)"
    using assms(2) by (simp add: cbor_channel.fits_def [OF assms(1)])
  from cbor_channel.race [OF assms(1) this assms(3)] obtain u' bs where
    race: "run_senders ?calls u = Inr u'" "serial_out u' = serial_out u @ [ppp_frame bs]"
      "cbor_encodes tc at 1024 (raced_items m) bs" by blast
  have "?calls @ [Call (ser_end tc), SendOn] \<in> shuffles (reply_steps tc connected_reply) (sample_steps tc m)"
    unfolding reply_steps_def sample_steps_def append.simps
    by (rule Cons_in_shuffles_leftI, rule Cons_in_shuffles_rightI, (rule Cons_in_shuffles_leftI)+,
        (rule Cons_in_shuffles_rightI)+, (rule Cons_in_shuffles_leftI)+, simp)
  moreover have "\<exists>f'. MsgFilter_on tc bs f = Inr (if filter_msgType f = B_CONNECT then Some bs else None, f')"
    if "de_capacity (filter_fromCbor f) = 1024" for f
  proof -
    have "cbor_encodes tc at 1024 (CInt (sint B_CONNECT) # tl (raced_items m)) bs"
      using race(3) by (simp add: raced_items_def items_defs)
    from cbor_channel.selects_message [OF assms(1) this, of "[f]"] that show ?thesis
      by (auto simp: selects_def)
  qed
  ultimately show ?thesis using race by blast
qed

lemma sample_lost_in_race_witness:
  "\<exists>calls u' bs. calls @ [Call (ser_end wire), SendOn]
      \<in> shuffles (reply_steps wire connected_reply) (sample_steps wire \<lparr>publish_id = 2, publish_value = [7]\<rparr>) \<and>
    run_senders calls (uplink (core (proxy wire_host))) = Inr u' \<and>
    serial_out u' = serial_out (uplink (core (proxy wire_host))) @ [ppp_frame bs] \<and>
    cbor_encodes wire wire_at 1024 (raced_items \<lparr>publish_id = 2, publish_value = [7]\<rparr>) bs"
proof -
  have "message_bytes wire_size (raced_items \<lparr>publish_id = 2, publish_value = [7]\<rparr>) \<le> 1024"
    by (simp add: raced_items_def items_defs connected_reply_def wire_size_eval)
  moreover have "ser_capacity (to_cbor (uplink (core (proxy wire_host)))) = 1024"
    using wire_host_ok(1) by (simp add: proxy_ok_def core_ok_def)
  ultimately show ?thesis
    using sample_lost_in_race [OF wire.cbor_channel_axioms] by blast
qed

end
