(* ===== verification/Peripherals.thy ===== *)
theory Peripherals
  imports Prelude
begin

text \<open>
  The classes \<open>Button\<close> and \<open>LedBlinker\<close> of \<open>zenoh-arduino/src\<close>. The Arduino functions they call
  are recorded; the level that \<open>digitalRead\<close> returns, the timer and what arrives on \<open>blinkSlow\<close> are
  inputs. \<open>_pinOldValue\<close>, \<open>_button2\<close> and \<open>timerHandler\<close> are not used.
\<close>

datatype pin_call = PinMode u32 byte | AttachInterrupt u32 | DigitalWrite u32 c_int

definition INPUT_PULLUP :: byte where "INPUT_PULLUP = 0x05"
definition OUTPUT :: byte where "OUTPUT = 0x03"

section \<open>Button\<close>

text \<open>The static \<open>_button\<close> is the last button constructed, of which the program has one.\<close>

record Button =
  button_pin :: u32
  button_lastState :: bool
  button_emitted :: "bool list"
  button_calls :: "pin_call list"

definition Button_new :: "u32 \<Rightarrow> Button" where
  "Button_new pin = \<lparr>button_pin = pin, button_lastState = False, button_emitted = [], button_calls = []\<rparr>"

definition Button_newValue :: "bool \<Rightarrow> Button \<Rightarrow> Button" where
  "Button_newValue b s =
     (if b \<noteq> button_lastState s then
        let s = s\<lparr>button_lastState := b\<rparr> in s\<lparr>button_emitted := button_emitted s @ [b]\<rparr>
      else s)"

definition Button_isrButton :: "c_int \<Rightarrow> Button option \<Rightarrow> Button option" where
  "Button_isrButton level button =
     (case button of None \<Rightarrow> None | Some s \<Rightarrow> Some (Button_newValue (level = 0) s))"

definition Button_init :: "Button \<Rightarrow> Button" where
  "Button_init s =
     (let s = s\<lparr>button_calls := button_calls s @ [PinMode (button_pin s) INPUT_PULLUP]\<rparr>
      in s\<lparr>button_calls := button_calls s @ [AttachInterrupt (button_pin s)]\<rparr>)"

section \<open>LED\<close>

record LedBlinker =
  led_pin :: u32
  led_on :: c_int
  led_interval :: u32
  led_calls :: "pin_call list"

definition LedBlinker_new :: "u32 \<Rightarrow> u32 \<Rightarrow> LedBlinker" where
  "LedBlinker_new pin delay = \<lparr>led_pin = pin, led_on = 0, led_interval = delay, led_calls = []\<rparr>"

definition LedBlinker_on_timer :: "LedBlinker \<Rightarrow> LedBlinker" where
  "LedBlinker_on_timer s =
     (let s = s\<lparr>led_calls := led_calls s @ [DigitalWrite (led_pin s) (led_on s)]\<rparr>
      in s\<lparr>led_on := (if led_on s \<noteq> 0 then 0 else 1)\<rparr>)"

definition LedBlinker_blinkSlow :: "bool \<Rightarrow> LedBlinker \<Rightarrow> LedBlinker" where
  "LedBlinker_blinkSlow flag s = (if flag then s\<lparr>led_interval := 500\<rparr> else s\<lparr>led_interval := 100\<rparr>)"

definition LedBlinker_init :: "LedBlinker \<Rightarrow> LedBlinker" where
  "LedBlinker_init s =
     (let s = s\<lparr>led_calls := led_calls s @ [PinMode (led_pin s) OUTPUT]\<rparr>
      in s\<lparr>led_calls := led_calls s @ [DigitalWrite (led_pin s) 1]\<rparr>)"

definition LedBlinker_delay :: "u32 \<Rightarrow> LedBlinker \<Rightarrow> LedBlinker" where
  "LedBlinker_delay d s = s\<lparr>led_interval := d\<rparr>"

section \<open>Properties\<close>

lemma isr_fold:
  "fold Button_isrButton levels (Some s) = Some (s\<lparr>
     button_lastState := last (button_lastState s # map (\<lambda>l. l = 0) levels),
     button_emitted := button_emitted s @ tl (remdups_adj (button_lastState s # map (\<lambda>l. l = 0) levels))\<rparr>)"
proof (induction levels arbitrary: s)
  case (Cons l levels)
  show ?case
  proof (cases "(l = 0) = button_lastState s")
    case True
    then have "Button_newValue (l = 0) s = s" by (simp add: Button_newValue_def)
    with True Cons.IH [of s] show ?thesis by (simp add: Button_isrButton_def)
  next
    case False
    let ?s = "s\<lparr>button_lastState := (l = 0), button_emitted := button_emitted s @ [l = 0]\<rparr>"
    have "Button_newValue (l = 0) s = ?s" using False by (simp add: Button_newValue_def)
    moreover have "remdups_adj ((l = 0) # map (\<lambda>l. l = 0) levels) =
        (l = 0) # tl (remdups_adj ((l = 0) # map (\<lambda>l. l = 0) levels))"
      by (simp add: remdups_adj_Cons split: list.split)
    ultimately show ?thesis using False Cons.IH [of ?s] by (simp add: Button_isrButton_def)
  qed
qed simp

text \<open>
  Debouncing. Whatever interrupts occur, the button emits the levels read (pressed is level
  0) without repetitions, starting from released: its values alternate, the first being pressed.
\<close>

theorem button_emits_changes:
  "\<exists>s. fold Button_isrButton levels (Some (Button_init (Button_new pin))) = Some s \<and>
    button_emitted s = tl (remdups_adj (False # map (\<lambda>l. l = 0) levels)) \<and>
    button_lastState s = last (False # map (\<lambda>l. l = 0) levels)"
  by (simp add: isr_fold Button_init_def Button_new_def)

text \<open>After \<open>n\<close> ticks of the timer the LED has been switched off and on in turn, starting with off.\<close>

theorem led_blinks:
  "let s = (LedBlinker_on_timer ^^ n) (LedBlinker_init (LedBlinker_new pin delay))
    in led_calls s = [PinMode pin OUTPUT, DigitalWrite pin 1] @ map (\<lambda>i. DigitalWrite pin (of_nat (i mod 2))) [0..<n] \<and>
      led_on s = of_nat (n mod 2) \<and> led_interval s = delay \<and> led_pin s = pin"
proof (induction n)
  case (Suc n)
  then show ?case by (auto simp: LedBlinker_on_timer_def Let_def mod_Suc)
qed (simp add: LedBlinker_init_def LedBlinker_new_def)

end
