(* ===== verification/Board.thy ===== *)
theory Board
  imports Device Peripherals
begin

text \<open>
  The program of the microcontroller, \<open>zenoh-arduino/src/main.cpp\<close>: the objects it constructs, \<open>setup\<close>,
  \<open>loop\<close> and \<open>serialEvent\<close>. The main thread runs one thing at a time - a timer, a value queued for
  \<open>blinkSlow\<close>, the serial port - and the button interrupts it; the order is the scheduler's, so the
  program is a step relation. The queue of \<open>blinkSlow\<close> is limero's \<open>Sink\<close> of capacity 3:
  \<open>sink_on\<close> is what it does with a value. The sources of \<open>systemHeap\<close> and the like are not connected to
  anything.
\<close>

section \<open>State\<close>

datatype uart_call = SerialBegin u32 | SerialPrintln | SerialSetTimeout u32

text \<open>
  \<open>wired\<close> is set once \<open>brkr.connected >> ledBlinkerBlue.blinkSlow\<close> has been done; \<open>uart_rx\<close> holds the
  bytes that the serial port has available.
\<close>

record ('e, 'i) Board =
  brkr :: "('e, 'i) Device"
  ledBlinkerBlue :: LedBlinker
  button1 :: Button
  blink_queue :: "bool list"
  wired :: bool
  uart_rx :: bytes
  uart_calls :: "uart_call list"
  host_name :: bytes

definition PIN_LED :: u32 where "PIN_LED = 2"
definition PIN_BUTTON :: u32 where "PIN_BUTTON = 0"

text \<open>The global constructors; \<open>flag\<close>, \<open>null\<close> and \<open>loopback\<close> are what was in memory.\<close>

definition Board_static :: "u64 \<Rightarrow> 'e \<Rightarrow> Resource \<Rightarrow> u64 \<Rightarrow> ('e, 'i) Board" where
  "Board_static flag enc null loopback =
     \<lparr>brkr = \<lparr>dev_framer = BytesToFrame_new flag, dev_filters = [], dev_broker = BrokerSerial_new enc null loopback\<rparr>,
      ledBlinkerBlue = LedBlinker_new PIN_LED 100, button1 = Button_new PIN_BUTTON, blink_queue = [], wired = False,
      uart_rx = [], uart_calls = [], host_name = []\<rparr>"

section \<open>Operations\<close>

text \<open>What \<open>connected\<close> emits goes to the queue of \<open>blinkSlow\<close>.\<close>

definition set_brkr ::
    "(bool \<Rightarrow> bool list \<Rightarrow> bool list) \<Rightarrow> ('e, 'i) Device \<Rightarrow> ('e, 'i) Board \<Rightarrow> ('e, 'i) Board" where
  "set_brkr sink_on v b =
     (let sent = drop (length (connected_sent (dev_broker (brkr b)))) (connected_sent (dev_broker v))
      in b\<lparr>brkr := v, blink_queue := (if wired b then fold sink_on sent (blink_queue b) else blink_queue b)\<rparr>)"

definition board_setup :: "(bool \<Rightarrow> bool list \<Rightarrow> bool list) \<Rightarrow> bytes \<Rightarrow> MsgBase \<Rightarrow> 'i \<Rightarrow> ('e, 'i) Board \<Rightarrow> ('e, 'i) Board" where
  "board_setup sink_on HOSTNAME garbage it b =
     (let b = b\<lparr>uart_calls := uart_calls b @ [SerialBegin 115200, SerialPrintln]\<rparr>;
          b = b\<lparr>host_name := HOSTNAME\<rparr>;
          b = b\<lparr>button1 := Button_init (button1 b)\<rparr>;
          b = b\<lparr>ledBlinkerBlue := LedBlinker_init (ledBlinkerBlue b)\<rparr>;
          b = set_brkr sink_on ((brkr b)\<lparr>dev_filters := device_filters_new garbage it,
                dev_broker := BrokerSerial_init (dev_broker (brkr b))\<rparr>) b;
          b = b\<lparr>uart_calls := uart_calls b @ [SerialSetTimeout 0]\<rparr>
      in b\<lparr>wired := True\<rparr>)"

text \<open>\<open>serialEvent\<close> takes all that is available; \<open>clk\<close> is the clock while it does.\<close>

definition serialEvent ::
    "(bool \<Rightarrow> bool list \<Rightarrow> bool list) \<Rightarrow> ('e, 'i) tinycbor \<Rightarrow> 'e \<Rightarrow> 'i \<Rightarrow> c_int \<Rightarrow> u64 \<Rightarrow> u64 \<times> u64 \<Rightarrow> (nat \<Rightarrow> u64) \<Rightarrow>
      ('e, 'i) Board \<Rightarrow> ('e, 'i) Board outcome" where
  "serialEvent sink_on tc g gi junk t0 now clk b =
     seq (onRxd tc g gi junk t0 now clk (uart_rx b) (brkr b)) (\<lambda>v. Inr (set_brkr sink_on v (b\<lparr>uart_rx := []\<rparr>)))"

text \<open>The part of \<open>loop\<close> after \<open>mainThread.loop()\<close>.\<close>

definition loop_serial ::
    "(bool \<Rightarrow> bool list \<Rightarrow> bool list) \<Rightarrow> ('e, 'i) tinycbor \<Rightarrow> 'e \<Rightarrow> 'i \<Rightarrow> c_int \<Rightarrow> u64 \<Rightarrow> u64 \<times> u64 \<Rightarrow> (nat \<Rightarrow> u64) \<Rightarrow>
      ('e, 'i) Board \<Rightarrow> ('e, 'i) Board outcome" where
  "loop_serial sink_on tc g gi junk t0 now clk b =
     (if uart_rx b \<noteq> [] then serialEvent sink_on tc g gi junk t0 now clk b else Inr b)"

inductive board_step ::
    "(bool \<Rightarrow> bool list \<Rightarrow> bool list) \<Rightarrow> ('e, 'i) tinycbor \<Rightarrow> ('e, 'i) Board \<Rightarrow> ('e, 'i) Board \<Rightarrow> bool" for sink_on tc where
  keep_alive: "on_keepAlive tc g millis (dev_broker (brkr b)) = Inr d \<Longrightarrow>
    board_step sink_on tc b (set_brkr sink_on ((brkr b)\<lparr>dev_broker := d\<rparr>) b)"
| connect_timer: "board_step sink_on tc b
    (set_brkr sink_on ((brkr b)\<lparr>dev_broker := on_connectTimer millis (dev_broker (brkr b))\<rparr>) b)"
| blink_timer: "board_step sink_on tc b (b\<lparr>ledBlinkerBlue := LedBlinker_on_timer (ledBlinkerBlue b)\<rparr>)"
| blink_slow: "blink_queue b = flag # rest \<Longrightarrow>
    board_step sink_on tc b (b\<lparr>blink_queue := rest, ledBlinkerBlue := LedBlinker_blinkSlow flag (ledBlinkerBlue b)\<rparr>)"
| serial_event: "serialEvent sink_on tc g gi junk t0 now clk b = Inr b' \<Longrightarrow> board_step sink_on tc b b'"
| loop_poll: "loop_serial sink_on tc g gi junk t0 now clk b = Inr b' \<Longrightarrow> board_step sink_on tc b b'"
| arrive: "board_step sink_on tc b (b\<lparr>uart_rx := uart_rx b @ bs\<rparr>)"
| interrupt: "Button_isrButton level (Some (button1 b)) = Some btn \<Longrightarrow> board_step sink_on tc b (b\<lparr>button1 := btn\<rparr>)"

section \<open>Notifications\<close>

text \<open>\<open>connected\<close> holds the last value it emitted.\<close>

definition notifies :: "'e BrokerSerial \<Rightarrow> 'e BrokerSerial \<Rightarrow> bool" where
  "notifies d d' \<longleftrightarrow> (\<exists>new. connected_sent d' = connected_sent d @ new \<and>
     dev_connected d' = last (dev_connected d # new))"

lemma notifies_refl [simp]: "notifies d d"
  by (simp add: notifies_def)

lemma notifies_trans:
  assumes "notifies d d'" "notifies d' d''"
  shows "notifies d d''"
proof -
  from assms obtain xs ys where "connected_sent d' = connected_sent d @ xs" "connected_sent d'' = connected_sent d' @ ys"
    "dev_connected d' = last (dev_connected d # xs)" "dev_connected d'' = last (dev_connected d' # ys)"
    unfolding notifies_def by blast
  then show ?thesis
    unfolding notifies_def by (intro exI [of _ "xs @ ys"]) auto
qed

lemma notifies_silent: "connected_sent d' = connected_sent d \<Longrightarrow> dev_connected d' = dev_connected d \<Longrightarrow> notifies d d'"
  by (simp add: notifies_def)

lemma notifies_set: "notifies d (set_connected v d)"
  by (simp add: notifies_def)

lemma for_each_keeps:
  assumes "for_each (\<lambda>_. f) i xs s = Inr s'" "P s" "\<And>x t t'. f x t = Inr t' \<Longrightarrow> P t \<Longrightarrow> P t'"
  shows "P s'"
  using assms
proof (induction xs arbitrary: i s)
  case (Cons x xs)
  from Cons.prems(1) obtain s1 where s1: "f x s = Inr s1" "for_each (\<lambda>_. f) (Suc i) xs s1 = Inr s'"
    by (auto elim: seq_InrE)
  from Cons.IH [OF s1(2) Cons.prems(3) [OF s1(1) Cons.prems(2)] Cons.prems(3)] show ?case .
qed simp

lemma send_notifies:
  "send_dev_subscriber tc r d = Inr d' \<Longrightarrow> notifies d d'" "send_dev_publisher tc r d = Inr d' \<Longrightarrow> notifies d d'"
  "send_dev_connect tc d = Inr d' \<Longrightarrow> notifies d d'" "dev_publish tc g p t d = Inr d' \<Longrightarrow> notifies d d'"
  by (auto simp: device_op_defs elim!: seq_InrE intro!: notifies_silent split: prod.splits)

lemma handler_notifies:
  assumes "h \<in> set (dev_handlers tc g gi junk t0 now)" "h inp d = Inr d'"
  shows "notifies d d'"
proof -
  consider "h = on_incomingPublish tc g gi junk t0 now" | "h = on_incomingConnect tc" | "d' = d"
    using assms by (auto simp: dev_handlers_def)
  then show ?thesis
  proof cases
    case 1
    with assms(2) show ?thesis
      by (auto simp: on_incomingPublish_def elim!: seq_InrE split: option.splits dest!: send_notifies(4))
        (auto simp: notifies_def)
  next
    case 2
    with assms(2) obtain d1 where d1: "for_each (\<lambda>_. send_dev_subscriber tc) 0 (dev_subscribers (set_connected True d)) (set_connected True d) = Inr d1"
      "for_each (\<lambda>_. send_dev_publisher tc) 0 (dev_publishers d1) d1 = Inr d'"
      by (auto simp: on_incomingConnect_def Let_def elim!: seq_InrE)
    have "notifies d d1"
      using d1(1) notifies_set by (rule for_each_keeps) (blast intro: notifies_trans send_notifies)
    with d1(2) show ?thesis
      by (rule for_each_keeps) (blast intro: notifies_trans send_notifies)
  qed simp
qed

lemma onRxd_notifies:
  assumes "onRxd tc g gi junk t0 now clk bs v = Inr v'"
  shows "notifies (dev_broker v) (dev_broker v')"
proof -
  from assms obtain fss fs d where d: "dev_dispatch tc g gi junk t0 now fss (dev_filters v, dev_broker v) = Inr (fs, d)"
    "dev_broker v' = d"
    by (auto simp: onRxd_def elim!: seq_InrE split: prod.splits)
  have "notifies (dev_broker v) (snd (fs, d))"
    using d(1) unfolding dev_dispatch_def
  proof (rule for_each_keeps)
    fix frame t t'
    assume "bytesToFrame_on tc g gi junk t0 now frame t = Inr t'" "notifies (dev_broker v) (snd t)"
    then show "notifies (dev_broker v) (snd t')"
      unfolding bytesToFrame_on_def
      by (cases t') (auto elim!: filter_flows_keep intro: notifies_trans handler_notifies)
  qed simp
  with d(2) show ?thesis by simp
qed

section \<open>The LED\<close>

text \<open>
  What limero documents of its queue: a value is appended as long as there is room for it.
\<close>

definition queue_of_3 :: "(bool \<Rightarrow> bool list \<Rightarrow> bool list) \<Rightarrow> bool" where
  "queue_of_3 sink_on \<longleftrightarrow> (\<forall>v q. length q < 3 \<longrightarrow> sink_on v q = q @ [v])"

text \<open>What the LED will show when the queue is empty is the state of the connection.\<close>

definition shown :: "bool \<Rightarrow> u32" where
  "shown c = (if c then 500 else 100)"

definition led_ok :: "('e, 'i) Board \<Rightarrow> bool" where
  "led_ok b \<longleftrightarrow> wired b \<and> led_interval (fold LedBlinker_blinkSlow (blink_queue b) (ledBlinkerBlue b)) =
     shown (dev_connected (dev_broker (brkr b)))"

text \<open>The step does not put more on the queue than there is room for.\<close>

definition queue_room :: "('e, 'i) Board \<Rightarrow> ('e, 'i) Board \<Rightarrow> bool" where
  "queue_room b b' \<longleftrightarrow> length (blink_queue b) + length (connected_sent (dev_broker (brkr b'))) \<le>
     3 + length (connected_sent (dev_broker (brkr b)))"

lemma blink_fold:
  "led_interval (fold LedBlinker_blinkSlow vs l) = (if vs = [] then led_interval l else shown (last vs))"
  by (induction vs arbitrary: l) (auto simp: LedBlinker_blinkSlow_def shown_def)

lemma sink_fold:
  "queue_of_3 sink_on \<Longrightarrow> length q + length vs \<le> 3 \<Longrightarrow> fold sink_on vs q = q @ vs"
  by (induction vs arbitrary: q) (simp_all add: queue_of_3_def)

lemma set_brkr_led_ok:
  assumes "queue_of_3 sink_on" "led_ok b" "notifies (dev_broker (brkr b)) (dev_broker v)"
    and "queue_room b (set_brkr sink_on v b)"
  shows "led_ok (set_brkr sink_on v b)"
proof -
  from assms(3) obtain new where new: "connected_sent (dev_broker v) = connected_sent (dev_broker (brkr b)) @ new"
    "dev_connected (dev_broker v) = last (dev_connected (dev_broker (brkr b)) # new)" by (auto simp: notifies_def)
  have "length (blink_queue b) + length new \<le> 3"
    using assms(4) new(1) by (simp add: queue_room_def set_brkr_def Let_def)
  then have "fold sink_on new (blink_queue b) = blink_queue b @ new"
    by (rule sink_fold [OF assms(1)])
  then show ?thesis
    using assms(2) new by (auto simp: led_ok_def set_brkr_def Let_def blink_fold)
qed

lemma serialEvent_led_ok:
  assumes "serialEvent sink_on tc g gi junk t0 now clk b = Inr b'" "queue_of_3 sink_on" "led_ok b" "queue_room b b'"
  shows "led_ok b'"
proof -
  from assms(1) obtain v where v: "onRxd tc g gi junk t0 now clk (uart_rx b) (brkr b) = Inr v"
    "b' = set_brkr sink_on v (b\<lparr>uart_rx := []\<rparr>)"
    by (auto simp: serialEvent_def elim!: seq_InrE)
  have "led_ok (b\<lparr>uart_rx := []\<rparr>)" "queue_room (b\<lparr>uart_rx := []\<rparr>) b'"
    using assms(3,4) by (simp_all add: led_ok_def queue_room_def)
  moreover have "notifies (dev_broker (brkr (b\<lparr>uart_rx := []\<rparr>))) (dev_broker v)"
    using onRxd_notifies [OF v(1)] by simp
  ultimately show ?thesis
    unfolding v(2) using assms(2) by (intro set_brkr_led_ok)
qed

lemma board_step_led_ok:
  assumes "board_step sink_on tc b b'" "queue_of_3 sink_on" "led_ok b" "queue_room b b'"
  shows "led_ok b'"
  using assms(1)
proof cases
  case (keep_alive g millis d)
  have "notifies (dev_broker (brkr b)) d"
    using keep_alive(2) by (auto simp: on_keepAlive_def split: if_splits dest: send_notifies)
  with keep_alive assms(2-4) show ?thesis by (simp add: set_brkr_led_ok)
next
  case (connect_timer millis)
  have "notifies (dev_broker (brkr b)) (on_connectTimer millis (dev_broker (brkr b)))"
    by (simp add: on_connectTimer_def notifies_set del: set_connected_def)
  with connect_timer assms(2-4) show ?thesis by (simp add: set_brkr_led_ok)
next
  case (loop_poll g gi junk t0 now clk)
  then show ?thesis
    using assms(2-4) serialEvent_led_ok [OF _ assms(2-4)] by (auto simp: loop_serial_def split: if_splits)
next
  case (serial_event g gi junk t0 now clk)
  then show ?thesis by (rule serialEvent_led_ok [OF _ assms(2-4)])
next
  case blink_timer
  then show ?thesis
    using assms(3) by (cases "blink_queue b = []") (simp_all add: led_ok_def blink_fold LedBlinker_on_timer_def Let_def)
qed (use assms(3) in \<open>simp_all add: led_ok_def\<close>)

text \<open>A run in which the queue always has room.\<close>

inductive board_run ::
    "(bool \<Rightarrow> bool list \<Rightarrow> bool list) \<Rightarrow> ('e, 'i) tinycbor \<Rightarrow> ('e, 'i) Board \<Rightarrow> ('e, 'i) Board \<Rightarrow> bool" for sink_on tc b where
  start: "board_run sink_on tc b b"
| step: "board_run sink_on tc b b' \<Longrightarrow> board_step sink_on tc b' b'' \<Longrightarrow> queue_room b' b'' \<Longrightarrow> board_run sink_on tc b b''"

lemma board_run_led_ok:
  assumes "board_run sink_on tc b b'" "queue_of_3 sink_on" "led_ok b"
  shows "led_ok b'"
  using assms(1)
proof induction
  case (step b' b'')
  from board_step_led_ok [OF step.hyps(2) assms(2) step.IH step.hyps(3)] show ?case .
qed (rule assms(3))

text \<open>The board after \<open>setup\<close> is the device of the other theories, with its LED blinking fast.\<close>

lemma setup_brkr:
  "dev_broker (brkr (board_setup sink_on HOSTNAME garbage it (Board_static flag enc null loopback))) =
    BrokerSerial_init (BrokerSerial_new enc null loopback)"
  "dev_filters (brkr (board_setup sink_on HOSTNAME garbage it (Board_static flag enc null loopback))) =
    device_filters_new garbage it"
  by (simp_all add: board_setup_def Board_static_def set_brkr_def Let_def)

lemma setup_led_ok: "led_ok (board_setup sink_on HOSTNAME garbage it (Board_static flag enc null loopback))"
  by (simp add: led_ok_def board_setup_def Board_static_def set_brkr_def Let_def LedBlinker_init_def LedBlinker_new_def
      BrokerSerial_init_def BrokerSerial_new_def dev_publisher_def dev_subscriber_def shown_def)

text \<open>
  C28: The LED. In every run of the board after \<open>setup\<close> that never puts more than three values on the
  queue of \<open>blinkSlow\<close>, the LED's timer has, whenever the queue is empty, the interval of 500 ms if
  the device is connected and 100 ms if not; with values still queued, it will when they are taken.
\<close>

theorem led_shows_connection:
  assumes "board_run sink_on tc (board_setup sink_on HOSTNAME garbage it (Board_static flag enc null loopback)) b"
    and "queue_of_3 sink_on"
  shows "led_interval (fold LedBlinker_blinkSlow (blink_queue b) (ledBlinkerBlue b)) =
      (if dev_connected (dev_broker (brkr b)) then 500 else 100) \<and>
    (blink_queue b = [] \<longrightarrow>
      led_interval (ledBlinkerBlue b) = (if dev_connected (dev_broker (brkr b)) then 500 else 100))"
  using board_run_led_ok [OF assms setup_led_ok]
  by (cases "blink_queue b = []") (simp_all add: led_ok_def shown_def)

text \<open>A board that has just read the proxy's answer to its connect.\<close>

definition wire_setup :: "(wire_encoder, bytes) Board" where
  "wire_setup = board_setup (\<lambda>v q. q @ [v]) [0x65] \<lparr>msgType = 0\<rparr> []
     (Board_static 0 (0, [], False) \<lparr>res_id = 0, res_key = []\<rparr> 0)"

lemma wire_setup_reads_connect:
  "\<exists>b. board_run (\<lambda>v q. q @ [v]) wire wire_setup b \<and> dev_connected (dev_broker (brkr b)) \<and> blink_queue b = [True]"
proof -
  let ?bs = "wire_array (items_MsgConnect \<lparr>clientId = [0x41]\<rparr>)" and ?v = "brkr wire_setup"
  have v: "dev_broker ?v = wire_device 0" "dev_filters ?v = device_filters_new \<lparr>msgType = 0\<rparr> []"
    "dev_framer ?v = BytesToFrame_new 0" "wired wire_setup" "blink_queue wire_setup = []" "uart_rx wire_setup = []"
    by (simp_all add: wire_setup_def setup_brkr wire_device_def)
      (simp_all add: board_setup_def Board_static_def set_brkr_def Let_def)
  have enc: "cbor_encodes wire wire_at 1024 (items_MsgConnect \<lparr>clientId = [0x41]\<rparr>) ?bs"
    by (rule wire_array_encodes) (simp_all add: items_defs msg_types wire_eval)
  then have bs: "?bs \<noteq> []" by (simp add: cbor_encodes_def)
  have line: "timely (ucast BytesToFrame_frameTimeout) [(\<lambda>_. 5, ppp_frame ?bs)] (dev_lastFrameFlag (dev_framer ?v))"
    by (rule timely_constant) (simp_all add: ppp_frame_body)
  have init: "dev_inputFrame (dev_framer ?v) = []" "connected_sent (wire_device 0) = [False]"
    by (simp_all add: v BytesToFrame_new_def wire_device_def BrokerSerial_init_def BrokerSerial_new_def dev_publisher_def
        dev_subscriber_def Let_def)
  from registers_on_connect [OF wire.cbor_channel_axioms wire_device_fits(2,3) _ device_filters_new enc,
      of 0 "(0, [], False)" "[]" 0 0 "(5, 5)" "\<lparr>msgType = 0\<rparr>" "[]"] obtain fs d where
    d: "bytesToFrame_on wire (0, [], False) [] 0 0 (5, 5) ?bs (dev_filters ?v, dev_broker ?v) = Inr (fs, d)" "dev_connected d"
      "connected_sent d = connected_sent (wire_device 0) @ [True]"
    by (auto simp: v sends_def)
  from device_reads_frame [OF line init(1) bs _ d(1)] obtain e where
    e: "onRxd wire (0, [], False) [] 0 0 (5, 5) (\<lambda>_. 5) (ppp_frame ?bs) ?v =
      Inr (?v\<lparr>dev_framer := e, dev_filters := fs, dev_broker := d\<rparr>)" by auto
  let ?b = "wire_setup\<lparr>uart_rx := uart_rx wire_setup @ ppp_frame ?bs\<rparr>"
  let ?b' = "set_brkr (\<lambda>v q. q @ [v]) (?v\<lparr>dev_framer := e, dev_filters := fs, dev_broker := d\<rparr>) (?b\<lparr>uart_rx := []\<rparr>)"
  have "serialEvent (\<lambda>v q. q @ [v]) wire (0, [], False) [] 0 0 (5, 5) (\<lambda>_. 5) ?b = Inr ?b'"
    using e v(6) by (simp add: serialEvent_def)
  moreover have "queue_room wire_setup ?b" "queue_room ?b ?b'"
    using d(3) v(1,5) by (simp_all add: queue_room_def set_brkr_def Let_def)
  ultimately have "board_run (\<lambda>v q. q @ [v]) wire wire_setup ?b'"
    by (blast intro: board_run.intros board_step.arrive board_step.serial_event)
  moreover have "blink_queue ?b' = [True]" "dev_connected (dev_broker (brkr ?b'))"
    using d(2,3) v(1,4,5) by (simp_all add: set_brkr_def Let_def)
  ultimately show ?thesis by blast
qed

lemma led_shows_connection_witness:
  "\<exists>b :: (wire_encoder, bytes) Board. blink_queue b = [True] \<and> dev_connected (dev_broker (brkr b)) \<and>
    led_interval (fold LedBlinker_blinkSlow (blink_queue b) (ledBlinkerBlue b)) = 500"
proof -
  have "queue_of_3 (\<lambda>v q. q @ [v])" by (simp add: queue_of_3_def)
  moreover from wire_setup_reads_connect obtain b where
    b: "board_run (\<lambda>v q. q @ [v]) wire wire_setup b" "dev_connected (dev_broker (brkr b))" "blink_queue b = [True]" by blast
  ultimately have "led_interval (fold LedBlinker_blinkSlow (blink_queue b) (ledBlinkerBlue b)) =
      (if dev_connected (dev_broker (brkr b)) then 500 else 100)"
    using led_shows_connection [OF b(1) [unfolded wire_setup_def]] by blast
  with b(2,3) show ?thesis by (intro exI [of _ b]) simp
qed

end
