(* ===== verification/Proxy_Faults.thy ===== *)
theory Proxy_Faults
  imports Proxy_Types Codec_Faults
begin

text \<open>
  Which faults the bytes of the serial line can cause in the proxy: those of the frames
  (\<open>Codec_Faults\<close>), since with the laws of tinycbor the reply always succeeds.
\<close>

section \<open>Faults of the extractor\<close>

lemma rxd_byte_cases:
  "rxd_byte t b s = Inl e \<Longrightarrow> e = PopBackEmpty \<and> popping (inputFrame s)"
  "rxd_byte t b s = Inr s' \<Longrightarrow> inputFrame s' = [] \<or> inputFrame s' = inputFrame s @ [b]"
  by (auto simp: rxd_byte_def handleFrame_def emit_def toStdout_def Let_def popping_def
      elim!: seq_InlE seq_InrE split: if_splits prod.splits dest: deframe_fault)

text \<open>What has not been framed yet is the end of what has been \<open>seen\<close>.\<close>

lemma rxd_loop_cases:
  assumes "suffix (inputFrame s) seen"
  shows "case for_each (\<lambda>i. rxd_byte (clk i)) n bs s of
      Inl e \<Rightarrow> pops (seen @ bs) e | Inr s' \<Rightarrow> suffix (inputFrame s') (seen @ bs)"
  using assms
proof (induction bs arbitrary: n s seen)
  case (Cons b bs)
  show ?case
  proof (cases "rxd_byte (clk n) b s")
    case (Inl e)
    then have "pops seen e"
      using rxd_byte_cases(1) [OF Inl] Cons.prems by (auto simp: pops_def intro: suffix_imp_sublist)
    with Inl show ?thesis by (simp add: pops_append)
  next
    case (Inr s1)
    then have "suffix (inputFrame s1) (seen @ [b])"
      using rxd_byte_cases(2) [OF Inr] Cons.prems by auto
    from Cons.IH [OF this, of "Suc n"] Inr show ?thesis by (simp split: sum.splits)
  qed
qed simp

lemma extractor_cases:
  assumes "suffix (inputFrame s) seen"
  shows "case FrameExtractor_on clk bs s of
      Inl e \<Rightarrow> pops (seen @ bs) e | Inr s' \<Rightarrow> suffix (inputFrame s') (seen @ bs)"
  using rxd_loop_cases [OF assms, where clk = clk and n = 0 and bs = bs]
  by (auto simp: FrameExtractor_on_def handleRxd_def split: sum.splits elim!: seq_InlE seq_InrE)

section \<open>Faults of the flows\<close>

lemma handler_fault:
  assumes "cbor_channel tc open_array at item_size 1024 1024"
    and "message_bytes item_size (items_MsgConnect connected_reply) \<le> 1024"
    and "h \<in> set (proxy_handlers tc z junk)" "h frame p = Inl e" "core_typed tc p"
  shows "e \<in> dup_faults tc"
proof -
  have "cbor_channel.fits item_size 1024 (items_MsgConnect connected_reply)"
    using assms(2) by (simp add: cbor_channel.fits_def [OF assms(1)])
  then have reply: "send_connect tc connected_reply u \<noteq> Inl e" if "uplink_typed u" for u
    using cbor_channel.send_connect_sends [OF assms(1), of connected_reply u] that
    by (auto simp: uplink_typed_def ser_typed_def)
  from assms(3) consider "h = on_connect tc z" | "h = on_subscriber tc z junk" | "h = on_publisher tc z junk"
    | "h = on_publish tc z junk" | "h = on_disconnect tc"
    by (auto simp: proxy_handlers_def)
  then show ?thesis
  proof cases
    case 1
    have "uplink_typed (uplink p)" using assms(5) by (simp add: core_typed_def)
    with 1 assms(4) reply show ?thesis
      by (auto simp: on_connect_def Let_def elim!: seq_InlE split: if_splits prod.splits dest!: de_faults.faults_messages de_faults.faults_no_text)
  qed (use assms(4) in \<open>auto simp: handler_defs Let_def elim!: seq_InlE split: if_splits prod.splits
      dest!: de_faults.faults_messages de_faults.faults_no_text\<close>)
qed

lemma fromSerialMsg_fault:
  assumes "cbor_channel tc open_array at item_size 1024 1024"
    and "message_bytes item_size (items_MsgConnect connected_reply) \<le> 1024"
    and "fromSerialMsg_on tc z junk frame p = Inl e" "proxy_typed tc p"
  shows "e \<in> dup_faults tc"
proof (rule filter_flows_fault)
  show "filter_flows tc (proxy_handlers tc z junk) frame (filters p) (core p) = Inl e"
    using assms(3) by (auto simp: fromSerialMsg_on_def elim!: seq_InlE)
  show "list_all (bounded (core_typed tc) (dup_faults tc)) (proxy_handlers tc z junk)"
    using handler_fault [OF assms(1,2)] handler_typed unfolding list_all_iff bounded_def by blast
  show "core_typed tc (core p)"
    using assms(4) by (simp add: proxy_typed_def)
qed (rule dup_faults_subset)

lemma dispatch_fault:
  assumes "cbor_channel tc open_array at item_size 1024 1024"
    and "message_bytes item_size (items_MsgConnect connected_reply) \<le> 1024"
    and "dispatch tc z junk bss p = Inl e" "proxy_typed tc p"
  shows "e \<in> dup_faults tc"
  using assms(3,4)
proof (induction bss arbitrary: p)
  case (Cons bs bss)
  then show ?case
    by (auto simp: dispatch_Cons elim!: seq_InlE dest: fromSerialMsg_typed fromSerialMsg_fault [OF assms(1,2)])
qed simp

text \<open>A chunk, after the bytes \<open>seen\<close>.\<close>

lemma chunk_cases:
  assumes "cbor_channel tc open_array at item_size 1024 1024"
    and "message_bytes item_size (items_MsgConnect connected_reply) \<le> 1024"
    and "suffix (inputFrame (bytesToFrame h)) seen" "proxy_typed tc (proxy h)"
  shows "case serial_incoming tc z junk clk bs h of
      Inl e \<Rightarrow> pops (seen @ bs) e \<or> e \<in> dup_faults tc
    | Inr h' \<Rightarrow> suffix (inputFrame (bytesToFrame h')) (seen @ bs) \<and> proxy_typed tc (proxy h')"
proof (cases "FrameExtractor_on clk bs (bytesToFrame h)")
  case (Inl e)
  then show ?thesis
    using extractor_cases [OF assms(3), where clk = clk and bs = bs] by (simp add: serial_incoming_def)
next
  case (Inr x)
  then have "suffix (inputFrame x) (seen @ bs)"
    using extractor_cases [OF assms(3), where clk = clk and bs = bs] by simp
  with Inr show ?thesis
    using assms(4) by (auto simp: serial_incoming_def split: sum.split elim!: seq_InlE seq_InrE
        dest: dispatch_typed dispatch_fault [OF assms(1,2)])
qed

lemma run_faults:
  assumes "cbor_channel tc open_array at item_size 1024 1024"
    and "message_bytes item_size (items_MsgConnect connected_reply) \<le> 1024"
    and "suffix (inputFrame (bytesToFrame h)) seen" "proxy_typed tc (proxy h)"
    and "run_chunks (serial_incoming tc z junk) cs h = Inl e"
  shows "pops (seen @ concat (map snd cs)) e \<or> e \<in> dup_faults tc"
  using assms(3-5)
proof (induction cs arbitrary: h seen)
  case (Cons c cs)
  obtain clk bs where c: "c = (clk, bs)" by force
  note cases = chunk_cases [OF assms(1,2) Cons.prems(1,2), where clk = clk and bs = bs and z = z and junk = junk]
  show ?case
  proof (cases "serial_incoming tc z junk clk bs h")
    case (Inl e')
    with cases Cons.prems(3) c pops_append(1) [of "seen @ bs" e "concat (map snd cs)"] show ?thesis by auto
  next
    case (Inr h')
    with cases Cons.prems(3) c Cons.IH [of h' "seen @ bs"] show ?thesis by simp
  qed
qed simp

text \<open>
  C14: Faults from the serial line. With a CBOR library that behaves as documented, the only thing that
  bytes on the serial line can do to a proxy, in any state it can reach, is to make
  \<open>ppp_deframe\<close> pop from an empty vector, which takes three bytes or more in a row of which fewer
  than two are not escape characters, or to read uninitialised variables, which takes a string that
  the library recognises and then cannot copy. No message makes an assertion fail, and nothing is
  written or read out of bounds.
\<close>

theorem serial_faults:
  assumes "cbor_channel tc open_array at item_size 1024 1024"
    and "message_bytes item_size (items_MsgConnect connected_reply) \<le> 1024"
    and "(host_step tc z)\<^sup>*\<^sup>* (Host_new flag garbage enc it) h"
    and "run_chunks (serial_incoming tc z junk) cs h = Inl e"
  shows "(e = PopBackEmpty \<and> (\<exists>body. sublist body (inputFrame (bytesToFrame h) @ concat (map snd cs)) \<and>
      3 \<le> length body \<and> length (filter (\<lambda>c. c \<noteq> PPP_ESC_CHAR) body) < 2)) \<or>
    (e = UninitRead \<and> \<not> dup_total tc)"
proof -
  have "proxy_typed tc (proxy h)"
    using assms(3)
  proof induction
    case base
    then show ?case by (simp add: Host_new_def proxy_typed_new)
  next
    case (step h h')
    from host_step_typed [OF step.hyps(2) step.IH] show ?case .
  qed
  from run_faults [OF assms(1,2) suffix_order.refl this assms(4)] show ?thesis
    by (auto simp: pops_def popping_def dup_faults_def split: if_splits)
qed

lemma serial_faults_witness:
  "\<exists>body. sublist body (inputFrame (bytesToFrame wire_host) @ [PPP_ESC_CHAR, PPP_ESC_CHAR, PPP_ESC_CHAR, PPP_FLAG_CHAR]) \<and>
    3 \<le> length body \<and> length (filter (\<lambda>c. c \<noteq> PPP_ESC_CHAR) body) < 2"
proof -
  let ?cs = "[(\<lambda>_. 5, [PPP_ESC_CHAR, PPP_ESC_CHAR, PPP_ESC_CHAR, PPP_FLAG_CHAR])] :: chunk list"
  have "run_chunks (serial_incoming wire numbering_zenoh 0) ?cs wire_host = Inl PopBackEmpty"
    by (simp add: wire_host_def Host_new_def FrameExtractor_new_def serial_incoming_def FrameExtractor_on_def
        handleRxd_def rxd_byte_def handleFrame_def ppp_chars ppp_deframe_def)
  from serial_faults [OF wire.cbor_channel_axioms connected_fits rtranclp.rtrancl_refl
      this [unfolded wire_host_def]] show ?thesis
    by (simp add: wire_host_def)
qed

end
