(* ===== verification/Cbor_Dump.thy ===== *)
theory Cbor_Dump
  imports Util Cbor_Wire
begin

text \<open>
  The text dump of CBOR data of \<open>common/CborDump.cpp\<close>, with which the proxy logs every frame it
  receives. The tinycbor functions that walk over a value are the fields of the record
  \<open>cbor_iter\<close>, a parameter. The string stream is its text and its base flag, which the manipulator
  \<open>hex\<close> switches for good. The nesting level, an \<open>int\<close> that starts at 0, is a natural number.
\<close>

section \<open>The library\<close>

datatype CborType = CborIntegerType | CborByteStringType | CborTextStringType | CborArrayType | CborMapType
  | CborTagType | CborSimpleType | CborBooleanType | CborNullType | CborUndefinedType | CborHalfFloatType
  | CborFloatType | CborDoubleType | CborInvalidType

text \<open>
  \<open>'i\<close> is a \<open>CborValue\<close>. Floating-point numbers are their bit patterns, which the stream prints with
  \<open>show_float\<close> and \<open>show_double\<close>; \<open>show_size\<close> makes the text \<open>[%d]\<close> of the limero library.
\<close>

record 'i cbor_iter =
  it_parser_init :: "bytes \<Rightarrow> 'i"
  it_at_end :: "'i \<Rightarrow> bool"
  it_type :: "'i \<Rightarrow> CborType"
  it_is_container :: "'i \<Rightarrow> bool"
  it_enter_container :: "'i \<Rightarrow> CborError \<times> 'i"
  it_leave_container :: "'i \<Rightarrow> 'i \<Rightarrow> CborError \<times> 'i"
  it_get_int64 :: "'i \<Rightarrow> CborError \<times> 64 word"
  it_dup_byte_string :: "'i \<Rightarrow> CborError \<times> bytes \<times> 'i"
  it_dup_text_string :: "'i \<Rightarrow> CborError \<times> bytes \<times> 'i"
  it_get_tag :: "'i \<Rightarrow> CborError \<times> u64"
  it_get_simple_type :: "'i \<Rightarrow> CborError \<times> byte"
  it_get_boolean :: "'i \<Rightarrow> CborError \<times> bool"
  it_get_half_float :: "'i \<Rightarrow> CborError \<times> u16"
  it_get_float :: "'i \<Rightarrow> CborError \<times> u32"
  it_get_double :: "'i \<Rightarrow> CborError \<times> u64"
  it_advance_fixed :: "'i \<Rightarrow> CborError \<times> 'i"
  it_unknown_type :: CborError
  show_float :: "u32 \<Rightarrow> string"
  show_double :: "u64 \<Rightarrow> string"
  show_size :: "nat \<Rightarrow> string"

section \<open>The string stream\<close>

type_synonym stringstream = "string \<times> bool"

definition put_text :: "string \<Rightarrow> stringstream \<Rightarrow> stringstream" where
  "put_text t ss = (fst ss @ t, snd ss)"

fun digits :: "nat \<Rightarrow> nat \<Rightarrow> string" where
  "digits b n = (if b < 2 \<or> n < b then [''0123456789abcdef'' ! n] else digits b (n div b) @ [''0123456789abcdef'' ! (n mod b)])"

declare digits.simps [simp del]

text \<open>A signed number is printed in hexadecimal as its unsigned bit pattern.\<close>

definition put_long :: "64 word \<Rightarrow> stringstream \<Rightarrow> stringstream" where
  "put_long val ss =
     put_text (if snd ss then digits 16 (unat val)
       else if sint val < 0 then ''-'' @ digits 10 (nat (- sint val)) else digits 10 (nat (sint val))) ss"

definition put_u16 :: "u16 \<Rightarrow> stringstream \<Rightarrow> stringstream" where
  "put_u16 val ss = put_text (digits (if snd ss then 16 else 10) (unat val)) ss"

definition set_hex :: "stringstream \<Rightarrow> stringstream" where
  "set_hex ss = (fst ss, True)"

definition put_char :: "byte \<Rightarrow> stringstream \<Rightarrow> stringstream" where
  "put_char c = put_text [char_of (unat c)]"

text \<open>A \<open>char *\<close> is printed up to its first zero.\<close>

definition put_c_string :: "bytes \<Rightarrow> stringstream \<Rightarrow> stringstream" where
  "put_c_string buf = put_text (map (\<lambda>c. char_of (unat c)) (takeWhile (\<lambda>c. c \<noteq> 0) buf))"

definition indent :: "nat \<Rightarrow> stringstream \<Rightarrow> stringstream" where
  "indent nestingLevel = put_text (replicate nestingLevel CHR '' '')"

section \<open>The dump\<close>

text \<open>
  The cases of the switch without recursion. The last component says whether the case ends in
  \<open>continue\<close>: the duplicating functions have moved the iterator.
\<close>

definition dump_value :: "'i cbor_iter \<Rightarrow> 'i \<Rightarrow> stringstream \<Rightarrow> CborError \<times> stringstream \<times> 'i \<times> bool" where
  "dump_value api it ss =
     (case it_type api it of
        CborIntegerType \<Rightarrow>
          (let (ret, val) = it_get_int64 api it in
           if ret \<noteq> CborNoError then (ret, ss, it, False) else (ret, put_text '','' (put_long val ss), it, False))
      | CborByteStringType \<Rightarrow>
          (let (ret, buf, it) = it_dup_byte_string api it in
           if ret \<noteq> CborNoError then (ret, ss, it, False)
           else (ret, put_text '''' (put_text (hexDump (show_size api) buf '' '') ss), it, True))
      | CborTextStringType \<Rightarrow>
          (let (ret, buf, it) = it_dup_text_string api it in
           if ret \<noteq> CborNoError then (ret, ss, it, False)
           else (ret, put_text [CHR 0x27] (put_c_string buf (put_text [CHR 0x27] ss)), it, True))
      | CborTagType \<Rightarrow>
          (let (ret, tag) = it_get_tag api it in
           if ret \<noteq> CborNoError then (ret, ss, it, False)
           else (ret, put_text '','' (put_text '')'' (put_long tag (put_text ''Tag('' ss))), it, False))
      | CborSimpleType \<Rightarrow>
          (let (ret, type) = it_get_simple_type api it in
           if ret \<noteq> CborNoError then (ret, ss, it, False)
           else (ret, put_text '','' (put_text '')'' (put_char type (put_text ''simple('' ss))), it, False))
      | CborNullType \<Rightarrow> (CborNoError, put_text ''null'' ss, it, False)
      | CborUndefinedType \<Rightarrow> (CborNoError, put_text ''undefined'' ss, it, False)
      | CborBooleanType \<Rightarrow>
          (let (ret, val) = it_get_boolean api it in
           if ret \<noteq> CborNoError then (ret, ss, it, False)
           else (ret, put_text (if val then ''true'' else ''false'') ss, it, False))
      | CborHalfFloatType \<Rightarrow>
          (let (ret, val) = it_get_half_float api it in
           if ret \<noteq> CborNoError then (ret, ss, it, False)
           else (ret, put_text '','' (put_text '')'' (put_u16 val (set_hex (put_text ''__f16('' ss)))), it, False))
      | CborFloatType \<Rightarrow>
          (let (ret, val) = it_get_float api it in
           if ret \<noteq> CborNoError then (ret, ss, it, False)
           else (ret, put_text '','' (put_text (show_float api val) ss), it, False))
      | CborDoubleType \<Rightarrow>
          (let (ret, val) = it_get_double api it in
           if ret \<noteq> CborNoError then (ret, ss, it, False)
           else (ret, put_text '','' (put_text (show_double api val) ss), it, False))
      | _ \<Rightarrow> (it_unknown_type api, ss, it, False))"

text \<open>\<open>None\<close> is a dump that does not return.\<close>

partial_function (option) dumpCborRecursive ::
    "'i cbor_iter \<Rightarrow> stringstream \<Rightarrow> 'i \<Rightarrow> nat \<Rightarrow> (CborError \<times> stringstream \<times> 'i) outcome option" where
  "dumpCborRecursive api ss it nestingLevel =
     (if it_at_end api it then Some (Inr (CborNoError, ss, it)) else
      let type = it_type api it; ss = indent nestingLevel ss in
      if type = CborArrayType \<or> type = CborMapType then
        if \<not> it_is_container api it then Some (Inl AssertFailed) else
        let ss = put_text (if type = CborArrayType then ''Array['' else ''Map{'') ss;
            (ret, recursed) = it_enter_container api it in
        if ret \<noteq> CborNoError then Some (Inr (ret, ss, it)) else
        Option.bind (dumpCborRecursive api ss recursed (nestingLevel + 1)) (\<lambda>r. case r of
           Inr (ret, ss, recursed) \<Rightarrow>
             if ret \<noteq> CborNoError then Some (Inr (ret, ss, it)) else
             let (ret, it) = it_leave_container api it recursed in
             if ret \<noteq> CborNoError then Some (Inr (ret, ss, it)) else
             let ss = put_text (if type = CborArrayType then '']'' else ''}'') (indent nestingLevel ss)
             in dumpCborRecursive api ss it nestingLevel
         | Inl e \<Rightarrow> Some (Inl e))
      else
        let (ret, ss, it, moved) = dump_value api it ss in
        if ret \<noteq> CborNoError then Some (Inr (ret, ss, it))
        else if moved then dumpCborRecursive api ss it nestingLevel else
        let (ret, it) = it_advance_fixed api it in
        if ret \<noteq> CborNoError then Some (Inr (ret, ss, it)) else
        dumpCborRecursive api ss it nestingLevel)"

definition cborDump :: "'i cbor_iter \<Rightarrow> bytes \<Rightarrow> string outcome option" where
  "cborDump api bs =
     (case dumpCborRecursive api ('''', False) (it_parser_init api bs) 0 of
        Some (Inr (_, ss, _)) \<Rightarrow> Some (Inr (fst ss))
      | Some (Inl e) \<Rightarrow> Some (Inl e)
      | None \<Rightarrow> None)"

section \<open>Items and their text\<close>

datatype cbor_tree = TInt "64 word" | TBytes bytes | TText bytes | TArray "cbor_tree list" | TMap "cbor_tree list"
  | TTag u64 | TSimple byte | TBool bool | TNull | TUndefined | THalf u16 | TFloat u32 | TDouble u64

fun show_leaf :: "'i cbor_iter \<Rightarrow> cbor_tree \<Rightarrow> stringstream \<Rightarrow> stringstream" where
  "show_leaf api (TInt v) ss = put_text '','' (put_long v ss)"
| "show_leaf api (TBytes b) ss = put_text (hexDump (show_size api) b '' '') ss"
| "show_leaf api (TText t) ss = put_text [CHR 0x27] (put_c_string t (put_text [CHR 0x27] ss))"
| "show_leaf api (TTag v) ss = put_text ''),'' (put_long v (put_text ''Tag('' ss))"
| "show_leaf api (TSimple y) ss = put_text ''),'' (put_char y (put_text ''simple('' ss))"
| "show_leaf api (TBool b) ss = put_text (if b then ''true'' else ''false'') ss"
| "show_leaf api TNull ss = put_text ''null'' ss"
| "show_leaf api TUndefined ss = put_text ''undefined'' ss"
| "show_leaf api (THalf h) ss = put_text ''),'' (put_u16 h (set_hex (put_text ''__f16('' ss)))"
| "show_leaf api (TFloat f) ss = put_text '','' (put_text (show_float api f) ss)"
| "show_leaf api (TDouble d) ss = put_text '','' (put_text (show_double api d) ss)"
| "show_leaf api _ ss = ss"

fun show_trees :: "'i cbor_iter \<Rightarrow> nat \<Rightarrow> cbor_tree list \<Rightarrow> stringstream \<Rightarrow> stringstream" where
  "show_trees api n [] ss = ss"
| "show_trees api n (TArray us # ts) ss =
     show_trees api n ts (put_text '']'' (indent n (show_trees api (n + 1) us (put_text ''Array['' (indent n ss)))))"
| "show_trees api n (TMap us # ts) ss =
     show_trees api n ts (put_text ''}'' (indent n (show_trees api (n + 1) us (put_text ''Map{'' (indent n ss)))))"
| "show_trees api n (t # ts) ss = show_trees api n ts (show_leaf api t (indent n ss))"

section \<open>What the library promises\<close>

text \<open>
  \<open>den it ts e\<close>: from \<open>it\<close> on there are the items \<open>ts\<close>, and behind them the iterator is \<open>e\<close>, at its
  end. \<open>tree_step\<close>: on the item \<open>t\<close> the functions of its type succeed and lead to \<open>it'\<close>.
\<close>

definition container_step ::
    "'i cbor_iter \<Rightarrow> ('i \<Rightarrow> cbor_tree list \<Rightarrow> 'i \<Rightarrow> bool) \<Rightarrow> 'i \<Rightarrow> cbor_tree list \<Rightarrow> 'i \<Rightarrow> bool" where
  "container_step api den it us it' \<longleftrightarrow> it_is_container api it \<and>
     (\<exists>r e. it_enter_container api it = (CborNoError, r) \<and> den r us e \<and> it_leave_container api it e = (CborNoError, it'))"

fun tree_step ::
    "'i cbor_iter \<Rightarrow> ('i \<Rightarrow> cbor_tree list \<Rightarrow> 'i \<Rightarrow> bool) \<Rightarrow> 'i \<Rightarrow> cbor_tree \<Rightarrow> 'i \<Rightarrow> bool" where
  "tree_step api den it (TArray us) it' \<longleftrightarrow> it_type api it = CborArrayType \<and> container_step api den it us it'"
| "tree_step api den it (TMap us) it' \<longleftrightarrow> it_type api it = CborMapType \<and> container_step api den it us it'"
| "tree_step api den it (TBytes b) it' \<longleftrightarrow>
     it_type api it = CborByteStringType \<and> it_dup_byte_string api it = (CborNoError, b, it')"
| "tree_step api den it (TText b) it' \<longleftrightarrow>
     it_type api it = CborTextStringType \<and> it_dup_text_string api it = (CborNoError, b, it')"
| "tree_step api den it t it' \<longleftrightarrow> it_advance_fixed api it = (CborNoError, it') \<and>
     (case t of
        TInt v \<Rightarrow> it_type api it = CborIntegerType \<and> it_get_int64 api it = (CborNoError, v)
      | TTag v \<Rightarrow> it_type api it = CborTagType \<and> it_get_tag api it = (CborNoError, v)
      | TSimple y \<Rightarrow> it_type api it = CborSimpleType \<and> it_get_simple_type api it = (CborNoError, y)
      | TBool b \<Rightarrow> it_type api it = CborBooleanType \<and> it_get_boolean api it = (CborNoError, b)
      | TNull \<Rightarrow> it_type api it = CborNullType
      | TUndefined \<Rightarrow> it_type api it = CborUndefinedType
      | THalf h \<Rightarrow> it_type api it = CborHalfFloatType \<and> it_get_half_float api it = (CborNoError, h)
      | TFloat f \<Rightarrow> it_type api it = CborFloatType \<and> it_get_float api it = (CborNoError, f)
      | TDouble d \<Rightarrow> it_type api it = CborDoubleType \<and> it_get_double api it = (CborNoError, d)
      | _ \<Rightarrow> False)"

definition iterates :: "'i cbor_iter \<Rightarrow> ('i \<Rightarrow> cbor_tree list \<Rightarrow> 'i \<Rightarrow> bool) \<Rightarrow> bool" where
  "iterates api den \<longleftrightarrow>
     (\<forall>it e. den it [] e \<longrightarrow> it_at_end api it \<and> e = it) \<and>
     (\<forall>it t ts e. den it (t # ts) e \<longrightarrow> \<not> it_at_end api it \<and> (\<exists>it'. tree_step api den it t it' \<and> den it' ts e))"

lemma iteratesD:
  assumes "iterates api den"
  shows "den it [] e \<Longrightarrow> it_at_end api it \<and> e = it"
    "den it (t # ts) e \<Longrightarrow> \<not> it_at_end api it \<and> (\<exists>it'. tree_step api den it t it' \<and> den it' ts e)"
  using assms by (auto simp: iterates_def)

section \<open>The dump prints the items\<close>

lemma put_text_append [simp]: "put_text s (put_text t ss) = put_text (t @ s) ss"
  by (simp add: put_text_def)

lemma put_text_Nil [simp]: "put_text [] ss = ss"
  by (simp add: put_text_def)

lemma dump_container:
  assumes "\<not> it_at_end api it" "it_type api it = type" "type = CborArrayType \<or> type = CborMapType"
    and "container_step api den it us it'"
    and "\<And>r e. den r us e \<Longrightarrow>
      dumpCborRecursive api (put_text (if type = CborArrayType then ''Array['' else ''Map{'') (indent n ss)) r (n + 1) =
      Some (Inr (CborNoError, ss', e))"
  shows "dumpCborRecursive api ss it n =
    dumpCborRecursive api (put_text (if type = CborArrayType then '']'' else ''}'') (indent n ss')) it' n"
proof -
  obtain r e where "it_enter_container api it = (CborNoError, r)" "den r us e" "it_leave_container api it e = (CborNoError, it')"
    "it_is_container api it"
    using assms(4) by (auto simp: container_step_def)
  with assms(1-3) assms(5) [of r e] show ?thesis
    by (subst dumpCborRecursive.simps) (simp add: Let_def)
qed

lemma dump_moves:
  assumes "\<not> it_at_end api it" "it_type api it \<noteq> CborArrayType" "it_type api it \<noteq> CborMapType"
    and "dump_value api it (indent n ss) = (CborNoError, ss', it2, moved)"
    and "if moved then it2 = it' else it_advance_fixed api it2 = (CborNoError, it')"
  shows "dumpCborRecursive api ss it n = dumpCborRecursive api ss' it' n"
  by (subst dumpCborRecursive.simps) (use assms in \<open>simp add: Let_def split: if_splits\<close>)

fun is_leaf :: "cbor_tree \<Rightarrow> bool" where
  "is_leaf (TArray _) = False"
| "is_leaf (TMap _) = False"
| "is_leaf _ = True"

lemma dump_leaf:
  assumes "is_leaf t" "\<not> it_at_end api it" "tree_step api den it t it'"
  shows "dumpCborRecursive api ss it n = dumpCborRecursive api (show_leaf api t (indent n ss)) it' n"
proof -
  have "\<exists>it2 moved. dump_value api it (indent n ss) = (CborNoError, show_leaf api t (indent n ss), it2, moved) \<and>
    (if moved then it2 = it' else it_advance_fixed api it2 = (CborNoError, it'))"
    using assms(1,3) by (cases t) (simp_all add: dump_value_def ex_bool_eq)
  moreover have "it_type api it \<noteq> CborArrayType" "it_type api it \<noteq> CborMapType"
    using assms(1,3) by (cases t; simp)+
  ultimately show ?thesis
    using dump_moves assms(2) by metis
qed

lemma show_trees_leaf:
  "is_leaf t \<Longrightarrow> show_trees api n (t # ts) ss = show_trees api n ts (show_leaf api t (indent n ss))"
  by (cases t) simp_all

lemma dump_prints:
  "iterates api den \<Longrightarrow> den it ts e \<Longrightarrow>
    dumpCborRecursive api ss it n = Some (Inr (CborNoError, show_trees api n ts ss, e))"
proof (induction "size_list size ts" arbitrary: it ts e ss n rule: less_induct)
  case less
  note law = less.prems(1)
  show ?case
  proof (cases ts)
    case Nil
    then show ?thesis using iteratesD(1) [OF law] less.prems(2) by (subst dumpCborRecursive.simps) auto
  next
    case (Cons t us)
    from iteratesD(2) [OF law less.prems(2) [unfolded Cons]] obtain it' where it':
      "\<not> it_at_end api it" "tree_step api den it t it'" "den it' us e" by blast
    have rest: "dumpCborRecursive api ss it' n = Some (Inr (CborNoError, show_trees api n us ss, e))" for ss
      by (rule less.hyps [OF _ law it'(3)]) (simp add: Cons)
    have inner: "dumpCborRecursive api ss r m = Some (Inr (CborNoError, show_trees api m vs ss, e'))"
      if "t = TArray vs \<or> t = TMap vs" "den r vs e'" for vs ss r e' m
      by (rule less.hyps [OF _ law that(2)]) (use that(1) Cons in auto)
    show ?thesis
    proof (cases "is_leaf t")
      case True
      then show ?thesis unfolding Cons using dump_leaf [OF True it'(1,2)] rest by (simp add: show_trees_leaf)
    next
      case False
      then consider vs where "t = TArray vs" | vs where "t = TMap vs" by (cases t) auto
      then show ?thesis
      proof cases
        case (1 vs)
        then have s: "it_type api it = CborArrayType" "container_step api den it vs it'" using it'(2) by simp_all
        show ?thesis
          unfolding Cons 1 using dump_container [OF it'(1) s(1) _ s(2)] inner [of vs] 1 rest by simp
      next
        case (2 vs)
        then have s: "it_type api it = CborMapType" "container_step api den it vs it'" using it'(2) by simp_all
        show ?thesis
          unfolding Cons 2 using dump_container [OF it'(1) s(1) _ s(2)] inner [of vs] 2 rest by simp
      qed
    qed
  qed
qed

section \<open>The dump returns\<close>

text \<open>Every successful step of the library makes the measure \<open>m\<close> smaller.\<close>

definition advances :: "'i cbor_iter \<Rightarrow> ('i \<Rightarrow> nat) \<Rightarrow> bool" where
  "advances api m \<longleftrightarrow> (\<forall>it. \<not> it_at_end api it \<longrightarrow>
     (\<forall>r. it_enter_container api it = (CborNoError, r) \<longrightarrow> m r < m it \<and>
       (\<forall>e it'. m e \<le> m r \<longrightarrow> it_leave_container api it e = (CborNoError, it') \<longrightarrow> m it' < m it)) \<and>
     (\<forall>bs it'. it_dup_byte_string api it = (CborNoError, bs, it') \<longrightarrow> m it' < m it) \<and>
     (\<forall>bs it'. it_dup_text_string api it = (CborNoError, bs, it') \<longrightarrow> m it' < m it) \<and>
     (\<forall>it'. it_advance_fixed api it = (CborNoError, it') \<longrightarrow> m it' < m it))"

lemma dump_value_it:
  assumes "dump_value api it ss = (CborNoError, ss', it2, moved)"
  shows "if moved then (\<exists>bs. it_dup_byte_string api it = (CborNoError, bs, it2)) \<or> (\<exists>bs. it_dup_text_string api it = (CborNoError, bs, it2))
    else it2 = it"
  using assms by (cases "it_type api it") (auto simp: dump_value_def split: prod.splits if_splits)

text \<open>A dump returns, and without an error it leaves no more than \<open>b\<close>.\<close>

definition ends :: "('i \<Rightarrow> nat) \<Rightarrow> nat \<Rightarrow> (CborError \<times> stringstream \<times> 'i) outcome option \<Rightarrow> bool" where
  "ends m b r \<longleftrightarrow> (\<exists>res. r = Some res \<and>
     (\<forall>ret ss' it'. res = Inr (ret, ss', it') \<longrightarrow> ret = CborNoError \<longrightarrow> m it' \<le> b))"

lemma ends_mono: "ends m b r \<Longrightarrow> b \<le> c \<Longrightarrow> ends m c r"
  unfolding ends_def by fastforce

lemma ends_error: "ret \<noteq> CborNoError \<Longrightarrow> ends m b (Some (Inr (ret, ss, it)))" "ends m b (Some (Inl e))"
  by (simp_all add: ends_def)

lemma dump_container_ends:
  assumes adv: "advances api m" and "\<not> it_at_end api it"
    and type: "it_type api it = CborArrayType \<or> it_type api it = CborMapType"
    and less: "\<And>it2 ss k. m it2 < m it \<Longrightarrow> ends m (m it2) (dumpCborRecursive api ss it2 k)"
  shows "ends m (m it) (dumpCborRecursive api ss it n)"
proof -
  note adv' = adv [unfolded advances_def, rule_format, OF assms(2)]
  note body = dumpCborRecursive.simps [of api ss it n]
  let ?open = "put_text (if it_type api it = CborArrayType then ''Array['' else ''Map{'') (indent n ss)"
  obtain ret r where enter: "it_enter_container api it = (ret, r)" by fastforce
  show ?thesis
  proof (cases "it_is_container api it \<and> ret = CborNoError")
    case False
    then show ?thesis
      using type assms(2) enter by (subst body) (auto simp: Let_def ends_error)
  next
    case ok: True
    have r: "m r < m it" "\<And>e it'. m e \<le> m r \<Longrightarrow> it_leave_container api it e = (CborNoError, it') \<Longrightarrow> m it' < m it"
      using adv'(1) enter ok by auto
    obtain res where res: "dumpCborRecursive api ?open r (n + 1) = Some res"
      "\<And>ret ss' it'. res = Inr (ret, ss', it') \<Longrightarrow> ret = CborNoError \<Longrightarrow> m it' \<le> m r"
      using less [OF r(1), of ?open "n + 1"] by (auto simp: ends_def)
    show ?thesis
    proof (cases res)
      case (Inl e)
      then show ?thesis unfolding body using type assms(2) enter ok res(1) by (simp add: Let_def ends_error)
    next
      case (Inr x)
      obtain ret2 ss2 e where x: "x = (ret2, ss2, e)" by (cases x)
      obtain ret3 it3 where leave: "it_leave_container api it e = (ret3, it3)" by fastforce
      have "ends m (m it) (dumpCborRecursive api ss' it3 n)" if "ret2 = CborNoError" "ret3 = CborNoError" for ss'
      proof -
        have "m it3 < m it" using r(2) [of e it3] res(2) Inr x leave that by blast
        with less [OF this, of ss' n] show ?thesis by (auto elim: ends_mono)
      qed
      then show ?thesis
        unfolding body using type assms(2) enter ok res(1) Inr x leave by (auto simp: Let_def ends_error)
    qed
  qed
qed

lemma dump_leaf_ends:
  assumes adv: "advances api m" and "\<not> it_at_end api it"
    and type: "\<not> (it_type api it = CborArrayType \<or> it_type api it = CborMapType)"
    and less: "\<And>it2 ss k. m it2 < m it \<Longrightarrow> ends m (m it2) (dumpCborRecursive api ss it2 k)"
  shows "ends m (m it) (dumpCborRecursive api ss it n)"
proof -
  note adv' = adv [unfolded advances_def, rule_format, OF assms(2)]
  note body = dumpCborRecursive.simps [of api ss it n]
  let ?ss = "indent n ss"
  obtain ret ss2 it2 moved where v: "dump_value api it ?ss = (ret, ss2, it2, moved)" by (metis prod.exhaust)
  obtain ret3 it3 where a: "it_advance_fixed api it2 = (ret3, it3)" by fastforce
  have later: "ends m (m it) (dumpCborRecursive api ss' it' n)" if "m it' < m it" for ss' it'
    using less [OF that, of ss' n] that by (auto elim: ends_mono)
  consider "ret \<noteq> CborNoError" | "ret = CborNoError" "moved" "m it2 < m it"
    | "ret = CborNoError" "\<not> moved" "ret3 \<noteq> CborNoError"
    | "ret = CborNoError" "\<not> moved" "ret3 = CborNoError" "m it3 < m it"
    using dump_value_it [of api it ?ss ss2 it2 moved] v a adv' by (cases moved; cases "ret = CborNoError") auto
  then show ?thesis
    by cases (use type assms(2) v a in \<open>simp_all add: body Let_def ends_error later\<close>)
qed

lemma dump_total:
  assumes "advances api m"
  shows "\<exists>res. dumpCborRecursive api ss it n = Some res \<and>
    (\<forall>ret ss' it'. res = Inr (ret, ss', it') \<longrightarrow> ret = CborNoError \<longrightarrow> m it' \<le> m it)"
proof -
  have "ends m (m it) (dumpCborRecursive api ss it n)"
  proof (induction "m it" arbitrary: it ss n rule: less_induct)
    case less
    show ?case
    proof (cases "it_at_end api it")
      case True
      then show ?thesis by (subst dumpCborRecursive.simps) (simp add: ends_def)
    next
      case False
      from dump_container_ends [OF assms False _ less] dump_leaf_ends [OF assms False _ less] show ?thesis by blast
    qed
  qed
  then show ?thesis by (simp add: ends_def)
qed

section \<open>The wire format\<close>

text \<open>
  The library on RFC 8949 bytes, with indefinite-length containers as the serializer writes them:
  an iterator is the bytes that are left.
\<close>

definition wire_types :: "nat \<Rightarrow> nat \<Rightarrow> CborType" where
  "wire_types major info =
     (if major \<le> 1 then CborIntegerType else if major = 2 then CborByteStringType else if major = 3 then CborTextStringType
      else if major = 4 then CborArrayType else if major = 5 then CborMapType else if major = 6 then CborTagType
      else if info < 20 \<or> info = 24 then CborSimpleType else if info \<le> 21 then CborBooleanType
      else if info = 22 then CborNullType else if info = 23 then CborUndefinedType else if info = 25 then CborHalfFloatType
      else if info = 26 then CborFloatType else if info = 27 then CborDoubleType else CborInvalidType)"

definition wire_arg :: "bytes \<Rightarrow> 'a :: len word \<Rightarrow> CborError \<times> 'a word" where
  "wire_arg it junk = (case wire_unhead it of Some (_, n, _) \<Rightarrow> (0, of_nat n) | None \<Rightarrow> (1, junk))"

definition wire_dup_string :: "bytes \<Rightarrow> CborError \<times> bytes \<times> bytes" where
  "wire_dup_string it = (case wire_unhead it of
      Some (_, n, rest) \<Rightarrow> if n \<le> length rest then (0, take n rest, drop n rest) else (1, [], it)
    | None \<Rightarrow> (1, [], it))"

definition wire_iter :: "bytes cbor_iter" where
  "wire_iter = \<lparr>it_parser_init = id,
     it_at_end = (\<lambda>it. it = [] \<or> hd it = 0xFF),
     it_type = (\<lambda>it. wire_types (unat (hd it) div 32) (unat (hd it) mod 32)),
     it_is_container = (\<lambda>it. unat (hd it) div 32 = 4 \<or> unat (hd it) div 32 = 5),
     it_enter_container = (\<lambda>it. if it \<noteq> [] \<and> (hd it = 0x9F \<or> hd it = 0xBF) then (0, tl it) else (1, it)),
     it_leave_container = (\<lambda>it r. if r \<noteq> [] \<and> hd r = 0xFF then (0, tl r) else (1, r)),
     it_get_int64 = (\<lambda>it. case wire_unhead it of
       Some (major, n, _) \<Rightarrow> (0, if major = 0 then of_nat n else - of_nat n - 1) | None \<Rightarrow> (1, 0)),
     it_dup_byte_string = wire_dup_string, it_dup_text_string = wire_dup_string,
     it_get_tag = (\<lambda>it. wire_arg it 0), it_get_simple_type = (\<lambda>it. wire_arg it 0),
     it_get_boolean = (\<lambda>it. (0, hd it = 0xF5)),
     it_get_half_float = (\<lambda>it. wire_arg it 0), it_get_float = (\<lambda>it. wire_arg it 0), it_get_double = (\<lambda>it. wire_arg it 0),
     it_advance_fixed = (\<lambda>it. case wire_unhead it of Some (_, _, rest) \<Rightarrow> (0, rest) | None \<Rightarrow> (1, it)),
     it_unknown_type = 259, show_float = (\<lambda>_. ''f''), show_double = (\<lambda>_. ''d''), show_size = (\<lambda>n. ''['' @ digits 10 n @ '']'')\<rparr>"

lemma wire_iter_simps [simp]:
  "it_parser_init wire_iter it = it"
  "it_at_end wire_iter it \<longleftrightarrow> it = [] \<or> hd it = 0xFF"
  "it_type wire_iter it = wire_types (unat (hd it) div 32) (unat (hd it) mod 32)"
  "it_is_container wire_iter it \<longleftrightarrow> unat (hd it) div 32 = 4 \<or> unat (hd it) div 32 = 5"
  "it_enter_container wire_iter it = (if it \<noteq> [] \<and> (hd it = 0x9F \<or> hd it = 0xBF) then (0, tl it) else (1, it))"
  "it_leave_container wire_iter it r = (if r \<noteq> [] \<and> hd r = 0xFF then (0, tl r) else (1, r))"
  "it_get_int64 wire_iter it = (case wire_unhead it of
     Some (major, n, _) \<Rightarrow> (0, if major = 0 then of_nat n else - of_nat n - 1) | None \<Rightarrow> (1, 0))"
  "it_dup_byte_string wire_iter it = wire_dup_string it" "it_dup_text_string wire_iter it = wire_dup_string it"
  "it_get_tag wire_iter it = wire_arg it 0" "it_get_simple_type wire_iter it = wire_arg it 0"
  "it_get_boolean wire_iter it = (0, hd it = 0xF5)"
  "it_get_half_float wire_iter it = wire_arg it 0" "it_get_float wire_iter it = wire_arg it 0"
  "it_get_double wire_iter it = wire_arg it 0"
  "it_advance_fixed wire_iter it = (case wire_unhead it of Some (_, _, rest) \<Rightarrow> (0, rest) | None \<Rightarrow> (1, it))"
  by (simp_all add: wire_iter_def)

lemma wire_unhead_shorter: "wire_unhead bs = Some (major, n, rest) \<Longrightarrow> length rest < length bs"
  by (cases bs) (auto simp: Let_def split: if_splits)

lemma wire_advances: "advances wire_iter length"
proof -
  have dup: "length it' < length it" if "wire_dup_string it = (0, bs, it')" for it bs it'
    using that wire_unhead_shorter [of it] by (fastforce simp: wire_dup_string_def split: option.splits prod.splits if_splits)
  have adv: "length it' < length it" if "(case wire_unhead it of Some (_, _, rest) \<Rightarrow> (0, rest) | None \<Rightarrow> (1, it)) = (0 :: nat, it')" for it it'
    using that wire_unhead_shorter [of it] by (fastforce split: option.splits prod.splits if_splits)
  have tl: "length r - Suc 0 < length it" if "length r \<le> length it - Suc 0" "it \<noteq> []" for r it :: bytes
    using that by (cases it) auto
  show ?thesis
    unfolding advances_def by (auto simp: CborNoError_def dup adv tl split: if_splits)
qed

fun wire_tree :: "cbor_tree \<Rightarrow> bytes" where
  "wire_tree (TInt v) = wire_item (CInt (sint v))"
| "wire_tree (TBytes b) = wire_item (CBytes b)"
| "wire_tree (TText t) = wire_item (CText t)"
| "wire_tree (TArray us) = 0x9F # concat (map wire_tree us) @ [0xFF]"
| "wire_tree (TMap us) = 0xBF # concat (map wire_tree us) @ [0xFF]"
| "wire_tree (TTag v) = wire_head 6 (unat v)"
| "wire_tree (TSimple y) = wire_head 7 (unat y)"
| "wire_tree (TBool b) = wire_head 7 (if b then 21 else 20)"
| "wire_tree TNull = wire_head 7 22"
| "wire_tree TUndefined = wire_head 7 23"
| "wire_tree (THalf h) = initial_byte 7 25 # be 2 (unat h)"
| "wire_tree (TFloat f) = initial_byte 7 26 # be 4 (unat f)"
| "wire_tree (TDouble d) = initial_byte 7 27 # be 8 (unat d)"

fun wire_good :: "cbor_tree \<Rightarrow> bool" where
  "wire_good (TBytes b) \<longleftrightarrow> length b < 2 ^ 64"
| "wire_good (TText b) \<longleftrightarrow> length b < 2 ^ 64"
| "wire_good (TArray us) \<longleftrightarrow> list_all wire_good us"
| "wire_good (TMap us) \<longleftrightarrow> list_all wire_good us"
| "wire_good (TSimple y) \<longleftrightarrow> unat y < 20 \<or> 24 \<le> unat y"
| "wire_good t \<longleftrightarrow> True"

definition wire_den :: "bytes \<Rightarrow> cbor_tree list \<Rightarrow> bytes \<Rightarrow> bool" where
  "wire_den it ts e \<longleftrightarrow> it = concat (map wire_tree ts) @ e \<and> list_all wire_good ts \<and> (e = [] \<or> hd e = 0xFF)"

lemma wire_types_head:
  assumes "major < 8" "n < 2 ^ 64"
  shows "\<exists>info w. wire_head major n = initial_byte major info # w \<and> info < 28 \<and>
    (info = n \<and> n < 24 \<or> 24 \<le> n \<and> 24 \<le> info) \<and> (n < 256 \<longrightarrow> info \<le> 24)"
  by (auto simp: wire_head_def)

lemma initial_byte_not_break: "major < 8 \<Longrightarrow> info < 28 \<Longrightarrow> initial_byte major info \<noteq> 0xFF"
proof
  assume *: "major < 8" "info < 28" "initial_byte major info = 0xFF"
  then have "unat (initial_byte major info) mod 32 = info" using initial_byte_fields(2) [of major info] by linarith
  then show False using * by simp
qed

lemma wire_unhead_float:
  assumes "n < 256 ^ k" "(k, info) \<in> {(2, 25), (4, 26), (8, 27)}"
  shows "wire_unhead (initial_byte 7 info # be k n @ e) = Some (7, n, e)"
  using assms by (auto simp: initial_byte_fields Let_def unbe_be simp del: be.simps)

declare wire_unhead.simps [simp del] be.simps [simp del]

lemmas wire_api = wire_types_def wire_arg_def wire_dup_string_def CborNoError_def

lemma wire_head_first:
  assumes "major < 8" "n < 2 ^ 64"
  shows "wire_head major n \<noteq> []" "hd (wire_head major n) \<noteq> 0xFF" "unat (hd (wire_head major n)) div 32 = major"
    "n < 24 \<Longrightarrow> unat (hd (wire_head major n)) mod 32 = n"
    "24 \<le> n \<Longrightarrow> n < 256 \<Longrightarrow> unat (hd (wire_head major n)) mod 32 = 24"
proof -
  obtain info w where w: "wire_head major n = initial_byte major info # w" "info < 28"
    "info = n \<and> n < 24 \<or> 24 \<le> n \<and> 24 \<le> info" "n < 256 \<longrightarrow> info \<le> 24"
    using wire_types_head [OF assms] by blast
  show "wire_head major n \<noteq> []" using w(1) by simp
  show "hd (wire_head major n) \<noteq> 0xFF" using w initial_byte_not_break [OF assms(1)] by simp
  show "unat (hd (wire_head major n)) div 32 = major" using w initial_byte_fields(1) [OF assms(1), of info] by simp
  show "n < 24 \<Longrightarrow> unat (hd (wire_head major n)) mod 32 = n"
    using w initial_byte_fields(2) [OF assms(1), of info] by auto
  show "24 \<le> n \<Longrightarrow> n < 256 \<Longrightarrow> unat (hd (wire_head major n)) mod 32 = 24"
    using w initial_byte_fields(2) [OF assms(1), of info] by auto
qed

lemma wire_int_step:
  "tree_step wire_iter wire_den (wire_tree (TInt v) @ x) (TInt v) x"
  "wire_tree (TInt v) \<noteq> [] \<and> hd (wire_tree (TInt v)) \<noteq> 0xFF"
proof -
  obtain major n where h: "wire_tree (TInt v) = wire_head major n" "major \<le> 1" "n < 2 ^ 64"
    "v = (if major = 0 then of_nat n else - of_nat n - 1)"
  proof (cases "0 \<le> sint v")
    case True
    have "nat (sint v) < 2 ^ 64" using sint_lt [of v] by simp
    moreover have "v = of_nat (nat (sint v))" using True by simp
    ultimately show ?thesis using True that [of 0 "nat (sint v)"] by simp
  next
    case False
    have "nat (- sint v - 1) < 2 ^ 64" using sint_ge [of v] by simp
    moreover have "v = - of_nat (nat (- sint v - 1)) - 1" using False by simp
    ultimately show ?thesis using False that [of 1 "nat (- sint v - 1)"] by simp
  qed
  have m: "major < 8" using h(2) by simp
  note first = wire_head_first [OF m h(3)] and un = wire_unhead_head [OF m h(3), of x]
  show "tree_step wire_iter wire_den (wire_tree (TInt v) @ x) (TInt v) x"
    unfolding h(1) using h(2,4) first un by (simp add: wire_api)
  show "wire_tree (TInt v) \<noteq> [] \<and> hd (wire_tree (TInt v)) \<noteq> 0xFF"
    unfolding h(1) using first by simp
qed

lemma wire_leaf_head:
  assumes "major < 8" "n < 2 ^ 64"
  shows "wire_unhead (wire_head major n @ y) = Some (major, n, y) \<and> wire_head major n \<noteq> [] \<and>
    hd (wire_head major n) \<noteq> 0xFF \<and> unat (hd (wire_head major n)) div 32 = major \<and>
    (n < 24 \<longrightarrow> unat (hd (wire_head major n)) mod 32 = n) \<and>
    (24 \<le> n \<longrightarrow> n < 256 \<longrightarrow> unat (hd (wire_head major n)) mod 32 = 24)"
  using wire_unhead_head [OF assms] wire_head_first [OF assms] by blast

lemma unat_less_64: "LENGTH('a) \<le> 64 \<Longrightarrow> unat (a :: 'a :: len word) < 2 ^ 64"
  by (rule less_le_trans [OF unsigned_less power_increasing]) simp_all

lemma float_initial_byte:
  assumes "info \<in> {25, 26, 27}"
  shows "initial_byte 7 info \<noteq> 0xFF" "unat (initial_byte 7 info) div 32 = 7" "unat (initial_byte 7 info) mod 32 = info"
  using assms initial_byte_not_break [of 7 info] initial_byte_fields [of 7 info] by auto

lemma wire_leaf_step:
  assumes "is_leaf t" "wire_good t"
  shows "tree_step wire_iter wire_den (wire_tree t @ x) t x \<and> wire_tree t \<noteq> [] \<and> hd (wire_tree t) \<noteq> 0xFF"
proof (cases t)
  case (TInt v)
  then show ?thesis using wire_int_step by blast
next
  case (TBytes b)
  then show ?thesis using assms wire_leaf_head [of 2 "length b" "b @ x"] by (simp add: wire_api)
next
  case (TText b)
  then show ?thesis using assms wire_leaf_head [of 3 "length b" "b @ x"] by (simp add: wire_api)
next
  case (TTag v)
  then show ?thesis using wire_leaf_head [of 6 "unat v" x] unat_less_64 [of v] by (simp add: wire_api)
next
  case (TSimple y)
  then show ?thesis using assms wire_leaf_head [of 7 "unat y" x] unat_less_64 [of y] unat_byte_less [of y] by (auto simp: wire_api)
next
  case (TBool b)
  then show ?thesis using wire_leaf_head [of 7 "if b then 21 else 20" x] by (simp add: wire_api wire_head_def initial_byte_def)
next
  case TNull
  then show ?thesis using wire_leaf_head [of 7 22 x] by (simp add: wire_api)
next
  case TUndefined
  then show ?thesis using wire_leaf_head [of 7 23 x] by (simp add: wire_api)
next
  case (THalf h)
  have "unat h < 256 ^ 2" using unsigned_less [of h, where 'a = nat] by simp
  then show ?thesis using THalf float_initial_byte [of 25] wire_unhead_float [of "unat h" 2 25 x] by (simp add: wire_api del: be.simps wire_unhead.simps)
next
  case (TFloat h)
  have "unat h < 256 ^ 4" using unsigned_less [of h, where 'a = nat] by simp
  then show ?thesis using TFloat float_initial_byte [of 26] wire_unhead_float [of "unat h" 4 26 x] by (simp add: wire_api del: be.simps wire_unhead.simps)
next
  case (TDouble h)
  have "unat h < 256 ^ 8" using unsigned_less [of h, where 'a = nat] by simp
  then show ?thesis using TDouble float_initial_byte [of 27] wire_unhead_float [of "unat h" 8 27 x] by (simp add: wire_api del: be.simps wire_unhead.simps)
qed (use assms in simp_all)

lemma wire_container_step:
  assumes "list_all wire_good us" "c = 0x9F \<or> c = 0xBF"
  shows "container_step wire_iter wire_den (c # concat (map wire_tree us) @ [0xFF] @ x) us x"
proof -
  have "wire_den (concat (map wire_tree us) @ [0xFF] @ x) us ([0xFF] @ x)"
    using assms(1) by (simp add: wire_den_def)
  moreover have "it_is_container wire_iter (c # w)" "it_enter_container wire_iter (c # w) = (CborNoError, w)"
    "it_leave_container wire_iter (c # w) ([0xFF] @ x) = (CborNoError, x)" for w
    using assms(2) by (auto simp: CborNoError_def)
  ultimately show ?thesis
    unfolding container_step_def by blast
qed

lemma wire_iterates: "iterates wire_iter wire_den"
proof -
  have "\<exists>it'. tree_step wire_iter wire_den it t it' \<and> wire_den it' ts e \<and> \<not> it_at_end wire_iter it"
    if den: "wire_den it (t # ts) e" for it t ts e
  proof -
    let ?x = "concat (map wire_tree ts) @ e"
    have it: "it = wire_tree t @ ?x" and good: "wire_good t" and rest: "wire_den ?x ts e"
      using den by (auto simp: wire_den_def)
    have "tree_step wire_iter wire_den it t ?x \<and> \<not> it_at_end wire_iter it"
    proof (cases "is_leaf t")
      case True
      then show ?thesis unfolding it using wire_leaf_step [OF True good, of ?x] by simp
    next
      case False
      then show ?thesis
        unfolding it using good wire_container_step [of _ "0x9F" ?x] wire_container_step [of _ "0xBF" ?x]
        by (cases t) (simp_all add: wire_types_def)
    qed
    with rest show ?thesis by blast
  qed
  then show ?thesis
    unfolding iterates_def by (fastforce simp: wire_den_def)
qed

section \<open>Properties\<close>

text \<open>
  C23: What the dump shows. Over a library that walks over the items of a value as documented, the
  dump is the text of these items, without an error, and leaves the iterator at its end.
\<close>

theorem dump_shows_items:
  assumes "iterates api den" and "den (it_parser_init api bs) ts e"
  shows "cborDump api bs = Some (Inr (fst (show_trees api 0 ts ([], False))))"
  using dump_prints [OF assms] by (simp add: cborDump_def)

text \<open>A half float switches the stream to hexadecimal for the numbers behind it.\<close>

lemma be_2: "be 2 n = [word_of_nat (n div 256 mod 256), word_of_nat (n mod 256)]"
  by (simp add: numeral_2_eq_2 be.simps)

lemma dump_shows_items_witness:
  "cborDump wire_iter [0x9F, 0x10, 0xF9, 0x3C, 0x00, 0x10, 0x62, 0x68, 0x69, 0xFF] =
    Some (Inr ''Array[ 16, __f16(3c00), 10, 'hi']'')"
proof -
  let ?ts = "[TArray [TInt 16, THalf 0x3C00, TInt 16, TText [0x68, 0x69]]]"
  have "be 2 0x3C00 = [0x3C, 0x00]" by (simp add: be_2)
  then have "wire_den [0x9F, 0x10, 0xF9, 0x3C, 0x00, 0x10, 0x62, 0x68, 0x69, 0xFF] ?ts []"
    by (simp add: wire_den_def wire_head_def initial_byte_def be.simps(1))
  then have "cborDump wire_iter [0x9F, 0x10, 0xF9, 0x3C, 0x00, 0x10, 0x62, 0x68, 0x69, 0xFF] =
      Some (Inr (fst (show_trees wire_iter 0 ?ts ([], False))))"
    using dump_shows_items [OF wire_iterates, of "[0x9F, 0x10, 0xF9, 0x3C, 0x00, 0x10, 0x62, 0x68, 0x69, 0xFF]" ?ts "[]"]
    by simp
  also have "fst (show_trees wire_iter 0 ?ts ([], False)) = ''Array[ 16, __f16(3c00), 10, 'hi']''"
    by (simp add: indent_def put_text_def put_long_def put_u16_def set_hex_def put_c_string_def digits.simps char_of_eq_iff)
  finally show ?thesis .
qed

text \<open>
  The dump returns. Over a library every successful step of which shortens what is left, the dump
  of any bytes returns, with a text or at a failed assertion.
\<close>

theorem dump_returns:
  assumes "advances api m"
  shows "\<exists>r. cborDump api bs = Some r"
proof -
  obtain res where "dumpCborRecursive api ([], False) (it_parser_init api bs) 0 = Some res"
    using dump_total [OF assms] by blast
  then show ?thesis
    by (cases res) (auto simp: cborDump_def)
qed

lemma dump_returns_witness: "\<exists>r. cborDump wire_iter [0x9F, 0xBF, 0x41] = Some r"
  by (rule dump_returns [OF wire_advances])

end
