(* ===== verification/Proxy_Log.thy ===== *)
theory Proxy_Log
  imports Host Cbor_Dump
begin

text \<open>
  The two flows of \<open>src/proxy.cpp\<close> that log what travels: \<open>fromSerialMsg\<close> dumps every message before
  the filters see it, \<open>toSerialMsg\<close> every message after it has been framed. A dump can fail to
  return and can abort, so the logging is part of what the proxy does with the bytes on the line.
\<close>

section \<open>The flows\<close>

text \<open>What \<open>INFO("RXD %s", ...)\<close> prints: the text up to the first zero.\<close>

definition log_line :: "'j cbor_iter \<Rightarrow> string \<Rightarrow> bytes \<Rightarrow> string outcome option" where
  "log_line api tag bs = map_option (map_sum id (\<lambda>text. tag @ takeWhile (\<lambda>c. c \<noteq> CHR 0x00) text)) (cborDump api bs)"

definition fromSerialMsg_logged ::
    "'j cbor_iter \<Rightarrow> ('e, 'i) tinycbor \<Rightarrow> 'e forward Sub zenoh \<Rightarrow> c_int \<Rightarrow> bytes \<Rightarrow>
      ('e, 'i) Proxy \<times> string list \<Rightarrow> (('e, 'i) Proxy \<times> string list) outcome option" where
  "fromSerialMsg_logged api tc z junk bs pl =
     Option.bind (log_line api ''RXD '' bs) (\<lambda>line. Some (seq line (\<lambda>line.
       seq (fromSerialMsg_on tc z junk bs (fst pl)) (\<lambda>p. Inr (p, snd pl @ [line])))))"

definition toSerialMsg_logged ::
    "'j cbor_iter \<Rightarrow> bytes \<Rightarrow> 'e Uplink \<times> string list \<Rightarrow> ('e Uplink \<times> string list) outcome option" where
  "toSerialMsg_logged api bs ul =
     (let u = toSerialMsg_on bs (fst ul) in
      Option.bind (log_line api ''TXD '' bs) (\<lambda>line. Some (seq line (\<lambda>line. Inr (u, snd ul @ [line])))))"

fun dispatch_logged ::
    "'j cbor_iter \<Rightarrow> ('e, 'i) tinycbor \<Rightarrow> 'e forward Sub zenoh \<Rightarrow> c_int \<Rightarrow> bytes list \<Rightarrow>
      ('e, 'i) Proxy \<times> string list \<Rightarrow> (('e, 'i) Proxy \<times> string list) outcome option" where
  "dispatch_logged api tc z junk [] pl = Some (Inr pl)"
| "dispatch_logged api tc z junk (bs # bss) pl =
     Option.bind (fromSerialMsg_logged api tc z junk bs pl) (\<lambda>r. case r of
        Inl e \<Rightarrow> Some (Inl e)
      | Inr pl \<Rightarrow> dispatch_logged api tc z junk bss pl)"

definition serial_incoming_logged ::
    "'j cbor_iter \<Rightarrow> ('e, 'i) tinycbor \<Rightarrow> 'e forward Sub zenoh \<Rightarrow> c_int \<Rightarrow> (nat \<Rightarrow> u64) \<Rightarrow> bytes \<Rightarrow>
      ('e, 'i) Host \<times> string list \<Rightarrow> (('e, 'i) Host \<times> string list) outcome option" where
  "serial_incoming_logged api tc z junk clk bs hl =
     (case FrameExtractor_on clk bs (bytesToFrame (fst hl)) of
        Inl e \<Rightarrow> Some (Inl e)
      | Inr x \<Rightarrow>
          Option.bind (dispatch_logged api tc z junk
              (emitted (drop (length (outputs (bytesToFrame (fst hl)))) (outputs x))) (proxy (fst hl), snd hl)) (\<lambda>r.
            Some (seq r (\<lambda>(p, log). Inr ((fst hl)\<lparr>bytesToFrame := x, proxy := p\<rparr>, log)))))"

section \<open>Dumps that do not abort\<close>

text \<open>A library that calls every array and map a container.\<close>

definition containers_known :: "'j cbor_iter \<Rightarrow> bool" where
  "containers_known api \<longleftrightarrow>
     (\<forall>it. it_type api it = CborArrayType \<or> it_type api it = CborMapType \<longrightarrow> it_is_container api it)"

lemma dump_no_fault:
  assumes "dumpCborRecursive api ss it n = Some r" "containers_known api"
  shows "\<exists>x. r = Inr x"
  using assms
proof (induction rule: dumpCborRecursive.raw_induct [rotated, consumes 1, case_names step])
  case (step rec api ss it n r)
  note IH = step.IH [OF _ step.prems]
  show ?case
  proof (cases "it_at_end api it")
    case False
    show ?thesis
    proof (cases "it_type api it = CborArrayType \<or> it_type api it = CborMapType")
      case True
      then have open_it: "it_is_container api it" using step.prems unfolding containers_known_def by blast
      let ?open = "put_text (if it_type api it = CborArrayType then ''Array['' else ''Map{'') (indent n ss)"
      obtain ret x where enter: "it_enter_container api it = (ret, x)" by fastforce
      show ?thesis
      proof (cases "ret = CborNoError")
        case False
        with True \<open>\<not> it_at_end api it\<close> open_it enter step.hyps show ?thesis by (auto simp: Let_def)
      next
        case ok: True
        then obtain y where y: "rec api ?open x (n + 1) = Some y"
          using True False open_it enter step.hyps by (cases "rec api ?open x (n + 1)") (auto simp: Let_def)
        then obtain ret2 ss2 e where body: "y = Inr (ret2, ss2, e)" using IH [OF y] by fastforce
        obtain ret3 it3 where leave: "it_leave_container api it e = (ret3, it3)" by fastforce
        have "r = Inr (ret2, ss2, it) \<or> r = Inr (ret3, ss2, it3) \<or> (\<exists>ss'. rec api ss' it3 n = Some r)"
          using True False open_it enter ok y body leave step.hyps by (simp add: Let_def del: split_paired_Ex split: if_split_asm) blast+
        then show ?thesis using IH by blast
      qed
    next
      case leaf: False
      with False step.hyps IH show ?thesis
        by (auto simp: Let_def split: if_split_asm prod.split_asm)
    qed
  qed (use step.hyps in auto)
qed

lemma log_line_total:
  assumes "advances api m" "containers_known api"
  shows "\<exists>l. log_line api tag bs = Some (Inr l)"
proof -
  obtain res where res: "dumpCborRecursive api ([], False) (it_parser_init api bs) 0 = Some res"
    using dump_total [OF assms(1)] by blast
  from dump_no_fault [OF this assms(2)] obtain x where "res = Inr x" ..
  with res show ?thesis by (cases x) (simp add: log_line_def cborDump_def)
qed

lemma dispatch_logged_total:
  assumes "advances api m" "containers_known api"
  shows "\<exists>lines. list_all2 (\<lambda>bs l. log_line api ''RXD '' bs = Some (Inr l)) bss lines \<and>
    dispatch_logged api tc z junk bss (p, log) = Some (map_sum id (\<lambda>p. (p, log @ lines)) (dispatch tc z junk bss p))"
proof (induction bss arbitrary: p log)
  case (Cons bs bss)
  obtain l where l: "log_line api ''RXD '' bs = Some (Inr l)"
    using log_line_total [OF assms] by blast
  show ?case
  proof (cases "fromSerialMsg_on tc z junk bs p")
    case (Inl e)
    obtain lines where "list_all2 (\<lambda>bs l. log_line api ''RXD '' bs = Some (Inr l)) bss lines"
      using Cons.IH [of p log] by blast
    with l Inl show ?thesis
      by (intro exI [of _ "l # lines"]) (simp add: fromSerialMsg_logged_def dispatch_Cons)
  next
    case (Inr p1)
    from Cons.IH [of p1 "log @ [l]"] obtain lines where
      "list_all2 (\<lambda>bs l. log_line api ''RXD '' bs = Some (Inr l)) bss lines"
      "dispatch_logged api tc z junk bss (p1, log @ [l]) =
        Some (map_sum id (\<lambda>p. (p, (log @ [l]) @ lines)) (dispatch tc z junk bss p1))" by blast
    with l Inr show ?thesis
      by (intro exI [of _ "l # lines"], cases "dispatch tc z junk bss p1")
        (simp_all add: fromSerialMsg_logged_def dispatch_Cons)
  qed
qed simp

section \<open>Properties\<close>

text \<open>
  C37: Logging what arrives. With a library every successful step of which shortens what is left and that calls arrays and
  maps containers, the dumps of all the frames that a chunk completes return, whatever their bytes
  are: the proxy logs one line for each frame, in order, and otherwise does what it does without the logs.
\<close>

theorem logging_returns:
  assumes "advances api m" and "containers_known api"
  shows "\<exists>lines. serial_incoming_logged api tc z junk clk bs (h, log) =
      Some (map_sum id (\<lambda>h'. (h', log @ lines)) (serial_incoming tc z junk clk bs h)) \<and>
    (\<forall>x. FrameExtractor_on clk bs (bytesToFrame h) = Inr x \<longrightarrow>
      list_all2 (\<lambda>frame l. log_line api ''RXD '' frame = Some (Inr l))
        (emitted (drop (length (outputs (bytesToFrame h))) (outputs x))) lines) \<and>
    (\<exists>line. toSerialMsg_logged api out (u, log) = Some (Inr (toSerialMsg_on out u, log @ [line])))"
proof -
  have sent: "\<exists>line. toSerialMsg_logged api out (u, log) = Some (Inr (toSerialMsg_on out u, log @ [line]))"
    using log_line_total [OF assms, of "''TXD ''" out] by (auto simp: toSerialMsg_logged_def)
  show ?thesis
  proof (cases "FrameExtractor_on clk bs (bytesToFrame h)")
    case (Inl e)
    with sent show ?thesis by (simp add: serial_incoming_logged_def serial_incoming_def)
  next
    case (Inr x)
    let ?bss = "emitted (drop (length (outputs (bytesToFrame h))) (outputs x))"
    obtain lines where "list_all2 (\<lambda>bs l. log_line api ''RXD '' bs = Some (Inr l)) ?bss lines"
      "dispatch_logged api tc z junk ?bss (proxy h, log) =
        Some (map_sum id (\<lambda>p. (p, log @ lines)) (dispatch tc z junk ?bss (proxy h)))"
      using dispatch_logged_total [OF assms] by blast
    with Inr sent show ?thesis
      by (intro conjI exI [of _ lines], cases "dispatch tc z junk ?bss (proxy h)")
        (simp_all add: serial_incoming_logged_def serial_incoming_def)
  qed
qed

lemma wire_containers: "containers_known wire_iter"
  by (auto simp: containers_known_def wire_types_def split: if_split_asm)

lemma logging_returns_witness:
  "\<exists>lines. serial_incoming_logged wire_iter wire numbering_zenoh 0 (\<lambda>_. 5) (ppp_frame [0x9F, 0x41]) (wire_host, []) =
    Some (map_sum id (\<lambda>h'. (h', lines))
      (serial_incoming wire numbering_zenoh 0 (\<lambda>_. 5) (ppp_frame [0x9F, 0x41]) wire_host))"
  using logging_returns [OF wire_advances wire_containers, of wire numbering_zenoh 0 "\<lambda>_. 5" "ppp_frame [0x9F, 0x41]" wire_host "[]"]
  by (simp only: append_Nil) blast

end
