(* ===== verification/Unit_Tests.thy ===== *)
theory Unit_Tests
  imports Message_Roundtrip
begin

text \<open>
  The unit tests of \<open>src/test.cpp\<close> as programs over the codec: a test returns the outcomes of its
  \<open>EXPECT_EQ\<close> lines in order. \<open>func\<close> of the same file returns the lines it prints; \<open>fmt\<close> and
  \<open>show_int\<close> are the library's formats, as in \<open>hexDump\<close> and \<open>Display\<close>.
\<close>

section \<open>The tests\<close>

text \<open>\<open>system/uptime\<close>, \<open>system/*\<close>, \<open>i/am/alive\<close> and \<open>src/esp32/\<close>.\<close>

definition system_star :: bytes where
  "system_star = [0x73, 0x79, 0x73, 0x74, 0x65, 0x6D, 0x2F, 0x2A]"

definition i_am_alive :: bytes where
  "i_am_alive = [0x69, 0x2F, 0x61, 0x6D, 0x2F, 0x61, 0x6C, 0x69, 0x76, 0x65]"

definition src_esp32 :: bytes where
  "src_esp32 = [0x73, 0x72, 0x63, 0x2F, 0x65, 0x73, 0x70, 0x33, 0x32, 0x2F]"

definition test_MsgPublisher :: "('e, 'i) tinycbor \<Rightarrow> 'e \<Rightarrow> bool list outcome" where
  "test_MsgPublisher tc g =
     seq (reflect_MsgPublisher (ser_reflector tc) \<lparr>publisher_id = 2, publisher_topic = uptime_topic\<rparr>
           (CborSerializer_new 1024 g g)) (\<lambda>(_, toCbor).
     seq (toBytes toCbor) (\<lambda>bs.
       Inr [length bs = 18,
         bs = [0x9F, 0x03, 0x02, 0x6D, 0x73, 0x79, 0x73, 0x74, 0x65,
               0x6D, 0x2F, 0x75, 0x70, 0x74, 0x69, 0x6D, 0x65, 0xFF]]))"

text \<open>The identifier of the second message is not initialised: \<open>junk\<close>.\<close>

definition test_MsgSubscriber :: "('e, 'i) tinycbor \<Rightarrow> 'e \<Rightarrow> 'i \<Rightarrow> c_int \<Rightarrow> bool list outcome" where
  "test_MsgSubscriber tc g gi junk =
     (let msgSubscriber = \<lparr>subscriber_id = 3, subscriber_topic = system_star\<rparr> in
      seq (reflect_MsgSubscriber (ser_reflector tc) msgSubscriber (CborSerializer_new 100 g g)) (\<lambda>(msgSubscriber, toCbor).
      seq (toBytes toCbor) (\<lambda>bs.
      seq (reflect_MsgSubscriber (de_reflector tc) \<lparr>subscriber_id = junk, subscriber_topic = []\<rparr>
            (fromBytes bs (CborDeserializer_new 100 gi gi))) (\<lambda>(msgSubscriber2, _).
        Inr [B_SUBSCRIBER = B_SUBSCRIBER, subscriber_id msgSubscriber = subscriber_id msgSubscriber2,
          subscriber_topic msgSubscriber = subscriber_topic msgSubscriber2]))))"

definition test_MsgPublish :: "('e, 'i) tinycbor \<Rightarrow> 'e \<Rightarrow> 'i \<Rightarrow> c_int \<Rightarrow> bool list outcome" where
  "test_MsgPublish tc g gi junk =
     (let msgPublish = \<lparr>publish_id = 3, publish_value = i_am_alive\<rparr> in
      seq (reflect_MsgPublish (ser_reflector tc) msgPublish (CborSerializer_new 100 g g)) (\<lambda>(msgPublish, toCbor).
      seq (toBytes toCbor) (\<lambda>bs.
      seq (reflect_MsgPublish (de_reflector tc) \<lparr>publish_id = junk, publish_value = []\<rparr>
            (fromBytes bs (CborDeserializer_new 100 gi gi))) (\<lambda>(msgPublish2, _).
        Inr [B_PUBLISH = B_PUBLISH, publish_id msgPublish = publish_id msgPublish2,
          publish_value msgPublish = publish_value msgPublish2]))))"

definition test_func :: "('e, 'i) tinycbor \<Rightarrow> (nat \<Rightarrow> string) \<Rightarrow> (c_int \<Rightarrow> string) \<Rightarrow> 'e \<Rightarrow> string \<Rightarrow> string list outcome" where
  "test_func tc fmt show_int g argv0 =
     (let toCbor = CborSerializer_new 1024 g g;
          msgPublish = \<lparr>publish_id = 1, publish_value = [1, 2, 3]\<rparr>;
          msgPublisher = \<lparr>publisher_id = 2, publisher_topic = uptime_topic\<rparr>;
          msgSubscriber = \<lparr>subscriber_id = 3, subscriber_topic = system_star\<rparr>;
          msgConnect = \<lparr>clientId = src_esp32\<rparr>
      in seq (reflect_MsgConnect (ser_reflector tc) msgConnect toCbor) (\<lambda>(msgConnect, toCbor).
         seq (toBytes toCbor) (\<lambda>b1.
         seq (reflect_MsgPublisher (ser_reflector tc) msgPublisher toCbor) (\<lambda>(msgPublisher, toCbor).
         seq (toBytes toCbor) (\<lambda>b2.
         seq (reflect_MsgSubscriber (ser_reflector tc) msgSubscriber toCbor) (\<lambda>(msgSubscriber, toCbor).
         seq (toBytes toCbor) (\<lambda>b3.
         seq (reflect_MsgPublish (ser_reflector tc) msgPublish toCbor) (\<lambda>(msgPublish, toCbor).
         seq (toBytes toCbor) (\<lambda>b4.
         seq (reflect_MsgPublish (Display_reflector show_int fmt) msgPublish []) (\<lambda>(_, toDisplay).
           Inr [''Start '' @ argv0, '' msgConnect '' @ hexDump fmt b1 '' '', '' msgPublisher '' @ hexDump fmt b2 '' '',
             '' msgSubscriber '' @ hexDump fmt b3 '' '', '' msgPublish '' @ hexDump fmt b4 '' '',
             '' msgPublish '' @ Display_toString toDisplay]))))))))))"

section \<open>They pass\<close>

lemma test_MsgPublisher_passes: "test_MsgPublisher wire g = Inr [True, True]"
proof -
  have "CborSerializer_new 1024 g g = CborSerializer_new 1024 g g\<lparr>ser_err := 0, ser_out := None\<rparr>"
    by (simp add: CborSerializer_new_def)
  with publisher_test_vector [where r = g and e = g and x = 0 and out = None] show ?thesis
    by (auto simp: test_MsgPublisher_def simp del: CborSerializer.update_convs)
qed

lemma test_round_trips_pass:
  assumes "cbor_channel tc open_array at item_size 100 100"
    and "message_bytes item_size (items_MsgSubscriber \<lparr>subscriber_id = 3, subscriber_topic = system_star\<rparr>) \<le> 100"
    and "message_bytes item_size (items_MsgPublish \<lparr>publish_id = 3, publish_value = i_am_alive\<rparr>) \<le> 100"
  shows "test_MsgSubscriber tc g gi junk = Inr [True, True, True]" "test_MsgPublish tc g gi junk = Inr [True, True, True]"
proof -
  have cap: "ser_capacity (CborSerializer_new 100 g g) = 100" "de_capacity (CborDeserializer_new 100 gi gi) = 100"
    by (simp_all add: CborSerializer_new_def CborDeserializer_new_def)
  have star: "c_string system_star = system_star" by (simp add: system_star_def)
  from cbor_channel.roundtrip_subscriber [OF assms(1,2) cap, of "\<lparr>subscriber_id = junk, subscriber_topic = []\<rparr>"]
  show "test_MsgSubscriber tc g gi junk = Inr [True, True, True]"
    by (auto simp: test_MsgSubscriber_def star)
  from cbor_channel.roundtrip_publish [OF assms(1,3) cap, of "\<lparr>publish_id = junk, publish_value = []\<rparr>"]
  show "test_MsgPublish tc g gi junk = Inr [True, True, True]"
    by (auto simp: test_MsgPublish_def)
qed

text \<open>\<open>func\<close> prints the bytes of the four messages and the display of the last.\<close>

lemma test_func_prints:
  assumes "cbor_channel tc open_array at item_size 1024 1024"
    and "message_bytes item_size (items_MsgConnect \<lparr>clientId = src_esp32\<rparr>) \<le> 1024"
    and "message_bytes item_size (items_MsgPublisher \<lparr>publisher_id = 2, publisher_topic = uptime_topic\<rparr>) \<le> 1024"
    and "message_bytes item_size (items_MsgSubscriber \<lparr>subscriber_id = 3, subscriber_topic = system_star\<rparr>) \<le> 1024"
    and "message_bytes item_size (items_MsgPublish \<lparr>publish_id = 1, publish_value = [1, 2, 3]\<rparr>) \<le> 1024"
  shows "\<exists>b1 b2 b3 b4. test_func tc fmt show_int g argv0 = Inr [''Start '' @ argv0,
      '' msgConnect '' @ hexDump fmt b1 '' '', '' msgPublisher '' @ hexDump fmt b2 '' '',
      '' msgSubscriber '' @ hexDump fmt b3 '' '', '' msgPublish '' @ hexDump fmt b4 '' '',
      '' msgPublish msgType:'' @ show_int 4 @ '',id:'' @ show_int 1 @ '',value:'' @ hexDump fmt [1, 2, 3] '' '' @ '','' @ [CHR 0x00]] \<and>
    cbor_encodes tc at 1024 (items_MsgConnect \<lparr>clientId = src_esp32\<rparr>) b1 \<and>
    cbor_encodes tc at 1024 (items_MsgPublisher \<lparr>publisher_id = 2, publisher_topic = uptime_topic\<rparr>) b2 \<and>
    cbor_encodes tc at 1024 (items_MsgSubscriber \<lparr>subscriber_id = 3, subscriber_topic = system_star\<rparr>) b3 \<and>
    cbor_encodes tc at 1024 (items_MsgPublish \<lparr>publish_id = 1, publish_value = [1, 2, 3]\<rparr>) b4"
proof -
  note ch = assms(1)
  from cbor_channel.written_connect [OF ch assms(2), of "CborSerializer_new 1024 g g"] obtain s1 b1 where
    1: "reflect_MsgConnect (ser_reflector tc) \<lparr>clientId = src_esp32\<rparr> (CborSerializer_new 1024 g g) =
      Inr (\<lparr>clientId = src_esp32\<rparr>, s1)" "ser_capacity s1 = 1024" "toBytes s1 = Inr b1"
      "cbor_encodes tc at 1024 (items_MsgConnect \<lparr>clientId = src_esp32\<rparr>) b1"
    by (auto simp: CborSerializer_new_def)
  from cbor_channel.written_publisher [OF ch assms(3) 1(2)] obtain s2 b2 where
    2: "reflect_MsgPublisher (ser_reflector tc) \<lparr>publisher_id = 2, publisher_topic = uptime_topic\<rparr> s1 =
      Inr (\<lparr>publisher_id = 2, publisher_topic = uptime_topic\<rparr>, s2)" "ser_capacity s2 = 1024" "toBytes s2 = Inr b2"
      "cbor_encodes tc at 1024 (items_MsgPublisher \<lparr>publisher_id = 2, publisher_topic = uptime_topic\<rparr>) b2" by blast
  from cbor_channel.written_subscriber [OF ch assms(4) 2(2)] obtain s3 b3 where
    3: "reflect_MsgSubscriber (ser_reflector tc) \<lparr>subscriber_id = 3, subscriber_topic = system_star\<rparr> s2 =
      Inr (\<lparr>subscriber_id = 3, subscriber_topic = system_star\<rparr>, s3)" "ser_capacity s3 = 1024" "toBytes s3 = Inr b3"
      "cbor_encodes tc at 1024 (items_MsgSubscriber \<lparr>subscriber_id = 3, subscriber_topic = system_star\<rparr>) b3" by blast
  from cbor_channel.written_publish [OF ch assms(5) 3(2)] obtain s4 b4 where
    4: "reflect_MsgPublish (ser_reflector tc) \<lparr>publish_id = 1, publish_value = [1, 2, 3]\<rparr> s3 =
      Inr (\<lparr>publish_id = 1, publish_value = [1, 2, 3]\<rparr>, s4)" "toBytes s4 = Inr b4"
      "cbor_encodes tc at 1024 (items_MsgPublish \<lparr>publish_id = 1, publish_value = [1, 2, 3]\<rparr>) b4" by blast
  have "reflect_MsgPublish (Display_reflector show_int fmt) \<lparr>publish_id = 1, publish_value = [1, 2, 3]\<rparr> [] =
      Inr (\<lparr>publish_id = 1, publish_value = [1, 2, 3]\<rparr>,
        ''msgType:'' @ show_int 4 @ '',id:'' @ show_int 1 @ '',value:'' @ hexDump fmt [1, 2, 3] '' '' @ '','')"
    by (simp add: reflect_MsgPublish_def Display_reflector_def B_PUBLISH_def)
  then have "test_func tc fmt show_int g argv0 = Inr [''Start '' @ argv0,
      '' msgConnect '' @ hexDump fmt b1 '' '', '' msgPublisher '' @ hexDump fmt b2 '' '',
      '' msgSubscriber '' @ hexDump fmt b3 '' '', '' msgPublish '' @ hexDump fmt b4 '' '',
      '' msgPublish msgType:'' @ show_int 4 @ '',id:'' @ show_int 1 @ '',value:'' @ hexDump fmt [1, 2, 3] '' '' @ '','' @ [CHR 0x00]]"
    using 1(1,3) 2(1,3) 3(1,3) 4(1,2) by (simp add: test_func_def Display_toString_def)
  with 1(4) 2(4) 3(4) 4(3) show ?thesis by blast
qed

lemma wire_channel100: "cbor_channel wire wire_open wire_at wire_size 100 100"
  by (simp add: cbor_channel_def cbor_channel_axioms_def wire.tinycbor_laws_axioms)

text \<open>
  The unit tests. With every codec that behaves as tinycbor documents and in which the two messages
  take at most 100 bytes, the round-trip tests meet all their expectations, whatever the memory
  held; with the encoding of RFC 8949 the test of the publisher's bytes meets its own.
\<close>

theorem unit_tests_pass:
  assumes "cbor_channel tc open_array at item_size 100 100"
    and "message_bytes item_size (items_MsgSubscriber \<lparr>subscriber_id = 3, subscriber_topic = system_star\<rparr>) \<le> 100"
    and "message_bytes item_size (items_MsgPublish \<lparr>publish_id = 3, publish_value = i_am_alive\<rparr>) \<le> 100"
  shows "test_MsgPublisher wire root = Inr [True, True] \<and>
    test_MsgSubscriber tc g gi junk = Inr [True, True, True] \<and> test_MsgPublish tc g gi junk = Inr [True, True, True]"
  using test_MsgPublisher_passes test_round_trips_pass [OF assms] by blast

lemma unit_tests_pass_witness:
  "test_MsgPublisher wire (0, [], False) = Inr [True, True] \<and>
    test_MsgSubscriber wire (0, [], False) [] 99 = Inr [True, True, True] \<and>
    test_MsgPublish wire (0, [], False) [] 99 = Inr [True, True, True]"
  by (rule unit_tests_pass [OF wire_channel100]) (simp_all add: wire_size_eval system_star_def i_am_alive_def)

end
