(* ===== verification/Publisher_Examples.thy ===== *)
theory Publisher_Examples
  imports Broker_Protocol Zenoh_Api
begin

text \<open>
  The two example programs that publish in a loop without end: \<open>src_client/serial_client.cpp\<close>, with
  the zenoh-pico library over the serial line, and \<open>src-pico/zn_pubsub.c\<close>. The library's calls are
  recorded and its answers given by functions of the calls so far, as in \<open>Zenoh_Api\<close>. A loop that
  does not end is the state after every number of its rounds.
\<close>

section \<open>The library\<close>

datatype pub_call =
    InsertPeer bytes
  | Open
  | StartReadTask u64
  | StartLeaseTask u64
  | DeclareResource u64 bytes
  | DeclarePublisher u64 u64
  | SleepSeconds u32
  | WriteData u64 u64 bytes
  | UndeclarePublisher u64

record pub_library =
  lib_open :: "pub_call list \<Rightarrow> u64"
  lib_resource :: "pub_call list \<Rightarrow> u64"
  lib_publisher :: "pub_call list \<Rightarrow> u64"

definition lib_ask :: "(pub_call list \<Rightarrow> u64) \<Rightarrow> pub_call \<Rightarrow> pub_call list \<Rightarrow> u64 \<times> pub_call list" where
  "lib_ask answer c cs = (answer (cs @ [c]), cs @ [c])"

section \<open>The line\<close>

text \<open>\<open>sprintf(buf, "[%4d] %s", idx, value)\<close> with the \<open>buf\<close> of 256 bytes.\<close>

fun decimal :: "nat \<Rightarrow> bytes" where
  "decimal n = (if n < 10 then [0x30 + of_nat n] else decimal (n div 10) @ [0x30 + of_nat (n mod 10)])"

declare decimal.simps [simp del]

definition pad4 :: "bytes \<Rightarrow> bytes" where
  "pad4 s = replicate (4 - length s) 0x20 @ s"

definition example_line :: "nat \<Rightarrow> bytes \<Rightarrow> bytes" where
  "example_line idx value = [0x5B] @ pad4 (decimal idx) @ [0x5D, 0x20] @ c_string value"

definition sprintf_line :: "nat \<Rightarrow> bytes \<Rightarrow> bytes outcome" where
  "sprintf_line idx value =
     (if length (example_line idx value) + 1 \<le> 256 then Inr (example_line idx value) else Inl OutOfBounds)"

text \<open>A state of a program: it has left by \<open>exit\<close>, or it is in its loop.\<close>

record publishing =
  ex_session :: u64
  ex_rid :: u64
  ex_pub :: u64
  ex_idx :: nat
  ex_calls :: "pub_call list"

datatype example_state = Exited c_int "pub_call list" | Publishing publishing

fun example_calls :: "example_state \<Rightarrow> pub_call list" where
  "example_calls (Exited rc cs) = cs"
| "example_calls (Publishing p) = ex_calls p"

definition arg :: "nat \<Rightarrow> bytes \<Rightarrow> bytes list \<Rightarrow> bytes" where
  "arg n preset argv = (if n < length argv then argv ! n else preset)"

definition with_peer :: "bytes list \<Rightarrow> pub_call list" where
  "with_peer argv = (if 3 < length argv then [InsertPeer (argv ! 3)] else [])"

text \<open>\<open>sprintf\<close> and \<open>zn_write\<close>; \<open>strlen\<close> of the buffer is the length of the line.\<close>

definition write_line :: "bytes \<Rightarrow> publishing \<Rightarrow> publishing outcome" where
  "write_line value p =
     seq (sprintf_line (ex_idx p) value) (\<lambda>buf.
       Inr (p\<lparr>ex_calls := ex_calls p @ [WriteData (ex_session p) (ex_rid p) buf], ex_idx := ex_idx p + 1\<rparr>))"

section \<open>\<open>serial_client.cpp\<close>\<close>

text \<open>\<open>/demo/example/zenoh-pico-pub\<close> and \<open>Pub from pico!\<close>.\<close>

definition pico_uri :: bytes where
  "pico_uri = [0x2F, 0x64, 0x65, 0x6D, 0x6F, 0x2F, 0x65, 0x78, 0x61, 0x6D, 0x70, 0x6C, 0x65, 0x2F,
     0x7A, 0x65, 0x6E, 0x6F, 0x68, 0x2D, 0x70, 0x69, 0x63, 0x6F, 0x2D, 0x70, 0x75, 0x62]"

definition pico_value :: bytes where
  "pico_value = [0x50, 0x75, 0x62, 0x20, 0x66, 0x72, 0x6F, 0x6D, 0x20, 0x70, 0x69, 0x63, 0x6F, 0x21]"

definition client_start :: "pub_library \<Rightarrow> bytes list \<Rightarrow> example_state" where
  "client_start lib argv =
     (let uri = arg 1 pico_uri argv;
          (s, cs) = lib_ask (lib_open lib) Open (with_peer argv)
      in if s = 0 then Exited (- 1) cs
         else let cs = cs @ [StartReadTask s, StartLeaseTask s];
                  (rid, cs) = lib_ask (lib_resource lib) (DeclareResource s uri) cs;
                  (pub, cs) = lib_ask (lib_publisher lib) (DeclarePublisher s rid) cs
              in if pub = 0 then Exited (- 1) cs
                 else Publishing \<lparr>ex_session = s, ex_rid = rid, ex_pub = pub, ex_idx = 0, ex_calls = cs\<rparr>)"

text \<open>One round of the loop.\<close>

fun client_round :: "bytes list \<Rightarrow> example_state \<Rightarrow> example_state outcome" where
  "client_round argv (Exited rc cs) = Inr (Exited rc cs)"
| "client_round argv (Publishing p) =
     seq (write_line (arg 2 pico_value argv) (p\<lparr>ex_calls := ex_calls p @ [SleepSeconds 1]\<rparr>)) (\<lambda>p. Inr (Publishing p))"

fun rounds :: "('s \<Rightarrow> 's outcome) \<Rightarrow> nat \<Rightarrow> 's \<Rightarrow> 's outcome" where
  "rounds f 0 s = Inr s"
| "rounds f (Suc n) s = seq (rounds f n s) f"

definition serial_client :: "pub_library \<Rightarrow> bytes list \<Rightarrow> nat \<Rightarrow> example_state outcome" where
  "serial_client lib argv n = rounds (client_round argv) n (client_start lib argv)"

section \<open>\<open>zn_pubsub.c\<close>\<close>

text \<open>\<open>/demo/example/zenoh-c-pub\<close> and \<open>Pub from C!\<close>.\<close>

definition c_uri :: bytes where
  "c_uri = [0x2F, 0x64, 0x65, 0x6D, 0x6F, 0x2F, 0x65, 0x78, 0x61, 0x6D, 0x70, 0x6C, 0x65, 0x2F,
     0x7A, 0x65, 0x6E, 0x6F, 0x68, 0x2D, 0x63, 0x2D, 0x70, 0x75, 0x62]"

definition c_value :: bytes where
  "c_value = [0x50, 0x75, 0x62, 0x20, 0x66, 0x72, 0x6F, 0x6D, 0x20, 0x43, 0x21]"

definition pubsub_start :: "pub_library \<Rightarrow> bytes list \<Rightarrow> example_state" where
  "pubsub_start lib argv =
     (let (s, cs) = lib_ask (lib_open lib) Open (with_peer argv)
      in if s = 0 then Exited (- 1) cs
         else Publishing \<lparr>ex_session = s, ex_rid = 0, ex_pub = 0, ex_idx = 0, ex_calls = cs\<rparr>)"

text \<open>One round of the \<open>while\<close>: both declarations, two lines, and the publisher undeclared.\<close>

fun pubsub_round :: "pub_library \<Rightarrow> bytes list \<Rightarrow> example_state \<Rightarrow> example_state outcome" where
  "pubsub_round lib argv (Exited rc cs) = Inr (Exited rc cs)"
| "pubsub_round lib argv (Publishing p) =
     (let (rid, cs) = lib_ask (lib_resource lib) (DeclareResource (ex_session p) (arg 1 c_uri argv)) (ex_calls p);
          (pub, cs) = lib_ask (lib_publisher lib) (DeclarePublisher (ex_session p) rid) cs
      in if pub = 0 then Inr (Exited (- 1) cs)
         else seq (rounds (write_line (arg 2 c_value argv)) 2
                (p\<lparr>ex_rid := rid, ex_pub := pub, ex_idx := 0, ex_calls := cs\<rparr>)) (\<lambda>p.
              Inr (Publishing (p\<lparr>ex_calls := ex_calls p @ [UndeclarePublisher pub]\<rparr>))))"

definition zn_pubsub :: "pub_library \<Rightarrow> bytes list \<Rightarrow> nat \<Rightarrow> example_state outcome" where
  "zn_pubsub lib argv n = rounds (pubsub_round lib argv) n (pubsub_start lib argv)"

section \<open>Lengths\<close>

lemma length_decimal: "length (decimal n) \<le> Suc k \<longleftrightarrow> n < 10 ^ Suc k"
proof (induction n arbitrary: k rule: decimal.induct)
  case (1 n)
  show ?case
  proof (cases "n < 10")
    case True
    moreover have "(1 :: nat) \<le> 10 ^ k" by simp
    ultimately have "n < 10 ^ Suc k" unfolding power_Suc by linarith
    with True show ?thesis by (simp add: decimal.simps [of n])
  next
    case False
    then show ?thesis
    proof (cases k)
      case 0
      with False show ?thesis by (auto simp: decimal.simps [of n] decimal.simps [of "n div 10"])
    next
      case (Suc j)
      have "n div 10 < 10 ^ Suc j \<longleftrightarrow> n < 10 ^ Suc k"
        using Suc by (simp add: div_less_iff_less_mult mult.commute)
      with False "1.IH" [of j] Suc show ?thesis by (simp add: decimal.simps [of n])
    qed
  qed
qed

lemma length_example_line:
  "length (example_line idx value) = 3 + max 4 (length (decimal idx)) + length (c_string value)"
  by (simp add: example_line_def pad4_def)

text \<open>A value of at most 247 bytes fits for a hundred thousand rounds, one of 248 for ten thousand.\<close>

lemma sprintf_line_fits:
  "idx < 10 ^ Suc (Suc (Suc (Suc k))) \<Longrightarrow> length (c_string value) \<le> 248 - k \<Longrightarrow> k \<le> 248 \<Longrightarrow>
    sprintf_line idx value = Inr (example_line idx value)"
  using length_decimal [of idx "Suc (Suc (Suc k))"] by (simp add: sprintf_line_def length_example_line)

lemma sprintf_line_overflows:
  "10 ^ Suc (Suc (Suc (Suc k))) \<le> idx \<Longrightarrow> 248 - k \<le> length (c_string value) \<Longrightarrow> k \<le> 248 \<Longrightarrow>
    sprintf_line idx value = Inl OutOfBounds"
  using length_decimal [of idx "Suc (Suc (Suc k))"] by (simp add: sprintf_line_def length_example_line not_le [symmetric])


section \<open>Rounds\<close>

lemma rounds_fault: "rounds f n s = Inl e \<Longrightarrow> rounds f (n + k) s = Inl e"
  by (induction k) simp_all

lemma rounds_monotone: "rounds f n s = Inl e \<Longrightarrow> n \<le> m \<Longrightarrow> rounds f m s = Inl e"
  using rounds_fault [of f n s e "m - n"] by simp

lemma rounds_2: "rounds f 2 s = seq (f s) f"
  by (simp add: numeral_2_eq_2)

text \<open>The calls of the first \<open>n\<close> rounds of the client.\<close>

definition client_writes :: "u64 \<Rightarrow> u64 \<Rightarrow> bytes \<Rightarrow> nat \<Rightarrow> pub_call list" where
  "client_writes s rid value n =
     concat (map (\<lambda>i. [SleepSeconds 1, WriteData s rid (example_line i value)]) [0..<n])"

lemma client_rounds:
  assumes "ex_idx p = 0" "\<forall>i<n. sprintf_line i (arg 2 pico_value argv) = Inr (example_line i (arg 2 pico_value argv))"
  shows "rounds (client_round argv) n (Publishing p) = Inr (Publishing (p\<lparr>ex_idx := n,
    ex_calls := ex_calls p @ client_writes (ex_session p) (ex_rid p) (arg 2 pico_value argv) n\<rparr>))"
  using assms
proof (induction n)
  case 0
  then show ?case by (simp add: client_writes_def)
next
  case (Suc n)
  then show ?case by (simp add: write_line_def client_writes_def)
qed

lemma client_rounds_fault:
  assumes "ex_idx p = 0" "i < n" "sprintf_line i (arg 2 pico_value argv) = Inl OutOfBounds"
    and "\<forall>j<i. sprintf_line j (arg 2 pico_value argv) = Inr (example_line j (arg 2 pico_value argv))"
  shows "rounds (client_round argv) n (Publishing p) = Inl OutOfBounds"
proof -
  have "rounds (client_round argv) (Suc i) (Publishing p) = Inl OutOfBounds"
    using client_rounds [OF assms(1,4)] assms(3) by (simp add: write_line_def)
  then show ?thesis
    by (rule rounds_monotone) (use assms(2) in simp)
qed

lemma sprintf_line_cases: "sprintf_line i value = Inr (example_line i value) \<or> sprintf_line i value = Inl OutOfBounds"
  by (simp add: sprintf_line_def)

lemma sprintf_line_longer:
  assumes "sprintf_line i value = Inl OutOfBounds" "i \<le> j"
  shows "sprintf_line j value = Inl OutOfBounds"
proof -
  have "length (decimal i) \<le> length (decimal j)"
    using length_decimal [of j "length (decimal j) - 1"] length_decimal [of i "length (decimal j) - 1"] assms(2)
    by (cases "length (decimal j)") (simp_all add: decimal.simps [of j] split: if_splits)
  with assms(1) show ?thesis
    by (auto simp: sprintf_line_def length_example_line max_def split: if_splits)
qed

text \<open>
  C34: The publishing client. Once it has its session and its publisher, the client writes in its i-th
  round, after a second, the line of the number i and the value, as long as every line so far and its zero
  byte fit the 256 bytes of \<open>buf\<close>; the first that does not is written past the end of \<open>buf\<close>.
\<close>

theorem serial_client_writes:
  assumes "client_start lib argv = Publishing p" and "n \<le> 2 ^ 31"
  shows "serial_client lib argv n =
    (if n = 0 \<or> max 4 (length (decimal (n - 1))) + length (c_string (arg 2 pico_value argv)) \<le> 252
     then Inr (Publishing (p\<lparr>ex_idx := n,
       ex_calls := ex_calls p @ client_writes (ex_session p) (ex_rid p) (arg 2 pico_value argv) n\<rparr>))
     else Inl OutOfBounds)"
proof -
  let ?v = "arg 2 pico_value argv"
  have p: "ex_idx p = 0"
    using assms(1) by (auto simp: client_start_def Let_def split: prod.splits if_splits)
  have fit: "sprintf_line i ?v = Inr (example_line i ?v) \<longleftrightarrow> max 4 (length (decimal i)) + length (c_string ?v) \<le> 252" for i
    by (simp add: sprintf_line_def length_example_line max_def)
  show ?thesis
  proof (cases "n = 0 \<or> max 4 (length (decimal (n - 1))) + length (c_string ?v) \<le> 252")
    case True
    then have "\<forall>i<n. sprintf_line i ?v = Inr (example_line i ?v)"
      using sprintf_line_longer [of _ ?v "n - 1"] sprintf_line_cases [of _ ?v] fit [of "n - 1"]
      by (metis Inl_Inr_False less_Suc_eq_le less_nat_zero_code Suc_diff_1 not_gr_zero)
    from client_rounds [OF p this] True assms(1) show ?thesis
      by (simp add: serial_client_def)
  next
    case False
    then have bad: "sprintf_line (n - 1) ?v = Inl OutOfBounds" "0 < n"
      using fit [of "n - 1"] sprintf_line_cases [of "n - 1" ?v] by auto
    define i where "i = (LEAST i. sprintf_line i ?v = Inl OutOfBounds)"
    have "sprintf_line i ?v = Inl OutOfBounds" "i \<le> n - 1"
      unfolding i_def using bad(1) by (rule LeastI, rule Least_le)
    moreover have "\<forall>j<i. sprintf_line j ?v = Inr (example_line j ?v)"
      using sprintf_line_cases not_less_Least unfolding i_def by blast
    ultimately have "rounds (client_round argv) n (Publishing p) = Inl OutOfBounds"
      using p bad(2) by (intro client_rounds_fault [of p i]) simp_all
    with False assms(1) show ?thesis
      by (simp add: serial_client_def)
  qed
qed

definition three_answers :: pub_library where
  "three_answers = \<lparr>lib_open = \<lambda>_. 1, lib_resource = \<lambda>_. 2, lib_publisher = \<lambda>_. 3\<rparr>"

lemma serial_client_writes_witness:
  "serial_client three_answers [[], [], replicate 248 0x41] 10001 = Inl OutOfBounds"
proof -
  let ?argv = "[[], [], replicate 248 0x41] :: bytes list"
  let ?p = "\<lparr>ex_session = 1, ex_rid = 2, ex_pub = 3, ex_idx = 0,
    ex_calls = [Open, StartReadTask 1, StartLeaseTask 1, DeclareResource 1 [], DeclarePublisher 1 2]\<rparr>"
  have start: "client_start three_answers ?argv = Publishing ?p"
    by (simp add: client_start_def three_answers_def lib_ask_def with_peer_def arg_def)
  have "\<not> length (decimal 10000) \<le> 4"
    using length_decimal [of 10000 3] by simp
  moreover have "c_string (replicate 248 0x41) = replicate 248 0x41"
    by (rule c_string_no_nul) simp
  ultimately have "\<not> max 4 (length (decimal (10001 - 1))) + length (c_string (arg 2 pico_value ?argv)) \<le> 252"
    by (simp add: arg_def)
  with serial_client_writes [OF start, of 10001] show ?thesis by simp
qed

section \<open>What \<open>zn_pubsub.c\<close> leaves behind\<close>

fun declares_publisher :: "pub_call \<Rightarrow> bool" where
  "declares_publisher (DeclarePublisher _ _) = True"
| "declares_publisher _ = False"

fun undeclared_handles :: "pub_call list \<Rightarrow> u64 list" where
  "undeclared_handles [] = []"
| "undeclared_handles (UndeclarePublisher h # cs) = h # undeclared_handles cs"
| "undeclared_handles (_ # cs) = undeclared_handles cs"

fun declares_resource :: "pub_call \<Rightarrow> bool" where
  "declares_resource (DeclareResource _ _) = True"
| "declares_resource _ = False"

definition tidy :: "pub_library \<Rightarrow> pub_call list \<Rightarrow> bool" where
  "tidy lib cs \<longleftrightarrow> filter (\<lambda>h. h \<noteq> 0) (answers (lib_publisher lib) declares_publisher cs) = undeclared_handles cs"

lemma undeclared_handles_append [simp]: "undeclared_handles (cs @ ds) = undeclared_handles cs @ undeclared_handles ds"
  by (induction cs rule: undeclared_handles.induct) simp_all

text \<open>The two lines of a round.\<close>

lemma write_lines:
  assumes "rounds (write_line value) n p = Inr p'"
  shows "\<exists>ws. p' = p\<lparr>ex_idx := ex_idx p + n, ex_calls := ex_calls p @ ws\<rparr> \<and>
    list_all (\<lambda>c. \<not> declares_publisher c \<and> \<not> declares_resource c) ws \<and> undeclared_handles ws = []"
  using assms
proof (induction n arbitrary: p')
  case 0
  then show ?case by (intro exI [of _ "[]"]) simp
next
  case (Suc n)
  then obtain p1 where p1: "rounds (write_line value) n p = Inr p1" "write_line value p1 = Inr p'"
    by (auto elim: seq_InrE)
  from Suc.IH [OF p1(1)] obtain ws where
    ws: "p1 = p\<lparr>ex_idx := ex_idx p + n, ex_calls := ex_calls p @ ws\<rparr>"
      "list_all (\<lambda>c. \<not> declares_publisher c \<and> \<not> declares_resource c) ws" "undeclared_handles ws = []" by blast
  from p1(2) obtain buf where "p' = p1\<lparr>ex_calls := ex_calls p1 @ [WriteData (ex_session p1) (ex_rid p1) buf], ex_idx := ex_idx p1 + 1\<rparr>"
    by (auto simp: write_line_def elim!: seq_InrE)
  with ws show ?case
    by (intro exI [of _ "ws @ [WriteData (ex_session p1) (ex_rid p1) buf]"]) simp
qed

lemma pubsub_round_tidy:
  assumes "pubsub_round lib argv st = Inr st'" "tidy lib (example_calls st)"
  shows "tidy lib (example_calls st')"
proof (cases st)
  case (Publishing p)
  let ?cs = "ex_calls p @ [DeclareResource (ex_session p) (arg 1 c_uri argv)]"
  let ?rid = "lib_resource lib ?cs"
  let ?ds = "?cs @ [DeclarePublisher (ex_session p) ?rid]"
  let ?pub = "lib_publisher lib ?ds"
  have res: "tidy lib ?cs"
    using assms(2) Publishing by (simp add: tidy_def)
  show ?thesis
  proof (cases "?pub = 0")
    case True
    with assms(1) Publishing have "example_calls st' = ?ds" by (auto simp: lib_ask_def Let_def)
    moreover have "tidy lib ?ds"
      using res True answers_snoc [of "lib_publisher lib" declares_publisher ?cs "DeclarePublisher (ex_session p) ?rid"]
      by (simp add: tidy_def del: append_assoc)
    ultimately show ?thesis by simp
  next
    case False
    with assms(1) Publishing obtain p' where p': "rounds (write_line (arg 2 c_value argv)) 2
        (p\<lparr>ex_rid := ?rid, ex_pub := ?pub, ex_idx := 0, ex_calls := ?ds\<rparr>) = Inr p'"
      "example_calls st' = ex_calls p' @ [UndeclarePublisher ?pub]"
      by (auto simp: lib_ask_def Let_def elim!: seq_InrE simp del: rounds.simps)
    from write_lines [OF p'(1)] obtain ws where
      ws: "ex_calls p' = ?ds @ ws" "list_all (\<lambda>c. \<not> declares_publisher c) ws" "undeclared_handles ws = []"
      by (auto simp: list_all_iff)
    have "answers (lib_publisher lib) declares_publisher (example_calls st') =
        answers (lib_publisher lib) declares_publisher ?cs @ [?pub]"
      unfolding p'(2) ws(1) using ws(2)
      by (simp add: answers_append_none answers_snoc del: append_assoc)
    then show ?thesis
      using res False ws(3) by (simp add: tidy_def p'(2) ws(1))
  qed
qed (use assms in simp)

text \<open>Every round declares its resource anew.\<close>

lemma pubsub_round_resource:
  assumes "pubsub_round lib argv st = Inr (Publishing p')"
  shows "\<exists>p. st = Publishing p \<and>
    length (filter declares_resource (ex_calls p')) = Suc (length (filter declares_resource (ex_calls p)))"
proof (cases st)
  case (Publishing p)
  with assms obtain rid pub p1 cs where p1: "rounds (write_line (arg 2 c_value argv)) 2
      (p\<lparr>ex_rid := rid, ex_pub := pub, ex_idx := 0, ex_calls := cs\<rparr>) = Inr p1"
    "cs = ex_calls p @ [DeclareResource (ex_session p) (arg 1 c_uri argv), DeclarePublisher (ex_session p) rid]"
    "ex_calls p' = ex_calls p1 @ [UndeclarePublisher pub]"
    by (auto simp: lib_ask_def Let_def elim!: seq_InrE simp del: rounds.simps split: if_splits)
  from write_lines [OF p1(1)] obtain ws where
    "ex_calls p1 = cs @ ws" "list_all (\<lambda>c. \<not> declares_resource c) ws" by (auto simp: list_all_iff)
  moreover from this(2) have "filter declares_resource ws = []"
    by (simp add: filter_empty_conv list_all_iff)
  ultimately show ?thesis
    using p1(2,3) Publishing by simp
qed (use assms in simp)

lemma pubsub_start_tidy: "tidy lib (example_calls (pubsub_start lib argv))"
    "pubsub_start lib argv = Publishing p \<Longrightarrow> filter declares_resource (ex_calls p) = []"
  by (auto simp: tidy_def pubsub_start_def with_peer_def lib_ask_def Let_def answers_def split: if_splits)

text \<open>
  The example of the C library. After any number of rounds, every publisher that zenoh declared has
  been undeclared, in the order of their declaration and each once, also when the last declaration
  failed and the program left; of the resources, one is declared in every round and none undeclared.
\<close>

theorem pubsub_undeclares_publishers:
  assumes "zn_pubsub lib argv n = Inr st"
  shows "filter (\<lambda>h. h \<noteq> 0) (answers (lib_publisher lib) declares_publisher (example_calls st)) =
      undeclared_handles (example_calls st) \<and>
    (\<forall>p. st = Publishing p \<longrightarrow> length (filter declares_resource (ex_calls p)) = n)"
proof -
  have "tidy lib (example_calls st) \<and> (\<forall>p. st = Publishing p \<longrightarrow> length (filter declares_resource (ex_calls p)) = n)"
    using assms unfolding zn_pubsub_def
  proof (induction n arbitrary: st)
    case 0
    then show ?case using pubsub_start_tidy [of lib argv] by auto
  next
    case (Suc n)
    then obtain st1 where st1: "rounds (pubsub_round lib argv) n (pubsub_start lib argv) = Inr st1"
      "pubsub_round lib argv st1 = Inr st" by (auto elim: seq_InrE)
    with Suc.IH [OF st1(1)] pubsub_round_tidy [OF st1(2)] pubsub_round_resource [of lib argv st1] show ?case by fastforce
  qed
  then show ?thesis by (simp add: tidy_def)
qed

lemma pubsub_undeclares_publishers_witness:
  "\<exists>st. zn_pubsub three_answers [] 2 = Inr st \<and> undeclared_handles (example_calls st) = [3, 3] \<and>
    filter (\<lambda>h. h \<noteq> 0) (answers (lib_publisher three_answers) declares_publisher (example_calls st)) = [3, 3]"
proof -
  have "c_string c_value = c_value" by (simp add: c_value_def)
  then have fits: "sprintf_line i c_value = Inr (example_line i c_value)" if "i < 10" for i
    using that by (simp add: sprintf_line_def length_example_line decimal.simps c_value_def)
  have "\<exists>st. zn_pubsub three_answers [] 2 = Inr st \<and> undeclared_handles (example_calls st) = [3, 3]"
    using fits by (simp add: zn_pubsub_def pubsub_start_def three_answers_def lib_ask_def with_peer_def arg_def rounds_2
        write_line_def Let_def)
  with pubsub_undeclares_publishers [of three_answers "[]" 2] show ?thesis by auto
qed

end
