(* ===== verification/Serial.thy ===== *)
theory Serial
  imports Prelude
begin

text \<open>
  The class \<open>Serial\<close> of \<open>src/serial.h\<close> and \<open>src/serial.cpp\<close>. The operating system is a partner
  that answers system calls: the calls made so far are a list, and the record \<open>os\<close> gives the
  return value, \<open>errno\<close> and data as functions of that list, so that an \<open>os\<close> is one possible
  behaviour of the system, errors included. The numbers of flags and error codes are those of
  Linux. Loops that the system can keep alive are partial functions: a loop that does not end
  has the value \<open>None\<close>.
\<close>

section \<open>System calls\<close>

record termios =
  c_iflag :: u32
  c_oflag :: u32
  c_cflag :: u32
  c_lflag :: u32
  c_speed :: c_int

datatype sys_call =
    SysOpen bytes
  | SysIsatty c_int
  | SysTcgetattr c_int
  | SysCfsetspeed c_int
  | SysTcsetattr c_int termios
  | SysClose c_int
  | SysRead c_int nat
  | SysWrite c_int bytes
  | SysTcdrain c_int
  | SysFsync c_int
  | SysTcflush c_int
  | SysTiocmget c_int
  | SysTiocmbis c_int c_int
  | SysTiocmbic c_int c_int
  | SysNanosleep int int

record os =
  sys_ret :: "sys_call list \<Rightarrow> c_int"
  sys_errno :: "sys_call list \<Rightarrow> c_int"
  sys_data :: "sys_call list \<Rightarrow> bytes"
  sys_termios :: "sys_call list \<Rightarrow> termios"

definition ENOTCONN :: c_int where "ENOTCONN = 107"
definition EAGAIN :: c_int where "EAGAIN = 11"

section \<open>Baud rates\<close>

text \<open>The pairs \<open>{rate, Brate}\<close> with the values of \<open>asm-generic/termbits.h\<close>.\<close>

definition BAUDRATE_TABLE :: "(u32 \<times> u32) list" where
  "BAUDRATE_TABLE =
     [(50, 1), (75, 2), (110, 3),
      (134, 4),
      (150, 5), (200, 6), (300, 7),
      (600, 8), (1200, 9), (1800, 10),
      (2400, 11), (4800, 12), (9600, 13),
      (19200, 14), (38400, 15), (57600, 0x1001),
      (115200, 0x1002), (230400, 0x1003), (460800, 0x1004),
      (500000, 0x1005), (576000, 0x1006), (921600, 0x1007),
      (1000000, 0x1008), (1152000, 0x1009), (1500000, 0x100A),
      (2000000, 0x100B), (2500000, 0x100C), (3000000, 0x100D),
      (3500000, 0x100E), (4000000, 0x100F)]"

definition B115200 :: u32 where "B115200 = 0x1002"

fun find_symbol :: "(u32 \<times> u32) list \<Rightarrow> u32 \<Rightarrow> u32 option" where
  "find_symbol [] br = None"
| "find_symbol ((rate, symbol) # t) br = (if rate = br then Some symbol else find_symbol t br)"

fun find_rate :: "(u32 \<times> u32) list \<Rightarrow> c_int \<Rightarrow> u32 option" where
  "find_rate [] s = None"
| "find_rate ((rate, symbol) # t) s = (if symbol = ucast s then Some rate else find_rate t s)"

definition baudSymbol :: "u32 \<Rightarrow> c_int" where
  "baudSymbol br = (case find_symbol BAUDRATE_TABLE br of Some s \<Rightarrow> ucast s | None \<Rightarrow> ucast B115200)"

definition baudToValue :: "c_int \<Rightarrow> c_int" where
  "baudToValue symbol = (case find_rate BAUDRATE_TABLE symbol of Some r \<Rightarrow> ucast r | None \<Rightarrow> 0)"

section \<open>State\<close>

record Serial =
  serial_port :: bytes
  serial_baudrate :: c_int
  serial_fd :: c_int
  serial_connected :: bool
  sys_calls :: "sys_call list"

definition Serial_new :: Serial where
  "Serial_new = \<lparr>serial_port = [], serial_baudrate = ucast B115200, serial_fd = - 1,
     serial_connected = False, sys_calls = []\<rparr>"

definition Serial_set_port :: "bytes \<Rightarrow> Serial \<Rightarrow> c_int \<times> Serial" where
  "Serial_set_port port s = (0, s\<lparr>serial_port := port\<rparr>)"

definition Serial_init :: "Serial \<Rightarrow> c_int \<times> Serial" where
  "Serial_init s = (0, s)"

definition Serial_set_baudrate :: "u32 \<Rightarrow> Serial \<Rightarrow> c_int \<times> Serial" where
  "Serial_set_baudrate br s = (0, s\<lparr>serial_baudrate := baudSymbol br\<rparr>)"

definition Serial_baudrate :: "Serial \<Rightarrow> u32" where
  "Serial_baudrate s = ucast (baudToValue (serial_baudrate s))"

section \<open>The short name of the port\<close>

text \<open>The bytes of \<open>/dev/tty\<close>; \<open>find (...) == 0\<close> asks whether they are a prefix.\<close>

definition dev_tty :: bytes where
  "dev_tty = [0x2F, 0x64, 0x65, 0x76, 0x2F, 0x74, 0x74, 0x79]"

definition shortName :: "bytes \<Rightarrow> bytes" where
  "shortName port =
     (if take (length dev_tty) port = dev_tty then drop 8 port
      else if 0x2F \<notin> set port then port
      else rev (takeWhile (\<lambda>c. c \<noteq> 0x2F) (rev port)))"

section \<open>Making a call\<close>

definition sys :: "sys_call \<Rightarrow> Serial \<Rightarrow> Serial" where
  "sys c s = s\<lparr>sys_calls := sys_calls s @ [c]\<rparr>"

definition ret :: "os \<Rightarrow> Serial \<Rightarrow> c_int" where
  "ret os s = sys_ret os (sys_calls s)"

definition errno :: "os \<Rightarrow> Serial \<Rightarrow> c_int" where
  "errno os s = sys_errno os (sys_calls s)"

lemma sys_simps [simp]:
  "sys_calls (sys c s) = sys_calls s @ [c]" "serial_fd (sys c s) = serial_fd s"
  "serial_connected (sys c s) = serial_connected s" "serial_port (sys c s) = serial_port s"
  "serial_baudrate (sys c s) = serial_baudrate s"
  by (simp_all add: sys_def)

section \<open>Connecting\<close>

definition IFLAG_COOKED :: u32 where "IFLAG_COOKED = 0x1 OR 0x2 OR 0x8 OR 0x20 OR 0x40 OR 0x80 OR 0x100 OR 0x400"
definition OFLAG_COOKED :: u32 where "OFLAG_COOKED = 0x1 OR 0x4 OR 0x8"
definition LFLAG_COOKED :: u32 where "LFLAG_COOKED = 0x8 OR 0x40 OR 0x2 OR 0x1 OR 0x8000 OR 0x800 OR 0x10 OR 0x200"
definition CSIZE :: u32 where "CSIZE = 0x30"
definition CS8 :: u32 where "CS8 = 0x30"
definition PARENB :: u32 where "PARENB = 0x100"
definition HUPCL :: u32 where "HUPCL = 0x400"

definition raw_mode :: "termios \<Rightarrow> termios" where
  "raw_mode t =
     (let t = t\<lparr>c_iflag := c_iflag t AND NOT IFLAG_COOKED\<rparr>;
          t = t\<lparr>c_oflag := c_oflag t AND NOT OFLAG_COOKED\<rparr>;
          t = t\<lparr>c_lflag := c_lflag t AND NOT LFLAG_COOKED\<rparr>;
          t = t\<lparr>c_cflag := c_cflag t AND NOT (CSIZE OR PARENB)\<rparr>;
          t = t\<lparr>c_cflag := c_cflag t OR CS8\<rparr>
      in t\<lparr>c_cflag := c_cflag t AND NOT HUPCL\<rparr>)"

text \<open>The error exits after a successful \<open>open\<close>.\<close>

definition abandon :: "os \<Rightarrow> Serial \<Rightarrow> c_int \<times> Serial" where
  "abandon os s =
     (let s = sys (SysClose (serial_fd s)) s; s = s\<lparr>serial_fd := - 1\<rparr> in (errno os s, s))"

text \<open>\<open>modeInfo\<close> only logs the modem lines.\<close>

definition modeInfo :: "Serial \<Rightarrow> c_int \<times> Serial" where
  "modeInfo s = (0, sys (SysTiocmget (serial_fd s)) s)"

definition Serial_connect :: "os \<Rightarrow> Serial \<Rightarrow> c_int \<times> Serial" where
  "Serial_connect os s =
     (let s = sys (SysOpen (serial_port s)) s; s = s\<lparr>serial_fd := ret os s\<rparr> in
      if serial_fd s = - 1 then (errno os s, s\<lparr>serial_fd := - 1\<rparr>) else
      let s = sys (SysIsatty (serial_fd s)) s in
      if ret os s = 0 then abandon os s else
      let s = sys (SysTcgetattr (serial_fd s)) s in
      if ret os s <s 0 then abandon os s else
      let options = raw_mode (sys_termios os (sys_calls s));
          s = sys (SysCfsetspeed (serial_baudrate s)) s in
      if ret os s <s 0 then abandon os s else
      let options = options\<lparr>c_speed := serial_baudrate s\<rparr>;
          s = sys (SysTcsetattr (serial_fd s) options) s in
      if ret os s <s 0 then abandon os s else
      let s = s\<lparr>serial_connected := True\<rparr>;
          (_, s) = modeInfo s
      in (0, s))"

definition Serial_disconnect :: "os \<Rightarrow> Serial \<Rightarrow> c_int \<times> Serial" where
  "Serial_disconnect os s =
     (let s = sys (SysClose (serial_fd s)) s; rc = ret os s;
          s = s\<lparr>serial_fd := - 1, serial_connected := False\<rparr>
      in if rc <s 0 then (errno os s, s) else (0, s))"

section \<open>Receiving and sending\<close>

text \<open>\<open>rc\<close> bytes of the buffer are appended to \<open>out\<close>; the data of a read has that length.\<close>

partial_function (option) rxd_loop :: "os \<Rightarrow> bytes \<Rightarrow> Serial \<Rightarrow> (c_int \<times> bytes \<times> Serial) option" where
  "rxd_loop os out s =
     (let s = sys (SysRead (serial_fd s) 1024) s; rc = ret os s in
      if 0 <s rc then rxd_loop os (out @ take (nat (sint rc)) (sys_data os (sys_calls s))) s
      else if rc <s 0 then
        (if errno os s = EAGAIN then Some (0, out, s) else Some (errno os s, out, s))
      else Some (0, out, s))"

definition Serial_rxd :: "os \<Rightarrow> Serial \<Rightarrow> (c_int \<times> bytes \<times> Serial) option" where
  "Serial_rxd os s = (if \<not> serial_connected s then Some (ENOTCONN, [], s) else rxd_loop os [] s)"

text \<open>
  The loop of \<open>txd\<close> ends with \<open>Some errno\<close> when it returns from the function and \<open>None\<close> when
  everything is written. The comparison \<open>rc == len\<close> converts \<open>rc\<close> to \<open>size_t\<close>.
\<close>

partial_function (option) txd_loop :: "os \<Rightarrow> bytes \<Rightarrow> Serial \<Rightarrow> (c_int option \<times> Serial) option" where
  "txd_loop os buf s =
     (if buf = [] then Some (None, s) else
      let s = sys (SysWrite (serial_fd s) buf) s; rc = ret os s in
      if (scast rc :: u64) = of_nat (length buf) then Some (None, s)
      else if 0 \<le>s rc then
        txd_loop os (drop (nat (sint rc)) buf) (sys (SysTcdrain (serial_fd s)) s)
      else if errno os s = EAGAIN then txd_loop os buf (sys (SysTcdrain (serial_fd s)) s)
      else Some (Some (errno os s), s))"

definition Serial_txd :: "os \<Rightarrow> bytes \<Rightarrow> Serial \<Rightarrow> (c_int \<times> Serial) option" where
  "Serial_txd os buffer s =
     (if \<not> serial_connected s then Some (ENOTCONN, s) else
      case txd_loop os buffer s of
        None \<Rightarrow> None
      | Some (Some rc, s) \<Rightarrow> Some (rc, s)
      | Some (None, s) \<Rightarrow>
          let s = sys (SysFsync (serial_fd s)) s; s = sys (SysTcflush (serial_fd s)) s
          in Some (0, s))"

section \<open>The modem lines\<close>

definition TIOCM_DTR :: c_int where "TIOCM_DTR = 2"
definition TIOCM_RTS :: c_int where "TIOCM_RTS = 4"

text \<open>The product \<open>msec * 1000000\<close> is taken in \<open>uint32_t\<close>.\<close>

definition Serial_wait :: "os \<Rightarrow> u32 \<Rightarrow> Serial \<Rightarrow> bool \<times> Serial" where
  "Serial_wait os msec s =
     (let tv_sec = uint (msec div 1000); tv_nsec = uint ((msec * 1000000) mod 1000000000);
          s = sys (SysNanosleep tv_sec tv_nsec) s
      in (ret os s = 0, s))"

definition setBit :: "os \<Rightarrow> c_int \<Rightarrow> Serial \<Rightarrow> bool \<times> Serial" where
  "setBit os flags s = (let s = sys (SysTiocmbis (serial_fd s) flags) s in (ret os s = 0, s))"

definition clrBit :: "os \<Rightarrow> c_int \<Rightarrow> Serial \<Rightarrow> bool \<times> Serial" where
  "clrBit os flags s = (let s = sys (SysTiocmbic (serial_fd s) flags) s in (ret os s = 0, s))"

text \<open>\<open>all_true\<close> is a chain of \<open>&&\<close>: the first failure ends it.\<close>

fun all_true :: "(Serial \<Rightarrow> bool \<times> Serial) list \<Rightarrow> Serial \<Rightarrow> bool \<times> Serial" where
  "all_true [] s = (True, s)"
| "all_true (f # fs) s = (let (ok, s) = f s in if ok then all_true fs s else (False, s))"

definition modeRun :: "os \<Rightarrow> Serial \<Rightarrow> bool \<times> Serial" where
  "modeRun os =
     all_true [Serial_wait os 10, setBit os TIOCM_DTR, clrBit os TIOCM_RTS,
       Serial_wait os 10, setBit os TIOCM_RTS, setBit os TIOCM_DTR,
       Serial_wait os 10]"

definition modeProgram :: "os \<Rightarrow> Serial \<Rightarrow> bool \<times> Serial" where
  "modeProgram os =
     all_true [Serial_wait os 10, setBit os TIOCM_DTR, clrBit os TIOCM_RTS,
       Serial_wait os 10, setBit os TIOCM_RTS, clrBit os TIOCM_DTR,
       Serial_wait os 10]"

section \<open>What the system promises\<close>

text \<open>
  POSIX: \<open>open\<close> returns \<open>-1\<close> or a descriptor; a failing call sets \<open>errno\<close> to a positive value
  and no call resets it; \<open>read\<close> and \<open>write\<close> transfer at most what they are given, and \<open>read\<close>
  delivers as many bytes as it says.
\<close>

fun sys_failed :: "sys_call \<Rightarrow> c_int \<Rightarrow> bool" where
  "sys_failed (SysOpen _) rc = (rc = - 1)"
| "sys_failed (SysIsatty _) rc = (rc = 0)"
| "sys_failed _ rc = (rc <s 0)"

definition errno_lawful :: "os \<Rightarrow> bool" where
  "errno_lawful os \<longleftrightarrow>
     (\<forall>cs c. sys_failed c (sys_ret os (cs @ [c])) \<longrightarrow> sys_errno os (cs @ [c]) \<noteq> 0) \<and>
     (\<forall>cs c. sys_errno os cs \<noteq> 0 \<longrightarrow> sys_errno os (cs @ [c]) \<noteq> 0)"

definition transfer_lawful :: "os \<Rightarrow> bool" where
  "transfer_lawful os \<longleftrightarrow>
     (\<forall>cs fd buf. sint (sys_ret os (cs @ [SysWrite fd buf])) \<le> int (length buf)) \<and>
     (\<forall>cs fd n. 0 <s sys_ret os (cs @ [SysRead fd n]) \<longrightarrow>
        length (sys_data os (cs @ [SysRead fd n])) = nat (sint (sys_ret os (cs @ [SysRead fd n]))))"

text \<open>The bytes the system has accepted in the calls \<open>cs\<close> made after \<open>h\<close>, and those it delivered.\<close>

fun accepted :: "os \<Rightarrow> sys_call list \<Rightarrow> sys_call list \<Rightarrow> bytes" where
  "accepted os h [] = []"
| "accepted os h (SysWrite fd buf # cs) =
     take (nat (sint (sys_ret os (h @ [SysWrite fd buf])))) buf @ accepted os (h @ [SysWrite fd buf]) cs"
| "accepted os h (c # cs) = accepted os (h @ [c]) cs"

fun delivered :: "os \<Rightarrow> sys_call list \<Rightarrow> sys_call list \<Rightarrow> bytes" where
  "delivered os h [] = []"
| "delivered os h (SysRead fd n # cs) =
     take (nat (sint (sys_ret os (h @ [SysRead fd n])))) (sys_data os (h @ [SysRead fd n])) @
       delivered os (h @ [SysRead fd n]) cs"
| "delivered os h (c # cs) = delivered os (h @ [c]) cs"

section \<open>The loops\<close>

lemma errno_failed:
  "errno_lawful os \<Longrightarrow> sys_failed c (sys_ret os (cs @ [c])) \<Longrightarrow> sys_errno os (cs @ [c]) \<noteq> 0"
  by (simp add: errno_lawful_def)

lemma ret_update [simp]:
  "ret os (s\<lparr>serial_fd := fd\<rparr>) = ret os s" "errno os (s\<lparr>serial_fd := fd\<rparr>) = errno os s"
  "ret os (s\<lparr>serial_connected := b\<rparr>) = ret os s"
  by (simp_all add: ret_def errno_def)

lemma errno_sys: "errno_lawful os \<Longrightarrow> sys_failed c (ret os (sys c s)) \<Longrightarrow> errno os (sys c s) \<noteq> 0"
  by (simp add: ret_def errno_def errno_failed)

lemma errno_stays: "errno_lawful os \<Longrightarrow> errno os s \<noteq> 0 \<Longrightarrow> errno os (sys c s) \<noteq> 0"
  by (simp add: errno_lawful_def errno_def)

lemma scast_eq_len:
  fixes rc :: c_int
  assumes "n < 2 ^ 31"
  shows "(scast rc :: u64) = of_nat n \<longleftrightarrow> sint rc = int n"
proof -
  have "sint (scast rc :: u64) = sint rc"
    using sint_ge [of rc] sint_lt [of rc] by (simp add: signed_scast_eq signed_take_bit_int_eq_self_iff) 
  moreover have "sint (of_nat n :: u64) = int n"
    using assms by (simp add: signed_of_nat signed_take_bit_int_eq_self_iff)
  ultimately show ?thesis
    by (simp add: word_eq_iff_signed [where 'a = int, of "scast rc"] del: signed_of_nat)
qed

lemma serial_rxd_loop:
  assumes "rxd_loop os out s = Some r"
  shows "\<exists>cs rc. r = (rc, out @ delivered os (sys_calls s) cs, s\<lparr>sys_calls := sys_calls s @ cs\<rparr>) \<and>
    (\<forall>c\<in>set cs. c = SysRead (serial_fd s) 1024)"
  using assms
proof (induction rule: rxd_loop.raw_induct [rotated, consumes 1, case_names step])
  case (step rec os out s r)
  let ?c = "SysRead (serial_fd s) 1024"
  show ?case
  proof (cases "0 <s ret os (sys ?c s)")
    case True
    with step(2) have "rec os (out @ take (nat (sint (ret os (sys ?c s)))) (sys_data os (sys_calls (sys ?c s)))) (sys ?c s) = Some r"
      by (simp add: Let_def)
    from step(1) [OF this] obtain cs rc where
      "r = (rc, (out @ take (nat (sint (ret os (sys ?c s)))) (sys_data os (sys_calls (sys ?c s)))) @
          delivered os (sys_calls (sys ?c s)) cs, (sys ?c s)\<lparr>sys_calls := sys_calls (sys ?c s) @ cs\<rparr>)"
      "\<forall>c\<in>set cs. c = ?c" by auto
    then show ?thesis
      by (intro exI [of _ "?c # cs"]) (simp add: ret_def sys_def)
  next
    case False
    with step(2) obtain rc where "r = (rc, out, sys ?c s)"
      by (auto simp: Let_def split: if_splits)
    moreover have "nat (sint (ret os (sys ?c s))) = 0"
      using False by (simp add: word_sless_alt)
    ultimately show ?thesis
      by (intro exI [of _ "[?c]"]) (simp add: ret_def sys_def)
  qed
qed

lemma serial_rxd_loop_returns:
  assumes "\<And>cs. n \<le> length cs \<Longrightarrow> \<not> 0 <s sys_ret os (cs @ [SysRead (serial_fd s) 1024])"
  shows "\<exists>r. rxd_loop os out s = Some r"
  using assms
proof (induction "n - length (sys_calls s)" arbitrary: out s rule: less_induct)
  case less
  let ?c = "SysRead (serial_fd s) 1024"
  show ?case
  proof (cases "0 <s ret os (sys ?c s)")
    case True
    then have "length (sys_calls s) < n"
      using less.prems [of "sys_calls s"] by (force simp: ret_def)
    with True less.hyps [of "sys ?c s"] less.prems show ?thesis
      by (subst rxd_loop.simps) (simp add: Let_def)
  next
    case False
    then show ?thesis
      by (subst rxd_loop.simps) (simp add: Let_def)
  qed
qed

text \<open>What a run of the loop that started at \<open>s\<close> says: the system has taken all of \<open>buf\<close>, or a beginning and then failed.\<close>

definition txd_did :: "os \<Rightarrow> bytes \<Rightarrow> Serial \<Rightarrow> c_int option \<times> Serial \<Rightarrow> bool" where
  "txd_did os buf s r \<longleftrightarrow> (\<exists>cs. snd r = s\<lparr>sys_calls := sys_calls s @ cs\<rparr> \<and>
     (case fst r of None \<Rightarrow> accepted os (sys_calls s) cs = buf
      | Some e \<Rightarrow> e \<noteq> 0 \<and> (\<exists>rest. buf = accepted os (sys_calls s) cs @ rest \<and> rest \<noteq> [])))"

lemma txd_did_more:
  assumes "txd_did os rest (sys (SysTcdrain fd) (sys (SysWrite fd buf) s)) r"
    and "buf = take (nat (sint (ret os (sys (SysWrite fd buf) s)))) buf @ rest"
  shows "txd_did os buf s r"
proof -
  let ?s2 = "sys (SysTcdrain fd) (sys (SysWrite fd buf) s)"
  from assms(1) obtain cs where cs: "snd r = ?s2\<lparr>sys_calls := sys_calls ?s2 @ cs\<rparr>"
    "case fst r of None \<Rightarrow> accepted os (sys_calls ?s2) cs = rest
     | Some e \<Rightarrow> e \<noteq> 0 \<and> (\<exists>rest'. rest = accepted os (sys_calls ?s2) cs @ rest' \<and> rest' \<noteq> [])"
    unfolding txd_did_def by blast
  show ?thesis
    unfolding txd_did_def
  proof (rule exI [of _ "SysWrite fd buf # SysTcdrain fd # cs"], rule conjI)
    show "snd r = s\<lparr>sys_calls := sys_calls s @ SysWrite fd buf # SysTcdrain fd # cs\<rparr>"
      using cs(1) by (simp add: sys_def)
    have all: "accepted os (sys_calls s) (SysWrite fd buf # SysTcdrain fd # cs) =
        take (nat (sint (ret os (sys (SysWrite fd buf) s)))) buf @ accepted os (sys_calls ?s2) cs"
      by (simp add: ret_def sys_def)
    show "case fst r of None \<Rightarrow> accepted os (sys_calls s) (SysWrite fd buf # SysTcdrain fd # cs) = buf
      | Some e \<Rightarrow> e \<noteq> 0 \<and> (\<exists>rest. buf = accepted os (sys_calls s) (SysWrite fd buf # SysTcdrain fd # cs) @ rest \<and> rest \<noteq> [])"
    proof (cases "fst r")
      case None
      then have "accepted os (sys_calls ?s2) cs = rest" using cs(2) by simp
      with None all assms(2) show ?thesis by (simp del: accepted.simps)
    next
      case (Some e)
      then obtain rest' where "e \<noteq> 0" "rest = accepted os (sys_calls ?s2) cs @ rest'" "rest' \<noteq> []"
        using cs(2) by auto
      with Some all assms(2) show ?thesis by (auto simp del: accepted.simps)
    qed
  qed
qed

lemma serial_txd_did:
  assumes "txd_loop os buf s = Some r" "length buf < 2 ^ 31" "transfer_lawful os" "errno_lawful os"
  shows "txd_did os buf s r"
  using assms
proof (induction rule: txd_loop.raw_induct [rotated, consumes 1, case_names step])
  case (step rec os buf s r)
  let ?w = "SysWrite (serial_fd s) buf" let ?s1 = "sys ?w s" let ?rc = "ret os ?s1"
  have le: "sint ?rc \<le> int (length buf)"
    using step.prems(2) by (simp add: transfer_lawful_def ret_def)
  have all: "(scast ?rc :: u64) = of_nat (length buf) \<longleftrightarrow> sint ?rc = int (length buf)"
    by (rule scast_eq_len) (rule step.prems(1))
  consider "buf = []" | "buf \<noteq> []" "sint ?rc = int (length buf)"
    | "buf \<noteq> []" "0 \<le> sint ?rc" "sint ?rc < int (length buf)"
    | "buf \<noteq> []" "sint ?rc < 0" "errno os ?s1 = EAGAIN"
    | "buf \<noteq> []" "sint ?rc < 0" "errno os ?s1 \<noteq> EAGAIN"
    using le by linarith
  then show ?case
  proof cases
    case 1
    with step.hyps show ?thesis unfolding txd_did_def by (intro exI [of _ "[]"]) auto
  next
    case 2
    with step.hyps all show ?thesis
      unfolding txd_did_def by (intro exI [of _ "[?w]"]) (auto simp: Let_def ret_def sys_def)
  next
    case 3
    with step.hyps all have "rec os (drop (nat (sint ?rc)) buf) (sys (SysTcdrain (serial_fd s)) ?s1) = Some r"
      by (auto simp: Let_def word_sle_eq)
    then have "txd_did os (drop (nat (sint ?rc)) buf) (sys (SysTcdrain (serial_fd s)) ?s1) r"
      by (rule step.IH) (use step.prems in simp_all)
    then show ?thesis by (rule txd_did_more) simp
  next
    case 4
    with step.hyps all have "rec os buf (sys (SysTcdrain (serial_fd s)) ?s1) = Some r"
      by (auto simp: Let_def word_sle_eq)
    from step.IH [OF this step.prems] show ?thesis by (rule txd_did_more) (use 4 in simp)
  next
    case 5
    with step.hyps all have "r = (Some (errno os ?s1), ?s1)"
      by (auto simp: Let_def word_sle_eq)
    moreover have "errno os ?s1 \<noteq> 0"
      using errno_failed [OF step.prems(3), of ?w "sys_calls s"] 5 by (simp add: ret_def errno_def word_sless_alt)
    ultimately show ?thesis
      unfolding txd_did_def by (intro exI [of _ "[?w]"]) (use 5 in \<open>simp add: ret_def sys_def\<close>)
  qed
qed

lemma serial_txd_loop:
  assumes "txd_loop os buf s = Some r" "length buf < 2 ^ 31" "transfer_lawful os" "errno_lawful os"
  shows "\<exists>cs rc. r = (rc, s\<lparr>sys_calls := sys_calls s @ cs\<rparr>) \<and>
      (case rc of None \<Rightarrow> accepted os (sys_calls s) cs = buf
       | Some e \<Rightarrow> e \<noteq> 0 \<and> (\<exists>rest. buf = accepted os (sys_calls s) cs @ rest \<and> rest \<noteq> []))"
  using serial_txd_did [OF assms] by (cases r) (auto simp: txd_did_def)

lemma serial_txd_loop_returns:
  assumes "\<And>cs b. b \<noteq> [] \<Longrightarrow> 0 < sint (sys_ret os (cs @ [SysWrite (serial_fd s) b]))"
  shows "\<exists>s'. txd_loop os buf s = Some (None, s')"
  using assms
proof (induction "length buf" arbitrary: buf s rule: less_induct)
  case less
  let ?w = "SysWrite (serial_fd s) buf"
  let ?rc = "ret os (sys ?w s)"
  show ?case
  proof (cases "buf = [] \<or> (scast ?rc :: u64) = of_nat (length buf)")
    case True
    then show ?thesis by (subst txd_loop.simps) (auto simp: Let_def)
  next
    case False
    then have rc: "0 < sint ?rc" "buf \<noteq> []"
      using less.prems [of buf "sys_calls s"] by (auto simp: ret_def)
    let ?s2 = "sys (SysTcdrain (serial_fd s)) (sys ?w s)"
    have "\<exists>s'. txd_loop os (drop (nat (sint ?rc)) buf) ?s2 = Some (None, s')"
      by (rule less.hyps) (use less.prems rc in simp_all)
    then show ?thesis
      using False rc by (subst txd_loop.simps) (auto simp: Let_def word_sle_eq)
  qed
qed

section \<open>Reads and writes in one history\<close>

lemma accepted_append: "accepted os h (cs @ ds) = accepted os h cs @ accepted os (h @ cs) ds"
  by (induction os h cs rule: accepted.induct) simp_all

lemma delivered_append: "delivered os h (cs @ ds) = delivered os h cs @ delivered os (h @ cs) ds"
  by (induction os h cs rule: delivered.induct) simp_all

text \<open>What concerns only one of the two directions.\<close>

fun is_read :: "sys_call \<Rightarrow> bool" where
  "is_read (SysRead _ _) = True"
| "is_read _ = False"

lemma delivered_none: "\<forall>c\<in>set cs. \<not> is_read c \<Longrightarrow> delivered os h cs = []"
  by (induction os h cs rule: delivered.induct) simp_all

lemma accepted_none: "\<forall>c\<in>set cs. c = SysRead fd n \<Longrightarrow> accepted os h cs = []"
  by (induction os h cs rule: accepted.induct) auto

lemma serial_txd_loop_no_reads:
  assumes "txd_loop os buf s = Some r"
  shows "\<exists>cs. snd r = s\<lparr>sys_calls := sys_calls s @ cs\<rparr> \<and> (\<forall>c\<in>set cs. \<not> is_read c)"
  using assms
proof (induction rule: txd_loop.raw_induct [rotated, consumes 1, case_names step])
  case (step rec os buf s r)
  let ?s1 = "sys (SysWrite (serial_fd s) buf) s" let ?s2 = "sys (SysTcdrain (serial_fd s)) ?s1"
  have more: "\<exists>cs. snd r = s\<lparr>sys_calls := sys_calls s @ cs\<rparr> \<and> (\<forall>c\<in>set cs. \<not> is_read c)"
    if "rec os b ?s2 = Some r" for b
  proof -
    from step.IH [OF that] obtain cs where
      "snd r = ?s2\<lparr>sys_calls := sys_calls ?s2 @ cs\<rparr>" "\<forall>c\<in>set cs. \<not> is_read c" by blast
    then show ?thesis
      by (intro exI [of _ "[SysWrite (serial_fd s) buf, SysTcdrain (serial_fd s)] @ cs"]) (simp add: sys_def)
  qed
  have "r = (None, s) \<or> (\<exists>e. r = (e, ?s1)) \<or> (\<exists>b. rec os b ?s2 = Some r)"
    using step.hyps by (simp add: Let_def split: if_split_asm) blast+
  then consider "r = (None, s)" | e where "r = (e, ?s1)" | b where "rec os b ?s2 = Some r"
    by blast
  then show ?case
  proof cases
    case 1
    then show ?thesis by (intro exI [of _ "[]"]) simp
  next
    case 2
    then show ?thesis by (intro exI [of _ "[SysWrite (serial_fd s) buf]"]) (simp add: sys_def)
  qed (rule more)
qed

lemma serial_rxd_loop_ends:
  assumes "\<And>cs. \<exists>k. \<not> 0 <s sys_ret os (cs @ replicate (Suc k) (SysRead (serial_fd s) 1024))"
  shows "\<exists>r. rxd_loop os out s = Some r"
proof -
  have "\<exists>r. rxd_loop os out s = Some r"
    if "\<not> 0 <s sys_ret os (sys_calls s @ replicate (Suc k) (SysRead (serial_fd s) 1024))" for k s out
    using that
  proof (induction k arbitrary: out s)
    case 0
    then show ?case by (subst rxd_loop.simps) (simp add: Let_def ret_def)
  next
    case (Suc k)
    let ?s = "sys (SysRead (serial_fd s) 1024) s"
    have "sys_calls ?s @ replicate (Suc k) (SysRead (serial_fd ?s) 1024) =
        sys_calls s @ replicate (Suc (Suc k)) (SysRead (serial_fd s) 1024)" by (simp add: sys_def)
    with Suc have "\<exists>r. rxd_loop os out ?s = Some r" for out by simp
    then show ?case
      by (subst rxd_loop.simps) (auto simp: Let_def)
  qed
  with assms [of "sys_calls s"] show ?thesis by blast
qed

section \<open>Line levels\<close>

text \<open>The levels of (DTR, RTS) at each sleep of a sequence of calls.\<close>

definition bit_set :: "c_int \<Rightarrow> c_int \<Rightarrow> bool" where
  "bit_set flags m \<longleftrightarrow> flags AND m \<noteq> 0"

fun held :: "bool \<times> bool \<Rightarrow> sys_call list \<Rightarrow> (bool \<times> bool) list" where
  "held l [] = []"
| "held l (SysNanosleep _ _ # cs) = l # held l cs"
| "held l (SysTiocmbis _ f # cs) = held (fst l \<or> bit_set f TIOCM_DTR, snd l \<or> bit_set f TIOCM_RTS) cs"
| "held l (SysTiocmbic _ f # cs) = held (fst l \<and> \<not> bit_set f TIOCM_DTR, snd l \<and> \<not> bit_set f TIOCM_RTS) cs"
| "held l (_ # cs) = held l cs"

lemma tiocm_bits [simp]:
  "bit_set TIOCM_DTR TIOCM_DTR" "bit_set TIOCM_RTS TIOCM_RTS"
  "\<not> bit_set TIOCM_DTR TIOCM_RTS" "\<not> bit_set TIOCM_RTS TIOCM_DTR"
  by (simp_all add: bit_set_def TIOCM_DTR_def TIOCM_RTS_def)

section \<open>An example system\<close>

text \<open>
  A tty with descriptor 3: every write takes one byte, the first read of a history delivers two
  bytes, later reads and every failing call report \<open>EAGAIN\<close>.
\<close>

fun demo_ret :: "sys_call \<Rightarrow> bool \<Rightarrow> c_int" where
  "demo_ret (SysOpen _) _ = 3"
| "demo_ret (SysIsatty _) _ = 1"
| "demo_ret (SysRead _ _) first = (if first then 2 else - 1)"
| "demo_ret (SysWrite _ buf) _ = (if buf = [] then 0 else 1)"
| "demo_ret _ _ = 0"

definition demo_os :: os where
  "demo_os = \<lparr>sys_ret = \<lambda>cs. (if cs = [] then 0 else demo_ret (last cs) (filter is_read (butlast cs) = [])),
     sys_errno = \<lambda>_. EAGAIN, sys_data = \<lambda>_. [0x41, 0x42],
     sys_termios = \<lambda>_. \<lparr>c_iflag = 0x500, c_oflag = 5, c_cflag = 0xCB0, c_lflag = 0x8A3B, c_speed = 15\<rparr>\<rparr>"

lemma demo_os_lawful [simp]: "errno_lawful demo_os" "transfer_lawful demo_os"
proof -
  show "errno_lawful demo_os"
    by (simp add: errno_lawful_def demo_os_def EAGAIN_def)
  show "transfer_lawful demo_os"
    unfolding transfer_lawful_def
    by (auto simp: demo_os_def word_sless_alt Suc_le_eq)
qed

section \<open>Properties\<close>

text \<open>
  C36: \<open>txd\<close> sends everything or says so. When it returns 0 on a connected port, the system has
  accepted exactly the buffer, in order, across partial writes and retries, and the device has
  been synced and its output queue flushed; with another result a nonempty rest was not
  accepted. A port that is not connected makes no call and returns \<open>ENOTCONN\<close>.
\<close>

theorem serial_txd_sends_all:
  assumes "Serial_txd os buf s = Some (rc, s')" and "length buf < 2 ^ 31"
    and "transfer_lawful os" and "errno_lawful os"
  shows "if serial_connected s then
      \<exists>cs. if rc = 0 then accepted os (sys_calls s) cs = buf \<and>
          s' = s\<lparr>sys_calls := sys_calls s @ cs @ [SysFsync (serial_fd s), SysTcflush (serial_fd s)]\<rparr>
        else s' = s\<lparr>sys_calls := sys_calls s @ cs\<rparr> \<and> (\<exists>rest. rest \<noteq> [] \<and> buf = accepted os (sys_calls s) cs @ rest)
    else rc = ENOTCONN \<and> s' = s"
proof (cases "serial_connected s")
  case True
  with assms(1) obtain e t where t: "txd_loop os buf s = Some (e, t)"
    by (auto simp: Serial_txd_def split: option.splits)
  from serial_txd_loop [OF t assms(2-4)] obtain cs where
    cs: "t = s\<lparr>sys_calls := sys_calls s @ cs\<rparr>"
      "case e of None \<Rightarrow> accepted os (sys_calls s) cs = buf
       | Some e \<Rightarrow> e \<noteq> 0 \<and> (\<exists>rest. buf = accepted os (sys_calls s) cs @ rest \<and> rest \<noteq> [])" by auto
  show ?thesis
  proof (cases e)
    case None
    with assms(1) True t cs show ?thesis
      by (auto simp: Serial_txd_def sys_def Let_def)
  next
    case (Some x)
    with assms(1) True t cs show ?thesis
      by (auto simp: Serial_txd_def)
  qed
next
  case False
  with assms(1) show ?thesis by (auto simp: Serial_txd_def)
qed

definition demo_serial :: Serial where
  "demo_serial = Serial_new\<lparr>serial_fd := 3, serial_connected := True\<rparr>"

lemma serial_txd_sends_all_witness:
  "\<exists>cs. accepted demo_os [] cs = [7] \<and>
    snd (the (Serial_txd demo_os [7] demo_serial)) =
      demo_serial\<lparr>sys_calls := cs @ [SysFsync 3, SysTcflush 3]\<rparr>"
proof -
  have "Serial_txd demo_os [7] demo_serial =
      Some (0, demo_serial\<lparr>sys_calls := [SysWrite 3 [7], SysFsync 3, SysTcflush 3]\<rparr>)"
    by (simp add: Serial_txd_def txd_loop.simps demo_serial_def Serial_new_def demo_os_def ret_def sys_def)
  from serial_txd_sends_all [OF this] this show ?thesis
    by (auto simp: demo_serial_def Serial_new_def)
qed

text \<open>
  \<open>txd\<close> returns. As long as every write takes at least one byte, sending ends, with result
  0; a system that keeps answering \<open>EAGAIN\<close> would keep it in its loop.
\<close>

theorem serial_txd_returns:
  assumes "\<And>cs b. b \<noteq> [] \<Longrightarrow> 0 < sint (sys_ret os (cs @ [SysWrite (serial_fd s) b]))"
    and "serial_connected s"
  shows "\<exists>s'. Serial_txd os buf s = Some (0, s')"
  using serial_txd_loop_returns [OF assms(1), of buf] assms(2) by (auto simp: Serial_txd_def Let_def)

lemma serial_txd_returns_witness: "\<exists>s'. Serial_txd demo_os [1, 2, 3] demo_serial = Some (0, s')"
  by (rule serial_txd_returns) (simp_all add: demo_serial_def, simp add: demo_os_def)

text \<open>
  \<open>rxd\<close> delivers, in order, the bytes of all reads it makes, each into a buffer of 1024
  bytes, and changes nothing else; it also does so when it ends with an error.
\<close>

theorem serial_rxd_delivers:
  assumes "Serial_rxd os s = Some (rc, out, s')"
  shows "if serial_connected s then
      \<exists>cs. (\<forall>c\<in>set cs. c = SysRead (serial_fd s) 1024) \<and> out = delivered os (sys_calls s) cs \<and>
        s' = s\<lparr>sys_calls := sys_calls s @ cs\<rparr>
    else rc = ENOTCONN \<and> out = [] \<and> s' = s"
  using assms serial_rxd_loop [of os "[]" s "(rc, out, s')"] by (auto simp: Serial_rxd_def split: if_splits)

lemma serial_rxd_delivers_witness:
  "\<exists>cs. (\<forall>c\<in>set cs. c = SysRead 3 1024) \<and> [0x41, 0x42] = delivered demo_os [] cs"
proof -
  have "Serial_rxd demo_os demo_serial =
      Some (0, [0x41, 0x42], demo_serial\<lparr>sys_calls := [SysRead 3 1024, SysRead 3 1024]\<rparr>)"
    by (simp add: Serial_rxd_def rxd_loop.simps demo_serial_def Serial_new_def demo_os_def ret_def errno_def sys_def
        word_sless_alt Let_def)
  from serial_rxd_delivers [OF this] show ?thesis
    by (intro exI [of _ "[SysRead 3 1024, SysRead 3 1024]"]) (auto simp: demo_serial_def Serial_new_def simp del: delivered.simps)
qed

text \<open>
  \<open>rxd\<close> returns once the system has no more data: if from some point on reads deliver
  nothing, the loop ends.
\<close>

theorem serial_rxd_returns:
  assumes "\<And>cs. n \<le> length cs \<Longrightarrow> \<not> 0 <s sys_ret os (cs @ [SysRead (serial_fd s) 1024])"
  shows "\<exists>r. Serial_rxd os s = Some r"
  using serial_rxd_loop_returns [OF assms] by (auto simp: Serial_rxd_def)

lemma serial_rxd_returns_witness: "\<exists>r. Serial_rxd (demo_os\<lparr>sys_ret := \<lambda>cs. if length cs < 4 then 2 else 0\<rparr>) demo_serial = Some r"
  by (rule serial_rxd_returns [of 3]) simp

text \<open>
  Connecting. The result is 0 exactly when the port holds a descriptor afterwards; then it is
  connected and the terminal was set to a raw mode of eight bits without parity that keeps DTR
  at close, with the chosen speed. Otherwise a descriptor that was opened has been closed. A
  failure does not reset \<open>_connected\<close>: a port that was connected before still says so.
\<close>

theorem serial_connect:
  assumes "Serial_connect os s = (rc, s')" and "errno_lawful os"
    and "t = sys_termios os (sys_calls s @
      [SysOpen (serial_port s), SysIsatty (serial_fd s'), SysTcgetattr (serial_fd s')])"
  shows "(rc = 0 \<longleftrightarrow> serial_fd s' \<noteq> - 1) \<and>
    (if rc = 0 then serial_connected s' \<and>
       SysTcsetattr (serial_fd s') ((raw_mode t)\<lparr>c_speed := serial_baudrate s\<rparr>) \<in> set (sys_calls s')
     else serial_connected s' = serial_connected s \<and>
       (sys_ret os (sys_calls s @ [SysOpen (serial_port s)]) = - 1 \<or>
        last (sys_calls s') = SysClose (sys_ret os (sys_calls s @ [SysOpen (serial_port s)]))))"
proof -
  have "sys_ret os (sys_calls s @ [SysOpen (serial_port s)]) = ret os (sys (SysOpen (serial_port s)) s)"
    by (simp add: ret_def)
  then show ?thesis
    using assms(1,3) errno_sys [OF assms(2)] errno_stays [OF assms(2)]
    by (auto simp: Serial_connect_def abandon_def modeInfo_def Let_def split: if_splits)
qed

lemma serial_connect_witness:
  "SysTcsetattr 3 \<lparr>c_iflag = 0, c_oflag = 0, c_cflag = 0x8B0, c_lflag = 0x20, c_speed = 0x1002\<rparr>
    \<in> set (sys_calls (snd (Serial_connect demo_os Serial_new)))"
proof -
  obtain rc s' where s': "Serial_connect demo_os Serial_new = (rc, s')" by force
  then have "rc = 0" "serial_fd s' = 3"
    by (auto simp: Serial_connect_def modeInfo_def Serial_new_def demo_os_def ret_def sys_def Let_def)
  with serial_connect [OF s' demo_os_lawful(1) refl] s' show ?thesis
    by (simp add: demo_os_def raw_mode_def IFLAG_COOKED_def OFLAG_COOKED_def LFLAG_COOKED_def CSIZE_def CS8_def
        PARENB_def HUPCL_def Serial_new_def B115200_def)
qed

lemma find_symbol_None: "br \<notin> fst ` set t \<Longrightarrow> find_symbol t br = None"
  by (induction t br rule: find_symbol.induct) auto

text \<open>
  Baud rates. A rate of the table is stored and read back; any other rate becomes 115200. The
  symbol read back from the table is the one stored.
\<close>

theorem serial_baudrate_roundtrip:
  "Serial_baudrate (snd (Serial_set_baudrate br s)) = (if br \<in> fst ` set BAUDRATE_TABLE then br else 115200) \<and>
    (\<forall>symbol \<in> snd ` set BAUDRATE_TABLE. baudSymbol (ucast (baudToValue (ucast symbol))) = ucast symbol)"
proof -
  have "\<forall>r \<in> fst ` set BAUDRATE_TABLE. Serial_baudrate (snd (Serial_set_baudrate r s)) = r"
    by (simp add: Serial_baudrate_def Serial_set_baudrate_def baudSymbol_def baudToValue_def BAUDRATE_TABLE_def)
  moreover have "Serial_baudrate (snd (Serial_set_baudrate br s)) = 115200" if "br \<notin> fst ` set BAUDRATE_TABLE"
    using that find_symbol_None [of br BAUDRATE_TABLE]
    by (simp add: Serial_baudrate_def Serial_set_baudrate_def baudSymbol_def baudToValue_def B115200_def)
      (simp add: BAUDRATE_TABLE_def)
  moreover have "\<forall>symbol \<in> snd ` set BAUDRATE_TABLE. baudSymbol (ucast (baudToValue (ucast symbol))) = ucast symbol"
    by (simp add: baudSymbol_def baudToValue_def BAUDRATE_TABLE_def)
  ultimately show ?thesis by auto
qed

lemma serial_baudrate_roundtrip_witness: "baudSymbol (ucast (baudToValue 0x1003)) = 0x1003"
  using serial_baudrate_roundtrip [of 9600 Serial_new] by (simp add: BAUDRATE_TABLE_def)

text \<open>
  The short name of a port below \<open>/dev/tty\<close> is what follows; that of another port is its last
  path component: it has no slash and the rest of the name is empty or ends in one.
\<close>

theorem serial_shortName:
  "shortName (dev_tty @ x) = x \<and>
    (take 8 port = dev_tty \<or> 0x2F \<notin> set (shortName port) \<and>
      (\<exists>dir. port = dir @ shortName port \<and> (dir = [] \<or> last dir = 0x2F)))"
proof -
  have "0x2F \<notin> set (takeWhile (\<lambda>c. c \<noteq> 0x2F) (rev port))"
    by (auto dest: set_takeWhileD)
  moreover have "\<exists>dir. port = dir @ rev (takeWhile (\<lambda>c. c \<noteq> 0x2F) (rev port)) \<and> last dir = 0x2F"
    if "0x2F \<in> set port"
  proof -
    have "rev port = takeWhile (\<lambda>c. c \<noteq> 0x2F) (rev port) @ dropWhile (\<lambda>c. c \<noteq> 0x2F) (rev port)"
      by simp
    then have "port = rev (dropWhile (\<lambda>c. c \<noteq> 0x2F) (rev port)) @ rev (takeWhile (\<lambda>c. c \<noteq> 0x2F) (rev port))"
      by (metis rev_append rev_rev_ident)
    moreover have "dropWhile (\<lambda>c. c \<noteq> 0x2F) (rev port) \<noteq> []"
      using that by (auto simp: dropWhile_eq_Nil_conv)
    then have "last (rev (dropWhile (\<lambda>c. c \<noteq> 0x2F) (rev port))) = 0x2F"
      using hd_dropWhile [of "\<lambda>c. c \<noteq> 0x2F" "rev port"] by (simp add: last_rev)
    ultimately show ?thesis by blast
  qed
  moreover have "length dev_tty = 8" by (simp add: dev_tty_def)
  ultimately show ?thesis
    by (auto simp: shortName_def)
qed

text \<open>
  \<open>wait\<close> sleeps for the asked time up to 4294 ms; above that the product in
  \<open>uint32_t\<close> wraps, so that \<open>wait(4295)\<close> sleeps for 4.00003 seconds.
\<close>

theorem serial_wait_duration:
  "\<exists>sec nsec. sys_calls (snd (Serial_wait os msec s)) = sys_calls s @ [SysNanosleep sec nsec] \<and>
    0 \<le> nsec \<and> nsec < 1000000000 \<and>
    (msec \<le> 4294 \<longrightarrow> sec * 1000000000 + nsec = uint msec * 1000000) \<and>
    (msec = 4295 \<longrightarrow> sec = 4 \<and> nsec = 32704)"
proof -
  have "uint ((msec * 1000000) mod 1000000000) < 1000000000"
    by (simp add: uint_mod_distrib)
  moreover have "uint (msec div 1000) * 1000000000 + uint ((msec * 1000000) mod 1000000000) = uint msec * 1000000"
    if "msec \<le> 4294"
  proof -
    have "uint msec \<le> 4294" using that by (simp add: word_le_def)
    then have "uint (msec * 1000000) = uint msec * 1000000"
      by (simp add: uint_word_ariths(3))
    moreover have "(a div 1000) * 1000000000 + (a * 1000000) mod 1000000000 = a * 1000000" for a :: int
    proof -
      have "(a * 1000000) mod (1000 * 1000000) = (a mod 1000) * 1000000"
        by (simp only: mult_mod_left [symmetric])
      then have "(a * 1000000) mod 1000000000 = (a mod 1000) * 1000000" by simp
      then show ?thesis
        using div_mult_mod_eq [of a 1000] by linarith
    qed
    ultimately show ?thesis
      by (simp add: uint_div_distrib uint_mod_distrib)
  qed
  ultimately show ?thesis
    by (auto simp: Serial_wait_def Let_def)
qed

text \<open>
  The modem lines. When it succeeds, \<open>modeRun\<close> holds the device in reset (DTR set, RTS clear)
  for one wait and leaves both lines set; \<open>modeProgram\<close> ends with DTR clear and RTS set: the
  rows RESET, RUN and PROGRAM of the table in the source.
\<close>

theorem serial_modes:
  "(case modeRun os s of (ok, s') \<Rightarrow> ok \<longrightarrow>
      (\<exists>cs. sys_calls s' = sys_calls s @ cs \<and> held l cs = [l, (True, False), (True, True)])) \<and>
    (case modeProgram os s of (ok, s') \<Rightarrow> ok \<longrightarrow>
      (\<exists>cs. sys_calls s' = sys_calls s @ cs \<and> held l cs = [l, (True, False), (False, True)]))"
  by (simp add: modeRun_def modeProgram_def Serial_wait_def setBit_def clrBit_def Let_def)

lemma serial_modes_witness:
  "\<exists>cs. sys_calls (snd (modeProgram demo_os demo_serial)) = cs \<and>
    held (True, True) cs = [(True, True), (True, False), (False, True)]"
  using serial_modes [where os = demo_os and s = demo_serial and l = "(True, True)"]
  by (simp add: demo_serial_def Serial_new_def demo_os_def modeProgram_def Serial_wait_def setBit_def clrBit_def
      Let_def ret_def split: prod.splits)

end
