(* ===== verification/Serial_Session.thy ===== *)
theory Serial_Session
  imports Serial
begin

text \<open>
  The class \<open>SerialSession\<close> of \<open>src/serial_session.h\<close> and \<open>src/serial_session.cpp\<close>: it owns a
  \<open>Serial\<close>, registers its descriptor with the worker thread and emits what the port delivers.
  The thread is not part of the repository; the record keeps the calls made to it and the
  values emitted on \<open>incoming\<close>. The members \<open>_inputFrame\<close>, \<open>_cleanData\<close>, \<open>_lastFrameFlag\<close>,
  \<open>connected\<close> and \<open>command\<close> are declared and never used.
\<close>

section \<open>State and operations\<close>

datatype thread_call = AddReadInvoker c_int | AddErrorInvoker c_int | DeleteInvoker c_int

record SerialSession =
  serialPort :: Serial
  session_port :: bytes
  session_baudrate :: u32
  rxdBuffer :: bytes
  incoming :: "bytes list"
  thread_calls :: "thread_call list"

text \<open>The port and baud rate of the configuration; the sink \<open>outgoing\<close> is \<open>outgoing_on\<close> below.\<close>

definition SerialSession_new :: "bytes \<Rightarrow> u32 \<Rightarrow> SerialSession" where
  "SerialSession_new cfg_port cfg_baudrate =
     \<lparr>serialPort = Serial_new, session_port = cfg_port, session_baudrate = cfg_baudrate,
      rxdBuffer = [], incoming = [], thread_calls = []\<rparr>"

definition outgoing_on :: "os \<Rightarrow> bytes \<Rightarrow> SerialSession \<Rightarrow> SerialSession option" where
  "outgoing_on os data s =
     (case Serial_txd os data (serialPort s) of
        None \<Rightarrow> None | Some (_, p) \<Rightarrow> Some (s\<lparr>serialPort := p\<rparr>))"

definition SerialSession_init :: "SerialSession \<Rightarrow> bool \<times> SerialSession" where
  "SerialSession_init s =
     (let (_, p) = Serial_set_port (session_port s) (serialPort s);
          (_, p) = Serial_set_baudrate (session_baudrate s) p;
          (_, p) = Serial_init p
      in (True, s\<lparr>serialPort := p\<rparr>))"

definition SerialSession_connect :: "os \<Rightarrow> SerialSession \<Rightarrow> bool \<times> SerialSession" where
  "SerialSession_connect os s =
     (let (_, p) = Serial_connect os (serialPort s);
          s = s\<lparr>serialPort := p\<rparr>;
          s = s\<lparr>thread_calls := thread_calls s @ [AddReadInvoker (serial_fd (serialPort s))]\<rparr>;
          s = s\<lparr>thread_calls := thread_calls s @ [AddErrorInvoker (serial_fd (serialPort s))]\<rparr>
      in (True, s))"

definition SerialSession_disconnect :: "os \<Rightarrow> SerialSession \<Rightarrow> bool \<times> SerialSession" where
  "SerialSession_disconnect os s =
     (let s = s\<lparr>thread_calls := thread_calls s @ [DeleteInvoker (serial_fd (serialPort s))]\<rparr>;
          (_, p) = Serial_disconnect os (serialPort s)
      in (True, s\<lparr>serialPort := p\<rparr>))"

definition SerialSession_invoke :: "os \<Rightarrow> SerialSession \<Rightarrow> SerialSession option" where
  "SerialSession_invoke os s =
     (case Serial_rxd os (serialPort s) of
        None \<Rightarrow> None
      | Some (rc, buf, p) \<Rightarrow>
          let s = s\<lparr>serialPort := p, rxdBuffer := buf\<rparr> in
          if rc = 0 then
            (if rxdBuffer s = [] then Some s else Some (s\<lparr>incoming := incoming s @ [rxdBuffer s]\<rparr>))
          else Some s)"

definition SerialSession_onError :: "os \<Rightarrow> SerialSession \<Rightarrow> SerialSession" where
  "SerialSession_onError os s = snd (SerialSession_disconnect os s)"

definition SerialSession_fd :: "SerialSession \<Rightarrow> c_int" where
  "SerialSession_fd s = serial_fd (serialPort s)"

text \<open>The descriptors the thread watches for reading after its calls.\<close>

fun watch :: "thread_call \<Rightarrow> c_int set \<Rightarrow> c_int set" where
  "watch (AddReadInvoker fd) W = insert fd W"
| "watch (AddErrorInvoker fd) W = W"
| "watch (DeleteInvoker fd) W = W - {fd}"

definition watched :: "thread_call list \<Rightarrow> c_int set" where
  "watched cs = fold watch cs {}"

lemma watched_simps [simp]:
  "watched (cs @ ds) = fold watch ds (watched cs)" "watched [] = {}" "watched (c # cs) = fold watch cs (watch c {})"
  by (simp_all add: watched_def)

section \<open>Properties\<close>

text \<open>
  A wake-up of a connected session emits at most one chunk, and what it emits is exactly what
  the system delivered to the reads of that wake-up. It emits nothing when the reads end with an
  error, even when they delivered bytes before: those bytes are lost.
\<close>

theorem session_invoke_emits:
  assumes "SerialSession_invoke os s = Some s'" and "serial_connected (serialPort s)"
  shows "\<exists>cs rc. let out = delivered os (sys_calls (serialPort s)) cs in
    sys_calls (serialPort s') = sys_calls (serialPort s) @ cs \<and>
    Serial_rxd os (serialPort s) = Some (rc, out, serialPort s') \<and>
    incoming s' = incoming s @ (if rc = 0 \<and> out \<noteq> [] then [out] else [])"
proof -
  obtain rc out p where r: "Serial_rxd os (serialPort s) = Some (rc, out, p)"
    using assms(1) by (auto simp: SerialSession_invoke_def split: option.splits)
  then have "rxd_loop os [] (serialPort s) = Some (rc, out, p)"
    using assms(2) by (simp add: Serial_rxd_def)
  from serial_rxd_loop [OF this] obtain cs where
    "out = delivered os (sys_calls (serialPort s)) cs" "p = (serialPort s)\<lparr>sys_calls := sys_calls (serialPort s) @ cs\<rparr>"
    by auto
  with r assms(1) show ?thesis
    by (intro exI [of _ cs] exI [of _ rc]) (auto simp: SerialSession_invoke_def Let_def split: if_splits)
qed

definition demo_session :: SerialSession where
  "demo_session = (SerialSession_new [0x2F, 0x74] 9600)\<lparr>serialPort := demo_serial\<rparr>"

lemma session_invoke_emits_witness:
  "\<exists>cs rc. Serial_rxd demo_os demo_serial = Some (rc, delivered demo_os [] cs, demo_serial\<lparr>sys_calls := cs\<rparr>)"
proof -
  have "Serial_rxd demo_os demo_serial =
      Some (0, [0x41, 0x42], demo_serial\<lparr>sys_calls := [SysRead 3 1024, SysRead 3 1024]\<rparr>)"
    by (simp add: Serial_rxd_def rxd_loop.simps demo_serial_def Serial_new_def demo_os_def ret_def errno_def sys_def
        word_sless_alt Let_def)
  then have "SerialSession_invoke demo_os demo_session = Some (demo_session\<lparr>
      serialPort := demo_serial\<lparr>sys_calls := [SysRead 3 1024, SysRead 3 1024]\<rparr>, rxdBuffer := [0x41, 0x42],
      incoming := [[0x41, 0x42]]\<rparr>)"
    by (simp add: SerialSession_invoke_def demo_session_def SerialSession_new_def)
  from session_invoke_emits [OF this] show ?thesis
    by (auto simp: demo_session_def demo_serial_def Serial_new_def Let_def simp del: delivered.simps)
qed

text \<open>
  Starting and stopping. \<open>connect\<close> reports success whatever the port does, and registers the
  port's descriptor, which is \<open>-1\<close> after a failure; \<open>onError\<close> removes the registration of the
  descriptor, closes it and leaves the port unconnected without a descriptor.
\<close>

theorem session_connect_and_error:
  "(case SerialSession_connect os s of (ok, s') \<Rightarrow> ok \<and>
      serialPort s' = snd (Serial_connect os (serialPort s)) \<and>
      thread_calls s' = thread_calls s @ [AddReadInvoker (SerialSession_fd s'), AddErrorInvoker (SerialSession_fd s')] \<and>
      (fst (Serial_connect os (serialPort s)) \<noteq> 0 \<longrightarrow> SerialSession_fd s' = - 1)) \<and>
    thread_calls (SerialSession_onError os s) = thread_calls s @ [DeleteInvoker (SerialSession_fd s)] \<and>
    SerialSession_fd (SerialSession_onError os s) = - 1 \<and>
    \<not> serial_connected (serialPort (SerialSession_onError os s)) \<and>
    sys_calls (serialPort (SerialSession_onError os s)) = sys_calls (serialPort s) @ [SysClose (SerialSession_fd s)]"
  by (auto simp: SerialSession_connect_def SerialSession_onError_def SerialSession_disconnect_def
      SerialSession_fd_def Serial_disconnect_def Serial_connect_def abandon_def Let_def case_prod_beta)

lemma session_connect_and_error_witness:
  "thread_calls (snd (SerialSession_connect (demo_os\<lparr>sys_ret := \<lambda>_. - 1\<rparr>) demo_session)) =
    [AddReadInvoker (- 1), AddErrorInvoker (- 1)]"
  using session_connect_and_error [of "demo_os\<lparr>sys_ret := \<lambda>_. - 1\<rparr>" demo_session]
  by (auto simp: demo_session_def SerialSession_new_def Serial_connect_def ret_def errno_def Let_def demo_os_def
      EAGAIN_def split: prod.splits)

end
