(* ===== verification/Zenoh_Session.thy ===== *)
theory Zenoh_Session
  imports Zenoh_Api Broker_Protocol
begin

text \<open>
  The class \<open>zenoh::Session\<close> of \<open>src-pico/zenoh_session.h\<close> and \<open>src-pico/zenoh_session.cpp\<close>, an
  older front end to zenoh than \<open>BrokerZenoh\<close>: subscribers are kept by resource name, publishing
  needs no declaration and samples are emitted on \<open>incoming\<close> together with their key. Its table
  is a handle registry as well (theory \<open>Zenoh_Api\<close>).
\<close>

section \<open>State and operations\<close>

text \<open>The handler's argument is the session itself, of which there is one.\<close>

record Session =
  session_handle :: u64
  session_subscribers :: "(bytes \<times> u64) list"
  session_calls :: "unit zn_call list"
  session_incoming :: "(bytes \<times> bytes) list"

definition Session_new :: Session where
  "Session_new = \<lparr>session_handle = 0, session_subscribers = [], session_calls = [], session_incoming = []\<rparr>"

definition dataHandler :: "bytes \<Rightarrow> bytes \<Rightarrow> Session \<Rightarrow> Session" where
  "dataHandler sample_key sample_value s =
     s\<lparr>session_incoming := session_incoming s @ [(sample_key, sample_value)]\<rparr>"

definition Session_open :: "unit zenoh \<Rightarrow> Session \<Rightarrow> c_int \<times> Session" where
  "Session_open z s =
     (let s = (if session_handle s = 0
               then let (session, cs) = zn_ask (zn_open z) ZnOpen (session_calls s)
                    in s\<lparr>session_handle := session, session_calls := cs\<rparr>
               else s)
      in (if session_handle s = 0 then - 1 else 0, s))"

definition Session_close :: "Session \<Rightarrow> Session" where
  "Session_close s =
     (let s = s\<lparr>session_calls := session_calls s @
            map (\<lambda>tuple. ZnUndeclareSubscriber (snd tuple)) (session_subscribers s)\<rparr>
      in s\<lparr>session_subscribers := []\<rparr>)"

definition Session_subscribe :: "unit zenoh \<Rightarrow> bytes \<Rightarrow> Session \<Rightarrow> c_int \<times> Session" where
  "Session_subscribe z resource s =
     (case map_of (session_subscribers s) resource of
        None \<Rightarrow>
          let (sub, cs) = zn_ask (zn_declare_subscriber z)
                (ZnDeclareSubscriber (session_handle s) (Rname (c_string resource)) ()) (session_calls s);
              s = s\<lparr>session_calls := cs\<rparr>
          in if sub = 0 then (- 1, s)
             else (0, s\<lparr>session_subscribers := um_emplace resource sub (session_subscribers s)\<rparr>)
      | Some _ \<Rightarrow> (0, s))"

definition Session_publish :: "unit zenoh \<Rightarrow> bytes \<Rightarrow> bytes \<Rightarrow> Session \<Rightarrow> c_int \<times> Session" where
  "Session_publish z topic bs s =
     (let (rc, cs) = zn_ask (zn_write z) (ZnWrite (session_handle s) (Rname (c_string topic)) bs) (session_calls s)
      in (rc, s\<lparr>session_calls := cs\<rparr>))"

definition Session_resource :: "unit zenoh \<Rightarrow> bytes \<Rightarrow> Session \<Rightarrow> u64 \<times> Session" where
  "Session_resource z topic s =
     (let (rid, cs) = zn_ask (zn_declare_resource z)
            (ZnDeclareResource (session_handle s) (Rname (c_string topic))) (session_calls s)
      in (rid, s\<lparr>session_calls := cs\<rparr>))"

text \<open>\<open>replies\<close> are the keys and values that \<open>zn_query_collect\<close> returns.\<close>

definition Session_query :: "(bytes \<times> bytes) list \<Rightarrow> bytes \<Rightarrow> Session \<Rightarrow> (bytes \<times> bytes) list \<times> Session" where
  "Session_query replies uri s =
     (let s = s\<lparr>session_calls := session_calls s @ [ZnQueryCollect (session_handle s) (Rname (c_string uri))]\<rparr>
      in (foldl (\<lambda>result (key, val). result @ [(key, val)]) [] replies, s))"

lemmas session_defs = dataHandler_def Session_open_def Session_close_def Session_subscribe_def
  Session_publish_def Session_resource_def Session_query_def zn_ask_def

section \<open>Runs\<close>

inductive session_step :: "unit zenoh \<Rightarrow> Session \<Rightarrow> Session \<Rightarrow> bool" for z where
  open_: "Session_open z s = (rc, s') \<Longrightarrow> session_step z s s'"
| close: "session_step z s (Session_close s)"
| subscribe: "Session_subscribe z resource s = (rc, s') \<Longrightarrow> session_step z s s'"
| publish: "Session_publish z topic bs s = (rc, s') \<Longrightarrow> session_step z s s'"
| resource: "Session_resource z topic s = (rid, s') \<Longrightarrow> session_step z s s'"
| query: "Session_query replies uri s = (result, s') \<Longrightarrow> session_step z s s'"
| sample: "session_step z s (dataHandler sample_key sample_value s)"

definition session_registry :: "unit zenoh \<Rightarrow> Session \<Rightarrow> (bytes, u64) registry" where
  "session_registry z s = (session_subscribers s,
     declared_subscribers z (session_calls s), undeclared_subscribers (session_calls s))"

lemma session_simulates:
  assumes "session_step z s s'"
  shows "session_registry z s' = session_registry z s \<or>
    registry_step (session_registry z s) (session_registry z s')"
  using assms
proof cases
  case close
  then have "session_registry z s' = ([], declared_subscribers z (session_calls s),
      undeclared_subscribers (session_calls s) @ map snd (fst (session_registry z s)))"
    by (simp add: session_registry_def Session_close_def Let_def list_all_iff)
  then show ?thesis
    using registry_step.clear by (metis session_registry_def fst_conv)
qed (auto simp: session_registry_def session_defs declared_subscribers_def um_emplace_def
    registry_step.add Let_def split: option.splits if_splits)

interpretation sessions: handle_registry "session_registry z" "session_step z" for z
  by unfold_locales (rule session_simulates)

lemma session_handles_step:
  assumes "session_step z s s'" "0 \<notin> snd ` set (session_subscribers s)"
  shows "0 \<notin> snd ` set (session_subscribers s')"
  using assms by (induction rule: session_step.induct)
    (auto simp: session_defs Let_def um_emplace_def split: option.splits if_splits)

lemma session_handles:
  "(session_step z)\<^sup>*\<^sup>* s s' \<Longrightarrow> 0 \<notin> snd ` set (session_subscribers s) \<Longrightarrow> 0 \<notin> snd ` set (session_subscribers s')"
  by (induction rule: rtranclp_induct) (auto dest: session_handles_step)

section \<open>Properties\<close>

text \<open>
  C29: Accounting of the older session. In every reachable state the subscribers that zenoh has
  declared are exactly those undeclared and those in the table; the table has one non-null
  handle per resource.
\<close>

theorem session_handle_accounting:
  assumes "(session_step z)\<^sup>*\<^sup>* Session_new s"
  shows "mset (declared_subscribers z (session_calls s)) =
      mset (undeclared_subscribers (session_calls s)) + mset (map snd (session_subscribers s)) \<and>
    distinct (map fst (session_subscribers s)) \<and> 0 \<notin> snd ` set (session_subscribers s)"
proof -
  have "session_registry z Session_new = ([], [], [])"
    by (simp add: session_registry_def Session_new_def declared_subscribers_def)
  from sessions.accounting [OF assms this session_registry_def] session_handles [OF assms] show ?thesis
    by (simp add: Session_new_def)
qed

text \<open>A library that never fails, and a session that subscribes and closes.\<close>

definition session_zenoh :: "unit zenoh" where
  "session_zenoh = \<lparr>zn_open = \<lambda>_. 1, zn_declare_subscriber = \<lambda>cs. of_nat (length cs),
     zn_declare_resource = \<lambda>_. 2, zn_declare_publisher = \<lambda>_. 3, zn_write = \<lambda>_. 0\<rparr>"

definition busy_session :: Session where
  "busy_session = Session_close (snd (Session_subscribe session_zenoh [0x61] Session_new))"

lemma session_handle_accounting_witness:
  "mset (declared_subscribers session_zenoh (session_calls busy_session)) =
      mset (undeclared_subscribers (session_calls busy_session)) + mset (map snd (session_subscribers busy_session)) \<and>
    distinct (map fst (session_subscribers busy_session)) \<and> 0 \<notin> snd ` set (session_subscribers busy_session)"
proof (rule session_handle_accounting)
  show "(session_step session_zenoh)\<^sup>*\<^sup>* Session_new busy_session"
    unfolding busy_session_def
    by (rule rtranclp.rtrancl_into_rtrancl [rotated], rule session_step.close, rule r_into_rtranclp,
        rule session_step.subscribe, rule surjective_pairing)
qed

end
