(* ===== verification/Host_Start.thy ===== *)
theory Host_Start
  imports Host Serial_Session Zenoh_Session Util
begin

text \<open>
  What the host program does before its flows run: \<open>loadConfig\<close> and the start of \<open>main\<close> of
  \<open>src/proxy.cpp\<close>, \<open>loadFile\<close> of \<open>src/config.cpp\<close>, and the two \<open>scout\<close> functions, which log the
  zenoh processes that are found. The JSON document of ArduinoJson is a map from a group and a key
  to a value; the conversions \<open>as<std::string>\<close> and \<open>as<uint32_t>\<close>, which also turn a missing value
  into something, are the parameters \<open>as_string\<close> and \<open>as_uint32\<close>.
\<close>

section \<open>Files\<close>

text \<open>\<open>fread\<close> returns up to 256 bytes of what is left of the file.\<close>

function load_loop :: "bytes \<Rightarrow> bytes \<Rightarrow> bytes" where
  "load_loop content acc =
     (let buffer = take 256 content in
      if length buffer \<le> 0 then acc else load_loop (drop 256 content) (acc @ buffer))"
  by auto
termination by (relation "measure (\<lambda>(content, _). length content)") auto

declare load_loop.simps [simp del]

text \<open>A file that cannot be opened is \<open>None\<close>, and yields the bytes of \<open>{}\<close>.\<close>

definition loadFile :: "bytes option \<Rightarrow> bytes" where
  "loadFile file = (case file of None \<Rightarrow> [0x7B, 0x7D] | Some content \<Rightarrow> load_loop content [])"

section \<open>Configuration\<close>

datatype json = JString bytes | JInt c_int

type_synonym config = "string \<times> string \<Rightarrow> json option"

text \<open>\<open>atoi\<close>: blanks, a sign and the digits that follow.\<close>

definition atoi :: "bytes \<Rightarrow> c_int" where
  "atoi s =
     (let s = dropWhile (\<lambda>c. c = 0x20 \<or> 0x09 \<le> c \<and> c \<le> 0x0D) s;
          neg = (s \<noteq> [] \<and> hd s = 0x2D);
          s = (if s \<noteq> [] \<and> (hd s = 0x2D \<or> hd s = 0x2B) then tl s else s);
          val = foldl (\<lambda>n c. 10 * n + (uint c - 0x30)) 0 (takeWhile (\<lambda>c. 0x30 \<le> c \<and> c \<le> 0x39) s)
      in word_of_int (if neg then - val else val))"

definition loadConfig :: "bytes list \<Rightarrow> config" where
  "loadConfig argv =
     (let cfg = Map.empty;
          cfg = (if length argv > 1 then cfg((''serial'', ''port'') \<mapsto> JString (argv ! 1)) else cfg);
          cfg = (if length argv > 2 then cfg((''serial'', ''baudrate'') \<mapsto> JInt (atoi (argv ! 2))) else cfg)
      in cfg)"

section \<open>The start of the program\<close>

record ('e, 'i) Program =
  prog_serial :: SerialSession
  prog_host :: "('e, 'i) Host"

definition proxy_main_start ::
    "(json option \<Rightarrow> bytes) \<Rightarrow> (json option \<Rightarrow> u32) \<Rightarrow> os \<Rightarrow> u64 \<Rightarrow> MsgBase \<Rightarrow> 'e \<Rightarrow> 'i \<Rightarrow> bytes list \<Rightarrow> ('e, 'i) Program" where
  "proxy_main_start as_string as_uint32 os flag garbage enc it argv =
     (let config = loadConfig argv;
          serial = SerialSession_new (as_string (config (''serial'', ''port''))) (as_uint32 (config (''serial'', ''baudrate'')));
          host = Host_new flag garbage enc it;
          (_, serial) = SerialSession_init serial;
          (_, serial) = SerialSession_connect os serial;
          (_, b) = BrokerZenoh_init (broker (core (proxy host)))
      in \<lparr>prog_serial = serial, prog_host = host\<lparr>proxy := (proxy host)\<lparr>core := (core (proxy host))\<lparr>broker := b\<rparr>\<rparr>\<rparr>\<rparr>)"

section \<open>Scouting\<close>

datatype whatami = ZN_ROUTER | ZN_PEER | ZN_OTHER

record hello =
  hello_whatami :: whatami
  hello_pid :: "bytes option"
  hello_locators :: "bytes list"

datatype scout_line = LineHello string string | LineLocator bytes | LineNothing

definition scout_hello :: "(nat \<Rightarrow> string) \<Rightarrow> hello \<Rightarrow> scout_line list" where
  "scout_hello fmt h =
     (let pid = (case hello_pid h of None \<Rightarrow> [] | Some val \<Rightarrow> val) in
      [LineHello (if hello_whatami h = ZN_ROUTER then ''ZN_ROUTER'' else if hello_whatami h = ZN_PEER then ''ZN_PEER'' else ''OTHER'')
         (hexDump fmt pid [])] @ map LineLocator (hello_locators h))"

definition scout_lines :: "(nat \<Rightarrow> string) \<Rightarrow> hello list \<Rightarrow> scout_line list" where
  "scout_lines fmt hellos =
     (if length hellos > 0 then concat (map (scout_hello fmt) hellos) else [LineNothing])"

text \<open>The hellos are what \<open>zn_scout\<close> returns.\<close>

definition BrokerZenoh_scout :: "(nat \<Rightarrow> string) \<Rightarrow> hello list \<Rightarrow> 'cb BrokerZenoh \<Rightarrow> c_int \<times> scout_line list \<times> 'cb BrokerZenoh" where
  "BrokerZenoh_scout fmt hellos s = (0, scout_lines fmt hellos, s\<lparr>zn_calls := zn_calls s @ [ZnScout]\<rparr>)"

definition Session_scout :: "(nat \<Rightarrow> string) \<Rightarrow> hello list \<Rightarrow> Session \<Rightarrow> c_int \<times> scout_line list \<times> Session" where
  "Session_scout fmt hellos s = (0, scout_lines fmt hellos, s\<lparr>session_calls := session_calls s @ [ZnScout]\<rparr>)"

section \<open>Properties\<close>

lemma load_loop_reads: "load_loop content acc = acc @ content"
proof (induction content acc rule: load_loop.induct)
  case (1 content acc)
  then show ?case
    by (subst load_loop.simps) (auto simp: Let_def)
qed

text \<open>\<open>loadFile\<close> returns the whole content of a file that can be opened, whatever its length.\<close>

theorem loadFile_reads_all: "loadFile (Some content) = content"
  by (simp add: loadFile_def load_loop_reads)

end
