(* ===== verification/Host_Program.thy ===== *)
theory Host_Program
  imports Host_Start
begin

text \<open>
  The host program of \<open>src/proxy.cpp\<close> as it runs: the serial session, the pipeline of theory \<open>Host\<close>
  and the broker, joined by \<open>serial.incoming\<close> and \<open>serial.outgoing\<close>, from the system calls of a
  wake-up to the system calls that write the replies. The worker thread calls the session when its
  descriptor is readable or in error, and zenoh calls the callback of a subscriber. Nothing emits on
  \<open>serial.connected\<close>: the session declares it, and no code assigns it.
\<close>

section \<open>Steps\<close>

text \<open>The frames for \<open>serial.outgoing\<close>; a write that never ends is \<open>None\<close>.\<close>

fun write_out :: "os \<Rightarrow> bytes list \<Rightarrow> SerialSession \<Rightarrow> SerialSession option" where
  "write_out os [] s = Some s"
| "write_out os (frame # frames) s = Option.bind (outgoing_on os frame s) (write_out os frames)"

definition new_frames :: "'e Uplink \<Rightarrow> 'e Uplink \<Rightarrow> bytes list" where
  "new_frames u u' = drop (length (serial_out u)) (serial_out u')"

abbreviation prog_uplink :: "('e, 'i) Host \<Rightarrow> 'e Uplink" where
  "prog_uplink h \<equiv> uplink (core (proxy h))"

abbreviation prog_broker :: "('e, 'i) Program \<Rightarrow> 'e forward BrokerZenoh" where
  "prog_broker p \<equiv> broker (core (proxy (prog_host p)))"

text \<open>The chunk, if any, that a wake-up of the session emits.\<close>

definition heard :: "os \<Rightarrow> (nat \<Rightarrow> u64) \<Rightarrow> SerialSession \<Rightarrow> SerialSession \<Rightarrow> chunk list" where
  "heard os clk s s' = map (Pair clk) (drop (length (incoming s)) (incoming s'))"

text \<open>
  The session is readable. The frames sent while a chunk is handled are written after it: writing
  touches only the session, which the handlers do not see.
\<close>

definition program_readable ::
    "os \<Rightarrow> ('e, 'i) tinycbor \<Rightarrow> 'e forward Sub zenoh \<Rightarrow> c_int \<Rightarrow> (nat \<Rightarrow> u64) \<Rightarrow> ('e, 'i) Program \<Rightarrow>
      (chunk list \<times> ('e, 'i) Program outcome) option" where
  "program_readable os tc z junk clk p =
     (case SerialSession_invoke os (prog_serial p) of
        None \<Rightarrow> None
      | Some s \<Rightarrow>
          let chunks = heard os clk (prog_serial p) s in
          case run_chunks (serial_incoming tc z junk) chunks (prog_host p) of
            Inl e \<Rightarrow> Some (chunks, Inl e)
          | Inr h \<Rightarrow> map_option (\<lambda>s. (chunks, Inr \<lparr>prog_serial = s, prog_host = h\<rparr>))
              (write_out os (new_frames (prog_uplink (prog_host p)) (prog_uplink h)) s))"

text \<open>A sample for a subscriber of the broker.\<close>

definition program_sample :: "os \<Rightarrow> bytes \<Rightarrow> 'e forward Sub \<Rightarrow> ('e, 'i) Program \<Rightarrow> ('e, 'i) Program outcome option" where
  "program_sample os v sub p =
     (case subscribeHandler v sub (prog_uplink (prog_host p)) of
        Inl e \<Rightarrow> Some (Inl e)
      | Inr u \<Rightarrow>
          let h = prog_host p; h' = h\<lparr>proxy := (proxy h)\<lparr>core := (core (proxy h))\<lparr>uplink := u\<rparr>\<rparr>\<rparr>
          in map_option (\<lambda>s. Inr \<lparr>prog_serial = s, prog_host = h'\<rparr>)
               (write_out os (new_frames (prog_uplink h) u) (prog_serial p)))"

text \<open>The descriptor of the session is in error.\<close>

definition program_error :: "os \<Rightarrow> ('e, 'i) Program \<Rightarrow> ('e, 'i) Program" where
  "program_error os p = p\<lparr>prog_serial := SerialSession_onError os (prog_serial p)\<rparr>"

text \<open>The thread calls the session only for a descriptor it watches.\<close>

definition session_watched :: "('e, 'i) Program \<Rightarrow> bool" where
  "session_watched p \<longleftrightarrow> serial_fd (serialPort (prog_serial p)) \<in> watched (thread_calls (prog_serial p))"

inductive program_step ::
    "os \<Rightarrow> ('e, 'i) tinycbor \<Rightarrow> 'e forward Sub zenoh \<Rightarrow> ('e, 'i) Program \<Rightarrow> ('e, 'i) Program \<Rightarrow> bool" for os tc z where
  step_readable: "session_watched p \<Longrightarrow> program_readable os tc z junk clk p = Some (chunks, Inr p') \<Longrightarrow>
    program_step os tc z p p'"
| step_error: "session_watched p \<Longrightarrow> program_step os tc z p (program_error os p)"
| step_sample: "(i, sub) \<in> set (subscribers (prog_broker p)) \<Longrightarrow> program_sample os v sub p = Some (Inr p') \<Longrightarrow>
    program_step os tc z p p'"

text \<open>A row of wake-ups: what was read, and where the program is behind the last of them.\<close>

fun program_wakeups ::
    "os \<Rightarrow> ('e, 'i) tinycbor \<Rightarrow> 'e forward Sub zenoh \<Rightarrow> c_int \<Rightarrow> (nat \<Rightarrow> u64) list \<Rightarrow> ('e, 'i) Program \<Rightarrow>
      (chunk list \<times> ('e, 'i) Program outcome) option" where
  "program_wakeups os tc z junk [] p = Some ([], Inr p)"
| "program_wakeups os tc z junk (clk # clks) p =
     Option.bind (program_readable os tc z junk clk p) (\<lambda>(chunks, r).
       case r of
         Inl e \<Rightarrow> Some (chunks, Inl e)
       | Inr p \<Rightarrow> map_option (map_prod ((@) chunks) id) (program_wakeups os tc z junk clks p))"

section \<open>A line that works\<close>

text \<open>
  The promises of a serial device behind its driver: reading ends, and fails only when there is
  nothing to read; a write takes at least one byte.
\<close>

definition tty_responsive :: "os \<Rightarrow> bool" where
  "tty_responsive os \<longleftrightarrow>
     (\<forall>cs fd. \<exists>k. \<not> 0 <s sys_ret os (cs @ replicate (Suc k) (SysRead fd 1024))) \<and>
     (\<forall>cs fd. sys_ret os (cs @ [SysRead fd 1024]) <s 0 \<longrightarrow> sys_errno os (cs @ [SysRead fd 1024]) = EAGAIN) \<and>
     (\<forall>cs fd b. b \<noteq> [] \<longrightarrow> 0 < sint (sys_ret os (cs @ [SysWrite fd b])))"

lemma rxd_loop_succeeds:
  assumes "rxd_loop os out s = Some r" "tty_responsive os"
  shows "fst r = 0"
  using assms
proof (induction rule: rxd_loop.raw_induct [rotated, consumes 1, case_names step])
  case (step rec os out s r)
  have "errno os (sys (SysRead (serial_fd s) 1024) s) = EAGAIN" if "ret os (sys (SysRead (serial_fd s) 1024) s) <s 0"
    using that step.prems by (simp add: tty_responsive_def ret_def errno_def)
  with step show ?case
    by (auto simp: Let_def split: if_split_asm)
qed

lemma txd_returns:
  assumes "tty_responsive os"
  shows "\<exists>s'. outgoing_on os frame s = Some s'"
proof (cases "serial_connected (serialPort s)")
  case True
  have "\<exists>p. txd_loop os frame (serialPort s) = Some (None, p)"
    by (rule serial_txd_loop_returns) (use assms in \<open>simp add: tty_responsive_def\<close>)
  with True show ?thesis by (auto simp: outgoing_on_def Serial_txd_def Let_def)
qed (simp add: outgoing_on_def Serial_txd_def)

lemma write_out_returns: "tty_responsive os \<Longrightarrow> \<exists>s'. write_out os frames s = Some s'"
proof (induction frames arbitrary: s)
  case (Cons f fs)
  from txd_returns [OF Cons.prems, of f s] Cons.IH [OF Cons.prems] show ?case by auto
qed simp

lemma invoke_returns:
  assumes "tty_responsive os"
  shows "\<exists>s'. SerialSession_invoke os s = Some s'"
proof -
  have "\<exists>r. rxd_loop os [] (serialPort s) = Some r"
    by (rule serial_rxd_loop_ends) (use assms in \<open>simp add: tty_responsive_def\<close>)
  then show ?thesis
    by (auto simp: SerialSession_invoke_def Serial_rxd_def Let_def)
qed

lemma readable_returns: "tty_responsive os \<Longrightarrow> \<exists>r. program_readable os tc z junk clk p = Some r"
  using invoke_returns [of os "prog_serial p"] write_out_returns [of os]
  by (fastforce simp: program_readable_def Let_def split: sum.split)

lemma wakeups_return: "tty_responsive os \<Longrightarrow> \<exists>r. program_wakeups os tc z junk clks p = Some r"
proof (induction clks arbitrary: p)
  case (Cons clk clks)
  from readable_returns [OF Cons.prems, of tc z junk clk p] obtain chunks r where
    "program_readable os tc z junk clk p = Some (chunks, r)" by auto
  with Cons.IH [OF Cons.prems, of "projr r"] show ?case
    by (cases r) auto
qed simp

section \<open>What a wake-up reads and writes\<close>

abbreviation calls_of :: "('e, 'i) Program \<Rightarrow> sys_call list" where
  "calls_of p \<equiv> sys_calls (serialPort (prog_serial p))"

definition short_frames :: "bytes list \<Rightarrow> bool" where
  "short_frames frames \<longleftrightarrow> (\<forall>f\<in>set frames. length f < 2 ^ 31)"

lemma short_frames_append [simp]: "short_frames (xs @ ys) \<longleftrightarrow> short_frames xs \<and> short_frames ys"
  by (auto simp: short_frames_def)

text \<open>From a session to one with more calls on its port.\<close>

definition called :: "os \<Rightarrow> SerialSession \<Rightarrow> sys_call list \<Rightarrow> SerialSession \<Rightarrow> bool" where
  "called os s cs s' \<longleftrightarrow> serialPort s' = (serialPort s)\<lparr>sys_calls := sys_calls (serialPort s) @ cs\<rparr>"

lemma called_trans: "called os s cs s' \<Longrightarrow> called os s' ds s'' \<Longrightarrow> called os s (cs @ ds) s''"
  by (simp add: called_def)

lemma outgoing_writes:
  assumes "outgoing_on os frame s = Some s'" "serial_connected (serialPort s)"
    and "tty_responsive os" "transfer_lawful os" "errno_lawful os"
  shows "\<exists>cs. called os s cs s' \<and> delivered os (sys_calls (serialPort s)) cs = [] \<and>
    (length frame < 2 ^ 31 \<longrightarrow> accepted os (sys_calls (serialPort s)) cs = frame)"
proof -
  have "\<exists>p. txd_loop os frame (serialPort s) = Some (None, p)"
    by (rule serial_txd_loop_returns) (use assms(3) in \<open>simp add: tty_responsive_def\<close>)
  then obtain p where p: "txd_loop os frame (serialPort s) = Some (None, p)" by blast
  from serial_txd_loop_no_reads [OF p] obtain cs where
    cs: "p = (serialPort s)\<lparr>sys_calls := sys_calls (serialPort s) @ cs\<rparr>" "\<forall>c\<in>set cs. \<not> is_read c" by auto
  let ?fin = "[SysFsync (serial_fd (serialPort s)), SysTcflush (serial_fd (serialPort s))]"
  have "s' = s\<lparr>serialPort := (serialPort s)\<lparr>sys_calls := sys_calls (serialPort s) @ cs @ ?fin\<rparr>\<rparr>"
    using assms(1,2) p cs(1) by (simp add: outgoing_on_def Serial_txd_def sys_def Let_def)
  moreover have "accepted os (sys_calls (serialPort s)) cs = frame" if "length frame < 2 ^ 31"
    using serial_txd_loop [OF p that assms(4,5)] cs(1) by (auto dest: arg_cong [where f = sys_calls])
  moreover have "delivered os (sys_calls (serialPort s)) (cs @ ?fin) = []"
    by (rule delivered_none) (use cs(2) in auto)
  ultimately show ?thesis
    by (intro exI [of _ "cs @ ?fin"]) (auto simp: called_def accepted_append)
qed

lemma write_out_writes:
  assumes "write_out os frames s = Some s'" "serial_connected (serialPort s)"
    and "tty_responsive os" "transfer_lawful os" "errno_lawful os"
  shows "\<exists>cs. called os s cs s' \<and> delivered os (sys_calls (serialPort s)) cs = [] \<and>
    (short_frames frames \<longrightarrow> accepted os (sys_calls (serialPort s)) cs = concat frames)"
  using assms(1,2)
proof (induction frames arbitrary: s)
  case Nil
  then show ?case by (intro exI [of _ "[]"]) (simp add: called_def)
next
  case (Cons f fs)
  then obtain t where t: "outgoing_on os f s = Some t" "write_out os fs t = Some s'"
    by (auto simp: bind_eq_Some_conv)
  from outgoing_writes [OF t(1) Cons.prems(2) assms(3-5)] obtain cs where
    cs: "called os s cs t" "delivered os (sys_calls (serialPort s)) cs = []"
      "length f < 2 ^ 31 \<longrightarrow> accepted os (sys_calls (serialPort s)) cs = f" by blast
  then have "serial_connected (serialPort t)" "sys_calls (serialPort t) = sys_calls (serialPort s) @ cs"
    using Cons.prems(2) by (simp_all add: called_def)
  with Cons.IH [OF t(2)] obtain ds where
    "called os t ds s'" "delivered os (sys_calls (serialPort s) @ cs) ds = []"
    "short_frames fs \<longrightarrow> accepted os (sys_calls (serialPort s) @ cs) ds = concat fs" by auto
  with cs called_trans [OF cs(1)] show ?case
    by (intro exI [of _ "cs @ ds"]) (simp add: delivered_append accepted_append short_frames_def)
qed

lemma invoke_reads:
  assumes "SerialSession_invoke os s = Some s'" "serial_connected (serialPort s)" "tty_responsive os"
  shows "\<exists>cs. called os s cs s' \<and> accepted os (sys_calls (serialPort s)) cs = [] \<and>
    heard os clk s s' = (if delivered os (sys_calls (serialPort s)) cs = [] then []
      else [(clk, delivered os (sys_calls (serialPort s)) cs)])"
proof -
  obtain rc out p where r: "rxd_loop os [] (serialPort s) = Some (rc, out, p)"
    using assms(1,2) by (auto simp: SerialSession_invoke_def Serial_rxd_def split: option.splits)
  from serial_rxd_loop [OF r] obtain cs where
    "out = delivered os (sys_calls (serialPort s)) cs" "p = (serialPort s)\<lparr>sys_calls := sys_calls (serialPort s) @ cs\<rparr>"
    "\<forall>c\<in>set cs. c = SysRead (serial_fd (serialPort s)) 1024"
    by auto
  moreover have "rc = 0" using rxd_loop_succeeds [OF r assms(3)] by simp
  ultimately show ?thesis
    using assms(1,2) r accepted_none [of cs]
    by (intro exI [of _ cs])
      (auto simp: SerialSession_invoke_def Serial_rxd_def called_def heard_def Let_def split: if_split_asm)
qed

text \<open>From a program to one that has made the calls \<open>cs\<close>: what these read is what was handled, and they
  write what the pipeline has sent.\<close>

definition served ::
    "os \<Rightarrow> ('e, 'i) tinycbor \<Rightarrow> 'e forward Sub zenoh \<Rightarrow> c_int \<Rightarrow> chunk list \<Rightarrow> ('e, 'i) Program \<Rightarrow>
      ('e, 'i) Program outcome \<Rightarrow> bool" where
  "served os tc z junk chunks p r \<longleftrightarrow>
     (case run_chunks (serial_incoming tc z junk) chunks (prog_host p) of
        Inl e \<Rightarrow> r = Inl e
      | Inr h \<Rightarrow> \<exists>p' cs. r = Inr p' \<and> prog_host p' = h \<and> called os (prog_serial p) cs (prog_serial p') \<and>
          delivered os (calls_of p) cs = concat (map snd chunks) \<and>
          (\<forall>frames. serial_out (prog_uplink h) = serial_out (prog_uplink (prog_host p)) @ frames \<longrightarrow>
             short_frames frames \<longrightarrow> accepted os (calls_of p) cs = concat frames))"

lemma readable_serves:
  assumes "program_readable os tc z junk clk p = Some (chunks, r)" "serial_connected (serialPort (prog_serial p))"
    and "tty_responsive os" "transfer_lawful os" "errno_lawful os"
  shows "served os tc z junk chunks p r"
proof -
  obtain s where s: "SerialSession_invoke os (prog_serial p) = Some s" "chunks = heard os clk (prog_serial p) s"
    using assms(1) by (auto simp: program_readable_def Let_def split: option.splits sum.splits)
  from invoke_reads [OF s(1) assms(2,3), of clk] obtain cs where
    cs: "called os (prog_serial p) cs s" "accepted os (calls_of p) cs = []"
      "delivered os (calls_of p) cs = concat (map snd chunks)"
    using s(2) by (auto split: if_split_asm)
  show ?thesis
  proof (cases "run_chunks (serial_incoming tc z junk) chunks (prog_host p)")
    case (Inl e)
    with assms(1) s show ?thesis by (simp add: served_def program_readable_def)
  next
    case (Inr h)
    with assms(1) s obtain t where
      t: "write_out os (new_frames (prog_uplink (prog_host p)) (prog_uplink h)) s = Some t"
        "r = Inr \<lparr>prog_serial = t, prog_host = h\<rparr>"
      by (auto simp: program_readable_def)
    have "serial_connected (serialPort s)" "sys_calls (serialPort s) = calls_of p @ cs"
      using cs(1) assms(2) by (simp_all add: called_def)
    with write_out_writes [OF t(1) _ assms(3-5)] obtain ds where
      "called os s ds t" "delivered os (calls_of p @ cs) ds = []"
      "short_frames (new_frames (prog_uplink (prog_host p)) (prog_uplink h)) \<longrightarrow>
         accepted os (calls_of p @ cs) ds = concat (new_frames (prog_uplink (prog_host p)) (prog_uplink h))"
      by auto
    with t(2) cs called_trans [OF cs(1)] Inr show ?thesis
      unfolding served_def
      by (auto simp: delivered_append accepted_append new_frames_def intro!: exI [of _ "cs @ ds"])
  qed
qed

lemma served_append:
  assumes "served os tc z junk xs p (Inr p1)" "served os tc z junk ys p1 r"
  shows "served os tc z junk (xs @ ys) p r"
proof -
  from assms(1) obtain cs where
    cs: "run_chunks (serial_incoming tc z junk) xs (prog_host p) = Inr (prog_host p1)"
      "called os (prog_serial p) cs (prog_serial p1)" "delivered os (calls_of p) cs = concat (map snd xs)"
      "\<And>frames. serial_out (prog_uplink (prog_host p1)) = serial_out (prog_uplink (prog_host p)) @ frames \<Longrightarrow>
         short_frames frames \<Longrightarrow> accepted os (calls_of p) cs = concat frames"
    by (auto simp: served_def split: sum.splits)
  have calls: "calls_of p1 = calls_of p @ cs" using cs(2) by (simp add: called_def)
  have run: "run_chunks (serial_incoming tc z junk) (xs @ ys) (prog_host p) =
      run_chunks (serial_incoming tc z junk) ys (prog_host p1)"
    by (simp add: run_chunks_append cs(1))
  show ?thesis
  proof (cases "run_chunks (serial_incoming tc z junk) ys (prog_host p1)")
    case (Inl e)
    with assms(2) run show ?thesis by (simp add: served_def)
  next
    case (Inr h)
    with assms(2) obtain p2 ds where
      p2: "r = Inr p2" "prog_host p2 = h" "called os (prog_serial p1) ds (prog_serial p2)"
        "delivered os (calls_of p1) ds = concat (map snd ys)"
        "\<And>frames. serial_out (prog_uplink h) = serial_out (prog_uplink (prog_host p1)) @ frames \<Longrightarrow>
           short_frames frames \<Longrightarrow> accepted os (calls_of p1) ds = concat frames"
      by (auto simp: served_def)
    from run_incoming_extends [OF cs(1)] run_incoming_extends [OF Inr] obtain f1 f2 where
      f: "serial_out (prog_uplink (prog_host p1)) = serial_out (prog_uplink (prog_host p)) @ f1"
        "serial_out (prog_uplink h) = serial_out (prog_uplink (prog_host p1)) @ f2" by blast
    have "accepted os (calls_of p) (cs @ ds) = concat frames"
      if "serial_out (prog_uplink h) = serial_out (prog_uplink (prog_host p)) @ frames" "short_frames frames" for frames
    proof -
      have "frames = f1 @ f2" using that(1) f by simp
      with that(2) cs(4) [OF f(1)] p2(5) [OF f(2)] calls show ?thesis
        by (simp add: accepted_append)
    qed
    with p2 cs(3) calls called_trans [OF cs(2) p2(3)] run Inr show ?thesis
      unfolding served_def by (auto simp: delivered_append intro!: exI [of _ "cs @ ds"])
  qed
qed

lemma served_connected:
  "served os tc z junk chunks p (Inr p') \<Longrightarrow>
    serial_connected (serialPort (prog_serial p')) = serial_connected (serialPort (prog_serial p))"
  by (auto simp: served_def called_def split: sum.splits)

lemma wakeups_serve:
  assumes "program_wakeups os tc z junk clks p = Some (chunks, r)" "serial_connected (serialPort (prog_serial p))"
    and "tty_responsive os" "transfer_lawful os" "errno_lawful os"
  shows "served os tc z junk chunks p r"
  using assms(1,2)
proof (induction clks arbitrary: p chunks r)
  case Nil
  then show ?case by (auto simp: served_def called_def intro!: exI [of _ "[]"])
next
  case (Cons clk clks)
  from Cons.prems(1) obtain xs r1 where first: "program_readable os tc z junk clk p = Some (xs, r1)"
    by (auto simp: bind_eq_Some_conv)
  note serves = readable_serves [OF first Cons.prems(2) assms(3-5)]
  show ?case
  proof (cases r1)
    case (Inl e)
    with Cons.prems(1) first serves show ?thesis by simp
  next
    case (Inr p1)
    with Cons.prems(1) first obtain ys where
      "program_wakeups os tc z junk clks p1 = Some (ys, r)" "chunks = xs @ ys" by auto
    with Cons.IH [of p1 ys r] served_append [of os tc z junk xs p p1 ys r] serves Inr
      served_connected [of os tc z junk xs p p1] Cons.prems(2) show ?thesis by simp
  qed
qed

lemma replies_short:
  assumes "frames_of tc at 1024 xss out"
  shows "short_frames out"
proof -
  from assms obtain rs where rs: "out = map ppp_frame rs" "list_all2 (cbor_encodes tc at 1024) xss rs"
    by (auto simp: frames_of_def)
  have "length (ppp_frame bs) < 2 ^ 31" if "bs \<in> set rs" for bs
  proof -
    from rs(2) that have "length bs \<le> 1024"
      by (auto simp: list_all2_conv_all_nth in_set_conv_nth cbor_encodes_def)
    then show ?thesis using ppp_frame_length [of bs] by simp
  qed
  with rs(1) show ?thesis by (auto simp: short_frames_def)
qed

section \<open>Which descriptors are watched\<close>

lemma outgoing_keeps:
  assumes "outgoing_on os frame s = Some s'"
  shows "thread_calls s' = thread_calls s \<and> serial_fd (serialPort s') = serial_fd (serialPort s) \<and>
    (\<not> serial_connected (serialPort s) \<longrightarrow> s' = s)"
proof (cases "serial_connected (serialPort s)")
  case True
  with assms obtain e p where p: "txd_loop os frame (serialPort s) = Some (e, p)"
    by (auto simp: outgoing_on_def Serial_txd_def split: option.splits)
  from serial_txd_loop_no_reads [OF p] have "serial_fd p = serial_fd (serialPort s)" by auto
  with assms True p show ?thesis
    by (cases e) (auto simp: outgoing_on_def Serial_txd_def sys_def Let_def)
next
  case False
  with assms show ?thesis by (simp add: outgoing_on_def Serial_txd_def)
qed

lemma write_out_keeps:
  "write_out os frames s = Some s' \<Longrightarrow> thread_calls s' = thread_calls s \<and>
    serial_fd (serialPort s') = serial_fd (serialPort s) \<and> (\<not> serial_connected (serialPort s) \<longrightarrow> s' = s)"
proof (induction frames arbitrary: s)
  case (Cons f fs)
  then obtain t where t: "outgoing_on os f s = Some t" "write_out os fs t = Some s'"
    by (auto simp: bind_eq_Some_conv)
  from outgoing_keeps [OF t(1)] Cons.IH [OF t(2)] show ?case by auto
qed simp

lemma invoke_keeps:
  assumes "SerialSession_invoke os s = Some s'"
  shows "thread_calls s' = thread_calls s \<and> serial_fd (serialPort s') = serial_fd (serialPort s)"
proof -
  obtain rc out p where r: "Serial_rxd os (serialPort s) = Some (rc, out, p)"
    using assms by (auto simp: SerialSession_invoke_def split: option.splits)
  then have "serial_fd p = serial_fd (serialPort s)"
    using serial_rxd_loop [of os "[]" "serialPort s" "(rc, out, p)"] by (auto simp: Serial_rxd_def split: if_splits)
  with assms r show ?thesis
    by (auto simp: SerialSession_invoke_def Let_def split: if_splits)
qed

definition watches_only_port :: "SerialSession \<Rightarrow> bool" where
  "watches_only_port s \<longleftrightarrow> watched (thread_calls s) \<subseteq> {serial_fd (serialPort s)}"

lemma started_watches:
  "watches_only_port (prog_serial (proxy_main_start as_string as_uint32 os flag garbage enc it argv))"
  by (simp add: watches_only_port_def proxy_main_start_def SerialSession_connect_def SerialSession_init_def
      SerialSession_new_def case_prod_beta Let_def)

lemma step_watches:
  assumes "program_step os tc z p p'" "watches_only_port (prog_serial p)"
  shows "watches_only_port (prog_serial p')"
  using assms(1)
proof cases
  case (step_readable junk clk chunks)
  then obtain s frames where s: "SerialSession_invoke os (prog_serial p) = Some s"
    "write_out os frames s = Some (prog_serial p')"
    by (auto simp: program_readable_def Let_def split: option.splits sum.splits)
  from invoke_keeps [OF s(1)] write_out_keeps [OF s(2)] assms(2) show ?thesis
    by (simp add: watches_only_port_def)
next
  case step_error
  then show ?thesis
    using assms(2)
    by (auto simp: watches_only_port_def program_error_def SerialSession_onError_def SerialSession_disconnect_def
        case_prod_beta Let_def)
next
  case (step_sample i sub v)
  then obtain u where "write_out os (new_frames (prog_uplink (prog_host p)) u) (prog_serial p) = Some (prog_serial p')"
    by (auto simp: program_sample_def Let_def split: sum.splits)
  from write_out_keeps [OF this] assms(2) show ?thesis
    by (simp add: watches_only_port_def)
qed

text \<open>The states behind an error of the line.\<close>

definition line_lost :: "os \<Rightarrow> ('e, 'i) Program \<Rightarrow> ('e, 'i) Program \<Rightarrow> bool" where
  "line_lost os p q \<longleftrightarrow> prog_serial q = prog_serial (program_error os p) \<and> \<not> session_watched q \<and>
     \<not> serial_connected (serialPort (prog_serial q)) \<and> serial_fd (serialPort (prog_serial q)) = - 1 \<and>
     prog_broker q = prog_broker p"

lemma error_loses_line: "watches_only_port (prog_serial p) \<Longrightarrow> line_lost os p (program_error os p)"
  by (auto simp: line_lost_def watches_only_port_def session_watched_def program_error_def SerialSession_onError_def
      SerialSession_disconnect_def Serial_disconnect_def Let_def)

lemma line_stays_lost:
  assumes "program_step os tc z q q'" "line_lost os p q"
  shows "line_lost os p q'"
  using assms(1)
proof cases
  case (step_sample i sub v)
  then obtain u where u: "write_out os (new_frames (prog_uplink (prog_host q)) u) (prog_serial q) = Some (prog_serial q')"
    "prog_broker q' = prog_broker q"
    by (auto simp: program_sample_def Let_def split: sum.splits)
  have "prog_serial q' = prog_serial q"
    using write_out_keeps [OF u(1)] assms(2) unfolding line_lost_def by blast
  with u(2) assms(2) show ?thesis
    unfolding line_lost_def session_watched_def by metis
qed (use assms(2) in \<open>simp_all add: line_lost_def\<close>)

section \<open>Properties\<close>

text \<open>
  C7: From system calls to system calls. On a serial device that works, any row of wake-ups of the
  program returns. When the bytes read in them are a stream of frames, in time, that encode a list of
  messages, nothing faults, the broker ends in the state that the messages lead to, in order, and the
  bytes the system has accepted meanwhile are exactly the frames of the replies.
\<close>

theorem program_serves_device:
  assumes "cbor_channel tc open_array at item_size 1024 1024"
    and "message_bytes item_size (items_MsgConnect connected_reply) \<le> 1024"
    and "proxy_ok 1024 1024 (proxy (prog_host p))" and "inputFrame (bytesToFrame (prog_host p)) = []"
    and "serial_connected (serialPort (prog_serial p))"
    and "tty_responsive os" and "transfer_lawful os" and "errno_lawful os"
    and "list_all2 (cbor_encodes tc at 1024) (map client_items ms) bss"
  shows "\<exists>chunks r. program_wakeups os tc z junk clks p = Some (chunks, r) \<and>
    (timely (ucast FrameExtractor_frameTimeout) chunks (lastFrameFlag (bytesToFrame (prog_host p))) \<and>
     concat (map snd chunks) = concat (map ppp_frame bss) \<longrightarrow>
     (\<exists>p' cs replies. r = Inr p' \<and> calls_of p' = calls_of p @ cs \<and>
        delivered os (calls_of p) cs = concat (map ppp_frame bss) \<and>
        prog_broker p' = fold (broker_effect z (forward_sample tc)) ms (prog_broker p) \<and>
        frames_of tc at 1024 (concat (map reply_items ms)) replies \<and>
        accepted os (calls_of p) cs = concat replies))"
proof -
  from wakeups_return [OF assms(6), of tc z junk clks p] obtain chunks r where
    run: "program_wakeups os tc z junk clks p = Some (chunks, r)" by auto
  note serves = wakeups_serve [OF run assms(5-8)]
  show ?thesis
  proof (rule exI [of _ chunks], rule exI [of _ r], rule conjI [OF run], rule impI)
    assume stream: "timely (ucast FrameExtractor_frameTimeout) chunks (lastFrameFlag (bytesToFrame (prog_host p))) \<and>
      concat (map snd chunks) = concat (map ppp_frame bss)"
    from line_serves [OF assms(1-3) _ assms(4) _ assms(9), of chunks z junk] stream obtain h replies where
      h: "run_chunks (serial_incoming tc z junk) chunks (prog_host p) = Inr h"
        "broker (core (proxy h)) = fold (broker_effect z (forward_sample tc)) ms (prog_broker p)"
        "serial_out (prog_uplink h) = serial_out (prog_uplink (prog_host p)) @ replies"
        "frames_of tc at 1024 (concat (map reply_items ms)) replies"
      by auto
    from serves h(1) obtain p' cs where
      p': "r = Inr p'" "prog_host p' = h" "called os (prog_serial p) cs (prog_serial p')"
        "delivered os (calls_of p) cs = concat (map snd chunks)"
        "short_frames replies \<Longrightarrow> accepted os (calls_of p) cs = concat replies"
      using h(3) by (auto simp: served_def)
    show "\<exists>p' cs replies. r = Inr p' \<and> calls_of p' = calls_of p @ cs \<and>
        delivered os (calls_of p) cs = concat (map ppp_frame bss) \<and>
        prog_broker p' = fold (broker_effect z (forward_sample tc)) ms (prog_broker p) \<and>
        frames_of tc at 1024 (concat (map reply_items ms)) replies \<and>
        accepted os (calls_of p) cs = concat replies"
      using p' h stream replies_short [OF h(4)]
      by (intro exI [of _ p'] exI [of _ cs] exI [of _ replies]) (simp add: called_def)
  qed
qed

text \<open>
  A serial device that delivers the bytes of \<open>D\<close> one by one and takes one byte per write, and the
  program on it behind the connection of the port.
\<close>

definition script_os :: "bytes \<Rightarrow> os" where
  "script_os D = \<lparr>
     sys_ret = \<lambda>cs. if cs = [] then 0 else
       (case last cs of
          SysRead _ _ \<Rightarrow> if length (filter is_read (butlast cs)) < length D then 1 else - 1
        | SysWrite _ b \<Rightarrow> if b = [] then 0 else 1
        | _ \<Rightarrow> 0),
     sys_errno = \<lambda>_. EAGAIN,
     sys_data = \<lambda>cs. [D ! length (filter is_read (butlast cs))],
     sys_termios = \<lambda>_. \<lparr>c_iflag = 0, c_oflag = 0, c_cflag = 0, c_lflag = 0, c_speed = 0\<rparr>\<rparr>"

lemma script_os_lawful:
  "tty_responsive (script_os D)" "transfer_lawful (script_os D)" "errno_lawful (script_os D)"
proof -
  have "\<not> 0 <s sys_ret (script_os D) (cs @ replicate (Suc (length D)) (SysRead fd 1024))" for cs fd
  proof -
    have e: "cs @ replicate (Suc (length D)) (SysRead fd 1024) = (cs @ replicate (length D) (SysRead fd 1024)) @ [SysRead fd 1024]"
      by (simp add: replicate_append_same)
    show ?thesis unfolding e script_os_def by (simp add: butlast_append word_sless_alt)
  qed
  moreover have "sys_errno (script_os D) cs = EAGAIN" "b \<noteq> [] \<Longrightarrow> 0 < sint (sys_ret (script_os D) (cs @ [SysWrite fd b]))" for cs fd b
    by (simp_all add: script_os_def)
  ultimately show "tty_responsive (script_os D)"
    unfolding tty_responsive_def by blast
  show "transfer_lawful (script_os D)"
    unfolding transfer_lawful_def by (auto simp: script_os_def word_sless_alt Suc_le_eq split: sys_call.splits)
  show "errno_lawful (script_os D)"
    by (simp add: errno_lawful_def script_os_def EAGAIN_def)
qed

lemma script_rxd:
  assumes "length (filter is_read (sys_calls s)) \<le> length D"
  shows "\<exists>p. rxd_loop (script_os D) out s = Some (0, out @ drop (length (filter is_read (sys_calls s))) D, p)"
  using assms
proof (induction "length D - length (filter is_read (sys_calls s))" arbitrary: out s)
  case 0
  then show ?case
    by (subst rxd_loop.simps) (simp add: Let_def ret_def errno_def sys_def script_os_def word_sless_alt EAGAIN_def)
next
  case (Suc n)
  let ?k = "length (filter is_read (sys_calls s))" and ?s = "sys (SysRead (serial_fd s) 1024) s"
  from Suc.hyps(2) have k: "?k < length D" by simp
  have "n = length D - length (filter is_read (sys_calls ?s))" "length (filter is_read (sys_calls ?s)) \<le> length D"
    using Suc.hyps(2) by (simp_all add: sys_def)
  from Suc.hyps(1) [OF this, of "out @ [D ! ?k]"] obtain p where
    "rxd_loop (script_os D) (out @ [D ! ?k]) ?s = Some (0, (out @ [D ! ?k]) @ drop (Suc ?k) D, p)"
    by (auto simp: sys_def)
  then show ?case
    using k by (subst rxd_loop.simps) (simp add: Let_def ret_def sys_def script_os_def word_sless_alt Cons_nth_drop_Suc)
qed

definition wire_program :: "(wire_encoder, bytes) Program" where
  "wire_program = \<lparr>prog_serial = demo_session, prog_host = wire_host\<rparr>"

lemma script_chunks:
  assumes "program_wakeups (script_os D) tc z junk [clk] (wire_program\<lparr>prog_host := h\<rparr>) = Some (chunks, r)" "D \<noteq> []"
  shows "chunks = [(clk, D)]"
proof -
  have "length (filter is_read (sys_calls demo_serial)) = 0"
    by (simp add: demo_serial_def Serial_new_def)
  with script_rxd [of demo_serial D "[]"] obtain p where
    "SerialSession_invoke (script_os D) demo_session =
      Some (demo_session\<lparr>serialPort := p, rxdBuffer := D, incoming := incoming demo_session @ [D]\<rparr>)"
    using assms(2) by (auto simp: SerialSession_invoke_def Serial_rxd_def demo_session_def demo_serial_def)
  moreover obtain xs r1 where x: "program_readable (script_os D) tc z junk clk (wire_program\<lparr>prog_host := h\<rparr>) = Some (xs, r1)"
    using assms(1) by (auto simp: bind_eq_Some_conv)
  ultimately have "xs = [(clk, D)]"
    by (auto simp: program_readable_def wire_program_def heard_def Let_def split: sum.splits)
  with assms(1) x show ?thesis by (cases r1) auto
qed

lemma program_serves_device_witness:
  "let D = ppp_frame (wire_array (items_MsgConnect \<lparr>clientId = [0x41]\<rparr>)); os = script_os D in
    \<exists>p' cs replies. program_wakeups os wire numbering_zenoh 0 [\<lambda>_. 5] wire_program = Some ([(\<lambda>_. 5, D)], Inr p') \<and>
      calls_of p' = calls_of wire_program @ cs \<and>
      delivered os (calls_of wire_program) cs = D \<and>
      prog_broker p' = fold (broker_effect numbering_zenoh (forward_sample wire))
        [Connect \<lparr>clientId = [0x41]\<rparr>] (prog_broker wire_program) \<and>
      frames_of wire wire_at 1024 [items_MsgConnect connected_reply] replies \<and>
      accepted os (calls_of wire_program) cs = concat replies"
proof -
  let ?bs = "wire_array (items_MsgConnect \<lparr>clientId = [0x41]\<rparr>)"
  let ?os = "script_os (ppp_frame ?bs)"
  have port: "serial_connected (serialPort (prog_serial wire_program))"
    by (simp add: wire_program_def demo_session_def demo_serial_def)
  have host: "proxy_ok 1024 1024 (proxy (prog_host wire_program))" "inputFrame (bytesToFrame (prog_host wire_program)) = []"
    by (simp_all add: wire_program_def)
  have enc: "list_all2 (cbor_encodes wire wire_at 1024) (map client_items [Connect \<lparr>clientId = [0x41]\<rparr>]) [?bs]"
    by (simp add: wire_connect)
  from program_serves_device [where os = ?os and z = numbering_zenoh and junk = 0 and clks = "[\<lambda>_. 5]",
      OF wire.cbor_channel_axioms connected_fits host port script_os_lawful enc]
  obtain chunks r where run: "program_wakeups ?os wire numbering_zenoh 0 [\<lambda>_. 5] wire_program = Some (chunks, r)"
    "timely (ucast FrameExtractor_frameTimeout) chunks (lastFrameFlag (bytesToFrame (prog_host wire_program))) \<and>
     concat (map snd chunks) = concat (map ppp_frame [?bs]) \<longrightarrow>
     (\<exists>p' cs replies. r = Inr p' \<and> calls_of p' = calls_of wire_program @ cs \<and>
        delivered ?os (calls_of wire_program) cs = concat (map ppp_frame [?bs]) \<and>
        prog_broker p' = fold (broker_effect numbering_zenoh (forward_sample wire))
          [Connect \<lparr>clientId = [0x41]\<rparr>] (prog_broker wire_program) \<and>
        frames_of wire wire_at 1024 (concat (map reply_items [Connect \<lparr>clientId = [0x41]\<rparr>])) replies \<and>
        accepted ?os (calls_of wire_program) cs = concat replies)"
    by blast
  have "chunks = [(\<lambda>_. 5, ppp_frame ?bs)]"
    by (rule script_chunks [of _ wire numbering_zenoh 0 _ wire_host]) (use run(1) in \<open>simp_all add: wire_program_def ppp_frame_body\<close>)
  moreover have "timely (ucast FrameExtractor_frameTimeout) [(\<lambda>_. 5, ppp_frame ?bs)] l" for l
    by (rule timely_constant) (simp add: ppp_frame_body)
  ultimately show ?thesis
    using run unfolding Let_def by simp
qed

text \<open>
  C18: A lost line is never recovered. After the descriptor of the serial line was in error, the program
  never reads, writes or opens anything again: whatever happens, the session stays as the error left
  it, not connected. Nor are the device's subscriptions and publishers given up: the broker's state
  stays as it was, with every handle still declared, and samples are still encoded for nobody.
\<close>

theorem serial_loss_is_final:
  assumes "(program_step os tc z)\<^sup>*\<^sup>* (proxy_main_start as_string as_uint32 os flag garbage enc it argv) p"
    and "(program_step os tc z)\<^sup>*\<^sup>* (program_error os p) p'"
  shows "prog_serial p' = prog_serial (program_error os p) \<and>
    \<not> serial_connected (serialPort (prog_serial p')) \<and> serial_fd (serialPort (prog_serial p')) = - 1 \<and>
    prog_broker p' = prog_broker p"
proof -
  have "watches_only_port (prog_serial p)"
    using assms(1) by (induction rule: rtranclp_induct) (simp_all add: started_watches step_watches)
  then have "line_lost os p (program_error os p)"
    by (rule error_loses_line)
  with assms(2) have "line_lost os p p'"
    by (induction rule: rtranclp_induct) (auto intro: line_stays_lost)
  then show ?thesis unfolding line_lost_def by blast
qed

lemma serial_loss_is_final_witness:
  "let p = proxy_main_start (\<lambda>_. [0x2F]) (\<lambda>_. 9600) demo_os 0 \<lparr>msgType = 0\<rparr> (0, [], False) [] [] :: (wire_encoder, bytes) Program in
    serial_connected (serialPort (prog_serial p)) \<and> \<not> serial_connected (serialPort (prog_serial (program_error demo_os p))) \<and>
    prog_broker (program_error demo_os p) = prog_broker p"
proof -
  let ?p = "proxy_main_start (\<lambda>_. [0x2F]) (\<lambda>_. 9600) demo_os 0 \<lparr>msgType = 0\<rparr> (0, [], False) [] [] :: (wire_encoder, bytes) Program"
  have "serial_connected (serialPort (prog_serial ?p))"
    by (simp add: proxy_main_start_def SerialSession_connect_def SerialSession_init_def SerialSession_new_def
        Serial_set_port_def Serial_set_baudrate_def Serial_init_def Serial_new_def Serial_connect_def modeInfo_def
        demo_os_def ret_def sys_def word_sless_alt case_prod_beta Let_def)
  with serial_loss_is_final [of demo_os wire numbering_zenoh "\<lambda>_. [0x2F]" "\<lambda>_. 9600" 0 "\<lparr>msgType = 0\<rparr>" "(0, [], False)" "[]" "[]" ?p,
      OF rtranclp.rtrancl_refl rtranclp.rtrancl_refl]
  show ?thesis by (simp add: Let_def)
qed

end
