(* ===== verification/Sockets.thy ===== *)
theory Sockets
  imports Util
begin

text \<open>
  The TCP and UDP functions of \<open>src-pico/tcp.cpp\<close>, which replace zenoh-pico's. The network is a
  partner like the operating system of \<open>Serial\<close>: the calls made so far are a list, and the record
  \<open>net\<close> gives the return value, \<open>errno\<close> and data as functions of that list. Addresses are
  translated by \<open>inet_pton\<close>; a port is kept in host order.
\<close>

section \<open>Socket calls\<close>

datatype sock_opt = SoKeepalive c_int | SoLinger c_int c_int | SoRcvtimeo c_int | SoSndtimeo c_int

datatype sock_call =
    SkGetaddrinfo bytes "bytes option"
  | SkSocketStream
  | SkSocketDgram
  | SkSetsockopt c_int sock_opt
  | SkBind c_int u32 u16
  | SkConnect c_int u32 u16
  | SkClose c_int
  | SkShutdown c_int
  | SkSend c_int bytes
  | SkSendto c_int bytes
  | SkRecv c_int u64
  | SkRecvfrom c_int u64

text \<open>
  \<open>net_addr\<close> is the text that \<open>inet_ntop\<close> makes of a resolved address. The lease and the two error
  codes are constants of zenoh-pico, whose header also decides whether the members \<open>socket\<close> and
  \<open>error\<close> of a result share their memory: \<open>result_is_union\<close>.
\<close>

record net =
  net_ret :: "sock_call list \<Rightarrow> c_int"
  net_errno :: "sock_call list \<Rightarrow> c_int"
  net_data :: "sock_call list \<Rightarrow> bytes"
  net_addr :: "sock_call list \<Rightarrow> bytes"
  inet_pton :: "bytes \<Rightarrow> u32 option"
  session_lease :: c_int
  err_invalid_locator :: c_int
  err_tx_connection :: c_int
  result_is_union :: bool

definition sk :: "net \<Rightarrow> sock_call \<Rightarrow> sock_call list \<Rightarrow> c_int \<times> sock_call list" where
  "sk net c cs = (net_ret net (cs @ [c]), cs @ [c])"

text \<open>
  The result type: its tag, the socket and the error assigned last. No code reads the error, and
  every error exit assigns the socket after it.
\<close>

datatype result_tag = Res_OK | Res_ERR

record socket_result =
  res_tag :: result_tag
  res_socket :: c_int
  res_error :: "c_int option"

definition socket_ok :: "c_int \<Rightarrow> socket_result" where
  "socket_ok sock = \<lparr>res_tag = Res_OK, res_socket = sock, res_error = None\<rparr>"

definition socket_failed :: "c_int \<Rightarrow> socket_result" where
  "socket_failed err = \<lparr>res_tag = Res_ERR, res_socket = 0, res_error = Some err\<rparr>"

section \<open>Addresses\<close>

definition tcp_make_socket_address :: "net \<Rightarrow> bytes \<Rightarrow> c_int \<Rightarrow> (u32 \<times> u16) option" where
  "tcp_make_socket_address net addr port =
     (case inet_pton net addr of None \<Rightarrow> None | Some sin_addr \<Rightarrow> Some (sin_addr, ucast port))"

text \<open>
  The exit shared by the failed \<open>setsockopt\<close> calls: the error is assigned before the socket is
  read again to be closed.
\<close>

definition close_failed :: "net \<Rightarrow> c_int \<Rightarrow> sock_call list \<Rightarrow> socket_result \<times> sock_call list" where
  "close_failed net sock cs =
     (let err = net_errno net cs;
          sock = (if result_is_union net then err else sock);
          (_, cs) = sk net (SkClose sock) cs
      in (socket_failed err, cs))"

definition tcp_create_udp_socket ::
    "net \<Rightarrow> bytes \<Rightarrow> c_int \<Rightarrow> c_int \<Rightarrow> sock_call list \<Rightarrow> socket_result \<times> sock_call list" where
  "tcp_create_udp_socket net addr port timeout_usec cs =
     (let (sock, cs) = sk net SkSocketDgram cs in
      if sock <s 0 then (socket_failed sock, cs) else
      case inet_pton net addr of
        None \<Rightarrow> (socket_failed (err_invalid_locator net), cs)
      | Some sin_addr \<Rightarrow>
          let (rc, cs) = sk net (SkBind sock sin_addr (ucast port)) cs in
          if rc <s 0 then (socket_failed (err_invalid_locator net), cs) else
          let (rc, cs) = sk net (SkSetsockopt sock (SoRcvtimeo timeout_usec)) cs in
          if rc = - 1 then close_failed net sock cs else
          let (rc, cs) = sk net (SkSetsockopt sock (SoSndtimeo timeout_usec)) cs in
          if rc = - 1 then close_failed net sock cs else
          (socket_ok sock, cs))"

section \<open>Locators\<close>

text \<open>
  \<open>strtok\<close> with a set of one delimiter, on what is left of the string: the next token, if there is
  one, and the rest behind its delimiter.
\<close>

definition strtok :: "byte \<Rightarrow> bytes \<Rightarrow> bytes option \<times> bytes" where
  "strtok delim rest =
     (let s = dropWhile (\<lambda>c. c = delim) rest
      in if s = [] then (None, [])
         else (Some (takeWhile (\<lambda>c. c \<noteq> delim) s), tl (dropWhile (\<lambda>c. c \<noteq> delim) s)))"

definition is_space :: "byte \<Rightarrow> bool" where
  "is_space c \<longleftrightarrow> c = 0x20 \<or> 0x09 \<le> c \<and> c \<le> 0x0D"

definition is_digit :: "byte \<Rightarrow> bool" where
  "is_digit c \<longleftrightarrow> 0x30 \<le> c \<and> c \<le> 0x39"

text \<open>\<open>sscanf(s, "%d", &n)\<close>; the value \<open>None\<close> leaves \<open>n\<close> as it was.\<close>

definition scan_int :: "bytes \<Rightarrow> c_int option" where
  "scan_int s =
     (let s = dropWhile is_space s;
          neg = (s \<noteq> [] \<and> hd s = 0x2D);
          s = (if s \<noteq> [] \<and> (hd s = 0x2D \<or> hd s = 0x2B) then tl s else s);
          digits = takeWhile is_digit s;
          val = foldl (\<lambda>n c. 10 * n + (uint c - 0x30)) 0 digits
      in if digits = [] then None else Some (word_of_int (if neg then - val else val)))"

text \<open>The bytes of \<open>tcp\<close>.\<close>

definition tcp_protocol :: bytes where
  "tcp_protocol = [0x74, 0x63, 0x70]"

text \<open>
  Another protocol ends the process with \<open>exit(1)\<close>; a missing host or port dereferences a null
  pointer. When the name is not resolved, \<open>freeaddrinfo\<close> is called with the uninitialised \<open>res\<close>;
  a successful \<open>getaddrinfo\<close> yields a non-empty list. A port without a number leaves \<open>port\<close>
  uninitialised.
\<close>

definition tcp_open_tx_session ::
    "net \<Rightarrow> bytes \<Rightarrow> sock_call list \<Rightarrow> (socket_result \<times> sock_call list) outcome" where
  "tcp_open_tx_session net locator cs =
     (let (tx, l) = strtok 0x2F locator in
      case tx of None \<Rightarrow> Inl NullDeref | Some tx \<Rightarrow>
      if tx \<noteq> tcp_protocol then Inl ProcessExit else
      let (addr_name, l) = strtok 0x3A l in
      case addr_name of None \<Rightarrow> Inl NullDeref | Some addr_name \<Rightarrow>
      let (s_port, l) = strtok 0x3A l;
          (status, cs) = sk net (SkGetaddrinfo addr_name s_port) cs in
      if status \<noteq> 0 then Inl UninitRead else
      let ip_addr = net_addr net cs in
      case s_port of None \<Rightarrow> Inl NullDeref | Some s_port \<Rightarrow>
      case scan_int s_port of None \<Rightarrow> Inl UninitRead | Some port \<Rightarrow>
      let (sock, cs) = sk net SkSocketStream cs in
      if sock <s 0 then Inr (socket_failed sock, cs) else
      let (rc, cs) = sk net (SkSetsockopt sock (SoKeepalive 1)) cs in
      if rc = - 1 then Inr (close_failed net sock cs) else
      let (rc, cs) = sk net (SkSetsockopt sock (SoLinger 1 (session_lease net div 1000))) cs in
      if rc = - 1 then Inr (close_failed net sock cs) else
      case inet_pton net ip_addr of
        None \<Rightarrow> Inr (socket_failed (err_invalid_locator net), cs)
      | Some sin_addr \<Rightarrow>
          let (rc, cs) = sk net (SkConnect sock sin_addr (ucast port)) cs in
          if rc <s 0 then Inr (socket_failed (err_tx_connection net), cs)
          else Inr (socket_ok sock, cs))"

definition tcp_close_tx_session :: "net \<Rightarrow> c_int \<Rightarrow> sock_call list \<Rightarrow> sock_call list" where
  "tcp_close_tx_session net sock cs = snd (sk net (SkShutdown sock) cs)"

section \<open>The interface to scout on\<close>

record ifaddr =
  ifa_family_inet :: bool
  ifa_name :: bytes
  ifa_flags :: u32
  ifa_host :: bytes

text \<open>
  \<open>ifa_family_inet\<close>: the entry has an address of family \<open>AF_INET\<close>; \<open>ifa_host\<close> is what
  \<open>getnameinfo\<close> makes of it. \<open>iface\<close> and \<open>loopback\<close> point to the one buffer \<open>host\<close>: they are kept as
  whether they have been set, next to the content of the buffer.
\<close>

definition IFF_UP :: u32 where "IFF_UP = 0x1"
definition IFF_RUNNING :: u32 where "IFF_RUNNING = 0x40"
definition IFF_PROMISC :: u32 where "IFF_PROMISC = 0x100"
definition IFF_MULTICAST :: u32 where "IFF_MULTICAST = 0x1000"

definition eth_prefix :: bytes where "eth_prefix = [0x65, 0x6E]"
definition lo_prefix :: bytes where "lo_prefix = [0x6C, 0x6F]"

fun scout_loop :: "ifaddr list \<Rightarrow> bool \<times> bool \<times> bytes \<Rightarrow> bool \<times> bool \<times> bytes" where
  "scout_loop [] st = st"
| "scout_loop (current # rest) (iface, loopback, host) =
     (let st = (if ifa_family_inet current then
            if take 2 (ifa_name current) = eth_prefix then
              if ifa_flags current AND (IFF_MULTICAST OR IFF_UP OR IFF_RUNNING) \<noteq> 0 \<and>
                 ifa_flags current AND IFF_PROMISC = 0
              then (True, loopback, ifa_host current) else (iface, loopback, host)
            else if take 2 (ifa_name current) = lo_prefix then
              if ifa_flags current AND (IFF_UP OR IFF_RUNNING) \<noteq> 0 \<and>
                 ifa_flags current AND IFF_PROMISC = 0
              then (iface, True, ifa_host current) else (iface, loopback, host)
            else (iface, loopback, host)
          else (iface, loopback, host))
      in if fst st then st else scout_loop rest st)"

text \<open>
  \<open>None\<close> stands for the null pointer, returned when \<open>getifaddrs\<close> fails; an empty list dereferences
  null at once, and without any suitable interface \<open>strdup\<close> does.
\<close>

definition select_scout_iface :: "ifaddr list option \<Rightarrow> bytes option outcome" where
  "select_scout_iface ifap =
     (case ifap of
        None \<Rightarrow> Inr None
      | Some [] \<Rightarrow> Inl NullDeref
      | Some ifs \<Rightarrow>
          (case scout_loop ifs (False, False, []) of (iface, loopback, host) \<Rightarrow>
             if iface \<or> loopback then Inr (Some host) else Inl NullDeref))"

section \<open>Datagrams\<close>

text \<open>The slices of a write buffer; \<open>wb\<close> is what has been sent before them.\<close>

fun send_dgram_loop :: "net \<Rightarrow> c_int \<Rightarrow> bytes list \<Rightarrow> c_int \<Rightarrow> sock_call list \<Rightarrow> c_int \<times> sock_call list" where
  "send_dgram_loop net sock [] wb cs = (wb, cs)"
| "send_dgram_loop net sock (a # slices) wb cs =
     (let (res, cs) = sk net (SkSendto sock a) cs in
      if res \<le>s 0 then (- 1, cs) else send_dgram_loop net sock slices (wb + res) cs)"

definition tcp_send_dgram_to :: "net \<Rightarrow> c_int \<Rightarrow> bytes list \<Rightarrow> sock_call list \<Rightarrow> c_int \<times> sock_call list" where
  "tcp_send_dgram_to net sock wbf cs = send_dgram_loop net sock wbf 0 cs"

text \<open>A read buffer of zenoh-pico: the functions of it that are used.\<close>

record 'z zbuf_api =
  zbuf_space_left :: "'z \<Rightarrow> nat"
  zbuf_write :: "bytes \<Rightarrow> 'z \<Rightarrow> 'z"
  zbuf_get_wpos :: "'z \<Rightarrow> nat"
  zbuf_set_wpos :: "nat \<Rightarrow> 'z \<Rightarrow> 'z"

definition zbuf_receive ::
    "net \<Rightarrow> 'z zbuf_api \<Rightarrow> sock_call \<Rightarrow> 'z \<Rightarrow> sock_call list \<Rightarrow> c_int \<times> 'z \<times> sock_call list" where
  "zbuf_receive net zb c rbf cs =
     (let (rb, cs) = sk net c cs in
      if 0 <s rb then
        let rbf = zbuf_write zb (take (nat (sint rb)) (net_data net cs)) rbf
        in (rb, zbuf_set_wpos zb (zbuf_get_wpos zb rbf + nat (sint rb)) rbf, cs)
      else (rb, rbf, cs))"

definition tcp_recv_dgram_from ::
    "net \<Rightarrow> 'z zbuf_api \<Rightarrow> c_int \<Rightarrow> 'z \<Rightarrow> sock_call list \<Rightarrow> c_int \<times> 'z \<times> sock_call list" where
  "tcp_recv_dgram_from net zb sock rbf cs =
     zbuf_receive net zb (SkRecvfrom sock (of_nat (zbuf_space_left zb rbf))) rbf cs"

definition tcp_recv_zbuf ::
    "net \<Rightarrow> 'z zbuf_api \<Rightarrow> c_int \<Rightarrow> 'z \<Rightarrow> sock_call list \<Rightarrow> c_int \<times> 'z \<times> sock_call list" where
  "tcp_recv_zbuf net zb sock rbf cs =
     zbuf_receive net zb (SkRecv sock (of_nat (zbuf_space_left zb rbf))) rbf cs"

section \<open>The receive loop\<close>

text \<open>
  \<open>off\<close> is where \<open>ptr\<close> points in the caller's buffer \<open>buf\<close> of \<open>len\<close> bytes. The loop adds to the
  pointer all that has been received so far, not what the last call received, and takes an error
  return for a negative count.
\<close>

partial_function (option) recv_loop ::
    "net \<Rightarrow> c_int \<Rightarrow> c_int \<Rightarrow> int \<Rightarrow> bytes \<Rightarrow> sock_call list \<Rightarrow> (c_int \<times> bytes \<times> sock_call list) outcome option" where
  "recv_loop net sock n off buf cs =
     (let (rb, cs) = sk net (SkRecv sock (scast n)) cs in
      if 0 <s rb \<and> \<not> (0 \<le> off \<and> off + sint rb \<le> int (length buf)) then Some (Inl OutOfBounds) else
      let data = take (nat (sint rb)) (net_data net cs);
          buf = (if 0 <s rb then take (nat off) buf @ data @ drop (nat off + length data) buf else buf) in
      if rb = 0 then Some (Inr (- 1, buf, cs)) else
      let n = n - rb; off = off + (int (length buf) - sint n) in
      if 0 <s n then recv_loop net sock n off buf cs else Some (Inr (0, buf, cs)))"

definition tcp_recv_bytes ::
    "net \<Rightarrow> c_int \<Rightarrow> bytes \<Rightarrow> sock_call list \<Rightarrow> (c_int \<times> bytes \<times> sock_call list) outcome option" where
  "tcp_recv_bytes net sock buf cs = recv_loop net sock (of_nat (length buf)) 0 buf cs"

text \<open>The two lines that \<open>dump\<close> logs of what has been received.\<close>

definition tcp_dump :: "(nat \<Rightarrow> string) \<Rightarrow> string \<Rightarrow> bytes \<Rightarrow> string list" where
  "tcp_dump fmt prefix data = [prefix @ '' '' @ hexDump fmt data '' '', prefix @ '' '' @ charDump data]"

section \<open>The send loop\<close>

text \<open>The same pointer arithmetic on the slice \<open>bs\<close>, read from \<open>off\<close> on.\<close>

partial_function (option) send_loop ::
    "net \<Rightarrow> c_int \<Rightarrow> bytes \<Rightarrow> c_int \<Rightarrow> int \<Rightarrow> sock_call list \<Rightarrow> (c_int \<times> sock_call list) outcome option" where
  "send_loop net sock bs n off cs =
     (if \<not> (0 \<le> off \<and> 0 \<le> sint n \<and> off + sint n \<le> int (length bs)) then Some (Inl OutOfBounds) else
      let (wb, cs) = sk net (SkSend sock (take (nat (sint n)) (drop (nat off) bs))) cs in
      if wb \<le>s 0 then Some (Inr (- 1, cs)) else
      let n = n - wb; off = off + (int (length bs) - sint n) in
      if 0 <s n then send_loop net sock bs n off cs else Some (Inr (0, cs)))"

fun tcp_send_wbuf :: "net \<Rightarrow> c_int \<Rightarrow> bytes list \<Rightarrow> sock_call list \<Rightarrow> (c_int \<times> sock_call list) outcome option" where
  "tcp_send_wbuf net sock [] cs = Some (Inr (0, cs))"
| "tcp_send_wbuf net sock (bs # slices) cs =
     (case send_loop net sock bs (of_nat (length bs)) 0 cs of
        Some (Inr (rc, cs)) \<Rightarrow> if rc = 0 then tcp_send_wbuf net sock slices cs else Some (Inr (rc, cs))
      | r \<Rightarrow> r)"

end
