(* ===== verification/Socket_Loops.thy ===== *)
theory Socket_Loops
  imports Sockets
begin

text \<open>
  What the functions of \<open>Sockets\<close> do: the loops of \<open>_zn_recv_bytes\<close> and \<open>_zn_send_wbuf\<close>, which add to
  their pointer all that has been transferred so far instead of the last count, are right for at
  most two partial transfers; and which sockets \<open>_zn_open_tx_session\<close> leaves open.
\<close>

section \<open>Lawful transfers\<close>

text \<open>
  POSIX: \<open>recv\<close> and \<open>send\<close> of a positive number of bytes transfer at most that many and \<open>recv\<close>
  delivers as many as it says. Errors, which a signal can cause, are left out for \<open>recv\<close>.
\<close>

definition recv_lawful :: "net \<Rightarrow> bool" where
  "recv_lawful net \<longleftrightarrow> (\<forall>cs sock k. 0 < k \<longrightarrow> k < 2 ^ 31 \<longrightarrow>
     (\<exists>r \<le> k. net_ret net (cs @ [SkRecv sock (of_nat k)]) = of_nat r \<and>
       length (net_data net (cs @ [SkRecv sock (of_nat k)])) = r))"

definition send_lawful :: "net \<Rightarrow> bool" where
  "send_lawful net \<longleftrightarrow> (\<forall>cs sock bs. sint (net_ret net (cs @ [SkSend sock bs])) \<le> int (length bs))"

definition got :: "net \<Rightarrow> sock_call list \<Rightarrow> sock_call \<Rightarrow> nat" where
  "got net cs c = length (net_data net (cs @ [c]))"

lemma sint_of_nat: "k < 2 ^ 31 \<Longrightarrow> sint (of_nat k :: c_int) = int k"
  by (simp add: signed_of_nat signed_take_bit_int_eq_self)

lemma scast_of_nat: "k < 2 ^ 31 \<Longrightarrow> (scast (of_nat k :: c_int) :: u64) = of_nat k"
  by (metis of_int_of_nat_eq sint_of_nat scast_eq)

lemma of_nat_c_int_eq: "a < 2 ^ 31 \<Longrightarrow> b < 2 ^ 31 \<Longrightarrow> (of_nat a :: c_int) = of_nat b \<longleftrightarrow> a = b"
  by (metis sint_of_nat of_nat_eq_iff)

lemma recv_lawfulD:
  assumes "recv_lawful net" "0 < k" "k < 2 ^ 31"
  shows "net_ret net (cs @ [SkRecv sock (of_nat k)]) = of_nat (got net cs (SkRecv sock (of_nat k)))"
    "got net cs (SkRecv sock (of_nat k)) \<le> k"
  using assms unfolding recv_lawful_def got_def by blast+

section \<open>Receiving\<close>

lemma recv_loop_step:
  assumes law: "recv_lawful net" and k: "0 < k" "k \<le> length buf" "length buf < 2 ^ 31"
  shows "recv_loop net sock (of_nat k) (int off) buf cs =
    (let c = SkRecv sock (of_nat k); r = got net cs c; d = net_data net (cs @ [c]) in
     if r = 0 then Some (Inr (- 1, buf, cs @ [c]))
     else if length buf < off + r then Some (Inl OutOfBounds)
     else let buf' = take off buf @ d @ drop (off + r) buf
          in if r = k then Some (Inr (0, buf', cs @ [c]))
             else recv_loop net sock (of_nat (k - r)) (int (off + (length buf - (k - r)))) buf' (cs @ [c]))"
proof -
  let ?c = "SkRecv sock (of_nat k)"
  let ?r = "got net cs ?c"
  have k31: "k < 2 ^ 31" using k by simp
  note r = recv_lawfulD [OF law k(1) k31, of cs sock]
  have r31: "?r < 2 ^ 31" "k - ?r < 2 ^ 31" using r(2) k31 by simp_all
  have len: "take ?r (net_data net (cs @ [?c])) = net_data net (cs @ [?c])" "length (net_data net (cs @ [?c])) = ?r"
    by (simp_all add: got_def)
  have sub: "(of_nat k - of_nat ?r :: c_int) = of_nat (k - ?r)" using r(2) by (simp add: of_nat_diff)
  have pos: "0 <s (of_nat j :: c_int) \<longleftrightarrow> 0 < j" if "j < 2 ^ 31" for j
    unfolding word_sless_alt sint_of_nat [OF that] by simp
  have zero: "(of_nat ?r = (0 :: c_int)) \<longleftrightarrow> ?r = 0"
    using of_nat_c_int_eq [OF r31(1), of 0] by simp
  note body = recv_loop.simps [of net sock "of_nat k" "int off" buf cs, unfolded sk_def Let_def prod.case
      scast_of_nat [OF k31] r(1) sint_of_nat [OF r31(1)] pos [OF r31(1)] sub sint_of_nat [OF r31(2)]
      pos [OF r31(2)] zero nat_int len]
  show ?thesis
  proof (cases "?r = 0 \<or> length buf < off + ?r")
    case True
    then show ?thesis unfolding body Let_def by auto
  next
    case False
    then have *: "0 < ?r" "off + ?r \<le> length buf" by auto
    have off: "int (length buf - (k - ?r)) = int (length buf) - int (k - ?r)"
      using k by simp
    have "0 < k - ?r \<longleftrightarrow> ?r \<noteq> k" using r(2) by auto
    with * show ?thesis unfolding body Let_def by (simp add: len off)
  qed
qed

lemma recv_loop_lost:
  assumes "recv_lawful net" "0 < k" "k \<le> length buf" "length buf < 2 ^ 31" "length buf - k < off"
  shows "\<exists>r. recv_loop net sock (of_nat k) (int off) buf cs = Some r \<and>
    (r = Inl OutOfBounds \<or> (\<exists>buf' cs'. r = Inr (- 1, buf', cs')))"
  using assms
proof (induction k arbitrary: off buf cs rule: less_induct)
  case (less k)
  let ?c = "SkRecv sock (of_nat k)"
  let ?r = "got net cs ?c"
  have r: "?r \<le> k" using recv_lawfulD(2) less.prems by simp
  show ?case
  proof (cases "?r = 0 \<or> length buf < off + ?r")
    case True
    then show ?thesis using recv_loop_step [OF less.prems(1-4), of sock off cs] by (auto simp: Let_def)
  next
    case False
    let ?buf = "take off buf @ net_data net (cs @ [?c]) @ drop (off + ?r) buf"
    have len: "length ?buf = length buf" using False by (auto simp: got_def)
    have k: "?r \<noteq> k" using less.prems False by auto
    have "recv_loop net sock (of_nat k) (int off) buf cs =
      recv_loop net sock (of_nat (k - ?r)) (int (off + (length buf - (k - ?r)))) ?buf (cs @ [?c])"
      using recv_loop_step [OF less.prems(1-4), of sock off cs] False k by (simp add: Let_def)
    moreover have "\<exists>r. recv_loop net sock (of_nat (k - ?r)) (int (off + (length buf - (k - ?r)))) ?buf (cs @ [?c]) = Some r \<and>
      (r = Inl OutOfBounds \<or> (\<exists>buf' cs'. r = Inr (- 1, buf', cs')))"
      by (rule less.IH) (use less.prems False k r len in auto)
    ultimately show ?thesis by simp
  qed
qed

section \<open>Sending\<close>

definition put :: "net \<Rightarrow> sock_call list \<Rightarrow> sock_call \<Rightarrow> nat" where
  "put net cs c = nat (sint (net_ret net (cs @ [c])))"

lemma send_lawfulD:
  assumes "send_lawful net"
  shows "put net cs (SkSend sock bs) \<le> length bs"
  using assms by (simp add: send_lawful_def put_def nat_le_iff)

lemma send_loop_step:
  assumes law: "send_lawful net" and k: "k \<le> length bs" "length bs < 2 ^ 31" "off + k \<le> length bs"
  shows "send_loop net sock bs (of_nat k) (int off) cs =
    (let c = SkSend sock (take k (drop off bs)); r = put net cs c in
     if r = 0 then Some (Inr (- 1, cs @ [c]))
     else if r = k then Some (Inr (0, cs @ [c]))
     else send_loop net sock bs (of_nat (k - r)) (int (off + (length bs - (k - r)))) (cs @ [c]))"
proof -
  let ?c = "SkSend sock (take k (drop off bs))"
  let ?r = "put net cs ?c" and ?w = "net_ret net (cs @ [?c])"
  have k31: "k < 2 ^ 31" using k by simp
  have r: "?r \<le> k" using send_lawfulD [OF law, of cs sock "take k (drop off bs)"] by simp
  have r31: "k - ?r < 2 ^ 31" using k31 by simp
  have w: "?w \<le>s 0 \<longleftrightarrow> ?r = 0" by (simp add: put_def word_sle_eq)
  have sub: "of_nat k - ?w = of_nat (k - ?r)" if "?r \<noteq> 0"
  proof -
    have "?w = of_nat ?r" using that by (simp add: put_def word_eq_iff_signed [where 'a = int])
    then show ?thesis using r by (simp add: of_nat_diff)
  qed
  have off: "int (length bs - (k - ?r)) = int (length bs) - int (k - ?r)"
    using k by simp
  have pos: "0 <s (of_nat (k - ?r) :: c_int) \<longleftrightarrow> ?r \<noteq> k"
    unfolding word_sless_alt sint_of_nat [OF r31] using r by auto
  note body = send_loop.simps [of net sock bs "of_nat k" "int off" cs, unfolded sk_def Let_def prod.case
      sint_of_nat [OF k31] nat_int w]
  show ?thesis
    using k pos unfolding body Let_def by (cases "?r = 0") (simp_all add: sub sint_of_nat [OF r31] off add_diff_eq)
qed

lemma send_loop_lost:
  assumes "length bs - k < off" "0 < k" "k \<le> length bs" "length bs < 2 ^ 31"
  shows "send_loop net sock bs (of_nat k) (int off) cs = Some (Inl OutOfBounds)"
proof -
  have "k < 2 ^ 31" "\<not> int off + int k \<le> int (length bs)" using assms by simp_all
  with assms show ?thesis
    by (subst send_loop.simps) (simp add: sint_of_nat)
qed

text \<open>One slice: at most two sends.\<close>

lemma send_slice:
  assumes law: "send_lawful net" and len: "length bs < 2 ^ 31"
  shows "send_loop net sock bs (of_nat (length bs)) 0 cs =
    (let c = SkSend sock bs; r = put net cs c;
         d = SkSend sock (drop r bs); r' = put net (cs @ [c]) d in
     if r = 0 then Some (Inr (- 1, cs @ [c]))
     else if r = length bs then Some (Inr (0, cs @ [c]))
     else if r' = 0 then Some (Inr (- 1, cs @ [c, d]))
     else if r + r' = length bs then Some (Inr (0, cs @ [c, d]))
     else Some (Inl OutOfBounds))"
proof -
  let ?c = "SkSend sock bs"
  let ?r = "put net cs ?c"
  let ?d = "SkSend sock (drop ?r bs)"
  let ?r' = "put net (cs @ [?c]) ?d"
  have r: "?r \<le> length bs" "?r' \<le> length bs - ?r"
    using send_lawfulD [OF law, of cs sock bs] send_lawfulD [OF law, of "cs @ [?c]" sock "drop ?r bs"] by simp_all
  note first = send_loop_step [OF law order_refl len, of 0 sock cs, simplified]
  show ?thesis
  proof (cases "?r = 0 \<or> ?r = length bs")
    case True
    then show ?thesis using first by (auto simp: Let_def)
  next
    case False
    then have b: "length bs - ?r \<le> length bs" "?r + (length bs - ?r) \<le> length bs" "0 < length bs - ?r - ?r' \<or> ?r + ?r' = length bs"
      using r by auto
    note second = send_loop_step [OF law b(1) len b(2), of sock "cs @ [?c]"]
    have third: "?r' \<noteq> 0 \<Longrightarrow> ?r + ?r' \<noteq> length bs \<Longrightarrow>
      send_loop net sock bs (of_nat (length bs - ?r - ?r')) (int (?r + (length bs - (length bs - ?r - ?r')))) (cs @ [?c, ?d]) =
        Some (Inl OutOfBounds)"
      by (rule send_loop_lost) (use b False r len in auto)
    have "(?r' = length bs - ?r) \<longleftrightarrow> ?r + ?r' = length bs" using r by auto
    moreover have "send_loop net sock bs (of_nat (length bs)) 0 cs =
        send_loop net sock bs (of_nat (length bs - ?r)) (int ?r) (cs @ [?c])"
      using first False r by (simp add: Let_def)
    ultimately show ?thesis
      using second third False by (simp add: Let_def)
  qed
qed

text \<open>The bytes the network has taken in the calls \<open>cs\<close> made after \<open>h\<close>.\<close>

fun taken :: "net \<Rightarrow> sock_call list \<Rightarrow> sock_call list \<Rightarrow> bytes" where
  "taken net h [] = []"
| "taken net h (SkSend sock bs # cs) = take (put net h (SkSend sock bs)) bs @ taken net (h @ [SkSend sock bs]) cs"
| "taken net h (c # cs) = taken net (h @ [c]) cs"

lemma taken_append: "taken net h (cs @ ds) = taken net h cs @ taken net (h @ cs) ds"
  by (induction net h cs rule: taken.induct) simp_all

lemma send_slice_taken:
  assumes "send_lawful net" "length bs < 2 ^ 31"
  shows "\<exists>r. send_loop net sock bs (of_nat (length bs)) 0 cs = Some r \<and>
    (r = Inl OutOfBounds \<or> (\<exists>cs'. r = Inr (- 1, cs')) \<or>
     (\<exists>new. r = Inr (0, cs @ new) \<and> taken net cs new = bs \<and> length new \<le> 2))"
proof -
  let ?c = "SkSend sock bs"
  let ?r = "put net cs ?c"
  let ?d = "SkSend sock (drop ?r bs)"
  have "taken net cs [?c, ?d] = bs" if "?r + put net (cs @ [?c]) ?d = length bs"
    using that by simp
  moreover have "taken net cs [?c] = bs" if "?r = length bs"
    using that by simp
  ultimately show ?thesis
    unfolding send_slice [OF assms] Let_def by (auto intro!: exI [of _ "[?c]"] exI [of _ "[?c, ?d]"])
qed

section \<open>Sockets left open\<close>

fun open_sockets :: "net \<Rightarrow> sock_call list \<Rightarrow> sock_call list \<Rightarrow> c_int list" where
  "open_sockets net h [] = []"
| "open_sockets net h (c # cs) =
     (if (c = SkSocketStream \<or> c = SkSocketDgram) \<and> \<not> net_ret net (h @ [c]) <s 0 \<and>
         SkClose (net_ret net (h @ [c])) \<notin> set cs
      then net_ret net (h @ [c]) # open_sockets net (h @ [c]) cs
      else open_sockets net (h @ [c]) cs)"

lemma open_tx_sockets:
  "case tcp_open_tx_session net locator cs of
     Inl e \<Rightarrow> e \<in> {NullDeref, ProcessExit, UninitRead}
   | Inr (res, cs') \<Rightarrow> \<exists>new. cs' = cs @ new \<and>
       (case res_tag res of
          Res_OK \<Rightarrow> open_sockets net cs new = [res_socket res] \<and> (\<exists>a p. last new = SkConnect (res_socket res) a p)
        | Res_ERR \<Rightarrow> res_socket res = 0 \<and>
            (case last new of
               SkConnect sock _ _ \<Rightarrow> open_sockets net cs new = [sock]
             | SkSetsockopt sock _ \<Rightarrow> open_sockets net cs new = [sock] \<and> inet_pton net (net_addr net (cs @ [hd new])) = None
             | SkClose fd \<Rightarrow> if result_is_union net then fd = net_errno net (cs @ butlast new)
                 else open_sockets net cs new = []
             | c \<Rightarrow> open_sockets net cs new = [] \<and> c = SkSocketStream))"
  unfolding tcp_open_tx_session_def sk_def Let_def close_failed_def socket_ok_def socket_failed_def
  by (simp split: option.split prod.split)

lemma open_sockets_shutdown: "open_sockets net h (cs @ [SkShutdown sock]) = open_sockets net h cs"
  by (induction net h cs rule: open_sockets.induct) simp_all

section \<open>Interfaces\<close>

definition eth_suitable :: "ifaddr \<Rightarrow> bool" where
  "eth_suitable i \<longleftrightarrow> ifa_family_inet i \<and> take 2 (ifa_name i) = eth_prefix \<and>
     ifa_flags i AND (IFF_MULTICAST OR IFF_UP OR IFF_RUNNING) \<noteq> 0 \<and> ifa_flags i AND IFF_PROMISC = 0"

definition lo_suitable :: "ifaddr \<Rightarrow> bool" where
  "lo_suitable i \<longleftrightarrow> ifa_family_inet i \<and> take 2 (ifa_name i) = lo_prefix \<and>
     ifa_flags i AND (IFF_UP OR IFF_RUNNING) \<noteq> 0 \<and> ifa_flags i AND IFF_PROMISC = 0"

lemma find_append:
  "List.find P (xs @ ys) = (case List.find P xs of None \<Rightarrow> List.find P ys | Some x \<Rightarrow> Some x)"
  by (induction xs) simp_all

lemma prefixes_differ: "eth_prefix \<noteq> lo_prefix"
  by (simp add: eth_prefix_def lo_prefix_def)

lemma scout_loop_Cons:
  "scout_loop (i # rest) (False, loopback, host) =
    (if eth_suitable i then (True, loopback, ifa_host i)
     else if lo_suitable i then scout_loop rest (False, True, ifa_host i)
     else scout_loop rest (False, loopback, host))"
  using prefixes_differ by (simp add: eth_suitable_def lo_suitable_def)

lemma scout_loop_choice:
  "(case scout_loop ifs (False, loopback, host) of (eth, lo, h) \<Rightarrow>
      if eth \<or> lo then Inr (Some h) else Inl NullDeref) =
    (case List.find eth_suitable ifs of
       Some i \<Rightarrow> Inr (Some (ifa_host i))
     | None \<Rightarrow> (case List.find lo_suitable (rev ifs) of
         Some i \<Rightarrow> Inr (Some (ifa_host i)) | None \<Rightarrow> if loopback then Inr (Some host) else Inl NullDeref))"
proof (induction ifs arbitrary: loopback host)
  case (Cons i rest)
  show ?case
    unfolding scout_loop_Cons by (simp add: Cons.IH find_append split: option.split)
qed simp

section \<open>Properties\<close>

lemma part_bounds:
  assumes "r + r' < n" "0 < r" "n < (2 :: nat) ^ 31" "m = n" "m' = n"
  shows "0 < n - r - r'" "n - r - r' \<le> m" "m < 2 ^ 31" "m - (n - r - r') < r + (m' - (n - r - r'))"
  using assms by simp_all

text \<open>The second part is stored at its place, and if it is not the last one, the third is not.\<close>

lemma recv_second:
  assumes "recv_lawful net" "0 < r" "r < length b" "length b < 2 ^ 31"
  shows "let c = SkRecv sock (of_nat (length b - r)); r' = got net cs c;
      result = recv_loop net sock (of_nat (length b - r)) (int r) b cs
    in if r' = 0 then result = Some (Inr (- 1, b, cs @ [c]))
       else if r + r' = length b then result = Some (Inr (0, take r b @ net_data net (cs @ [c]), cs @ [c]))
       else result = Some (Inl OutOfBounds) \<or> (\<exists>buf' cs'. result = Some (Inr (- 1, buf', cs')))"
proof -
  let ?c = "SkRecv sock (of_nat (length b - r))"
  let ?r' = "got net cs ?c" and ?d = "net_data net (cs @ [?c])"
  have k: "0 < length b - r" "length b - r < 2 ^ 31" using assms by auto
  note r' = recv_lawfulD(2) [OF assms(1) k, of cs sock]
  note step = recv_loop_step [OF assms(1) k(1) diff_le_self assms(4), of sock r cs]
  have fits: "\<not> length b < r + ?r'" "(?r' = length b - r) \<longleftrightarrow> r + ?r' = length b"
    using r' assms(3) by auto
  show ?thesis
  proof (cases "?r' = 0 \<or> r + ?r' = length b")
    case True
    then show ?thesis using step fits k(1) by (auto simp: Let_def simp del: of_nat_diff)
  next
    case more: False
    let ?b = "take r b @ ?d @ drop (r + ?r') b"
    have sum: "r + ?r' < length b" using more fits r' assms(3) by linarith
    have d: "length ?d = ?r'" by (simp add: got_def)
    have len: "length ?b = length b"
      using sum assms(3) unfolding length_append length_take length_drop d by linarith
    note lost = recv_loop_lost [OF assms(1) part_bounds [OF sum assms(2,4) len refl], of sock "cs @ [?c]"]
    have "recv_loop net sock (of_nat (length b - r)) (int r) b cs =
        recv_loop net sock (of_nat (length b - r - ?r')) (int (r + (length b - (length b - r - ?r')))) ?b (cs @ [?c])"
      using step more fits by (simp add: Let_def del: of_nat_diff)
    with lost more show ?thesis unfolding Let_def by (auto simp only: if_False de_Morgan_disj simp_thms)
  qed
qed

text \<open>
  C32: Receiving exactly. \<open>_zn_recv_bytes\<close> returns on a network without errors. It fills the buffer
  with the received bytes, and returns 0, when they arrive in one or two parts; it returns \<open>-1\<close> at
  the end of the stream; with more parts it writes outside of the buffer, unless the stream ends first.
\<close>

theorem tcp_recv_bytes_parts:
  assumes "recv_lawful net" and "buf \<noteq> []" and "length buf < 2 ^ 31"
  shows "let c = SkRecv sock (of_nat (length buf)); r = got net cs c; data = net_data net (cs @ [c]);
      c' = SkRecv sock (of_nat (length buf - r)); r' = got net (cs @ [c]) c'; data' = net_data net (cs @ [c, c']);
      result = tcp_recv_bytes net sock buf cs
    in if r = 0 then result = Some (Inr (- 1, buf, cs @ [c]))
       else if r = length buf then result = Some (Inr (0, data, cs @ [c]))
       else if r' = 0 then result = Some (Inr (- 1, data @ drop r buf, cs @ [c, c']))
       else if r + r' = length buf then result = Some (Inr (0, data @ data', cs @ [c, c']))
       else result = Some (Inl OutOfBounds) \<or> (\<exists>buf' cs'. result = Some (Inr (- 1, buf', cs')))"
proof -
  let ?c = "SkRecv sock (of_nat (length buf))"
  let ?r = "got net cs ?c"
  let ?buf = "net_data net (cs @ [?c]) @ drop ?r buf"
  have pos: "0 < length buf" using assms(2) by simp
  note r = recv_lawfulD(2) [OF assms(1) pos assms(3), of cs sock]
  have data: "length (net_data net (cs @ [?c])) = ?r" by (simp add: got_def)
  have len: "length ?buf = length buf" using r data by simp
  note first = recv_loop_step [OF assms(1) pos order_refl assms(3), of sock 0 cs, simplified, folded tcp_recv_bytes_def]
  show ?thesis
  proof (cases "?r = 0 \<or> ?r = length buf")
    case True
    then show ?thesis using first r by (auto simp: Let_def tcp_recv_bytes_def)
  next
    case False
    then have more: "0 < ?r" "?r < length ?buf" "length ?buf < 2 ^ 31" using r assms(3) len by simp_all
    have run: "tcp_recv_bytes net sock buf cs = recv_loop net sock (of_nat (length buf - ?r)) (int ?r) ?buf (cs @ [?c])"
      using first False r by (simp add: Let_def tcp_recv_bytes_def)
    have "take ?r ?buf = net_data net (cs @ [?c])" using data by simp
    with recv_second [OF assms(1) more, of sock "cs @ [?c]"] run False show ?thesis
      unfolding Let_def len by (simp only: append_assoc append.simps de_Morgan_disj if_False simp_thms)
  qed
qed

lemma tcp_recv_bytes_parts_witness:
  "\<exists>net :: net. recv_lawful net \<and> tcp_recv_bytes net 3 [0, 0] [] = Some (Inr (0, [7, 7], [SkRecv 3 2, SkRecv 3 1]))"
proof -
  let ?net = "\<lparr>net_ret = \<lambda>cs. (case last cs of SkRecv _ k \<Rightarrow> if k = 0 then 0 else 1 | _ \<Rightarrow> 0), net_errno = \<lambda>_. 0,
    net_data = \<lambda>cs. (case last cs of SkRecv _ k \<Rightarrow> if k = 0 then [] else [7] | _ \<Rightarrow> []), net_addr = \<lambda>_. [],
    inet_pton = \<lambda>_. None, session_lease = 0, err_invalid_locator = - 1, err_tx_connection = - 2, result_is_union = True\<rparr>"
  have pos: "(of_nat k :: u64) \<noteq> 0" if "0 < k" "k < 2 ^ 31" for k
  proof -
    have "unat (of_nat k :: u64) = k" using that by (simp add: unat_of_nat)
    then show ?thesis using that by (metis unat_0 less_numeral_extra(3))
  qed
  have law: "recv_lawful ?net" unfolding recv_lawful_def using pos by (auto intro!: exI [of _ "1 :: nat"])
  moreover have "tcp_recv_bytes ?net 3 [0, 0] [] = Some (Inr (0, [7, 7], [SkRecv 3 2, SkRecv 3 1]))"
    using tcp_recv_bytes_parts [OF law, of "[0, 0]" 3 "[]"] by (simp add: got_def Let_def)
  ultimately show ?thesis by blast
qed

text \<open>
  C31: Sending a buffer. \<open>_zn_send_wbuf\<close> returns on a network that takes no more than it is given. When
  it returns 0, the network has taken exactly the slices, in order, with at most two calls of \<open>send\<close>
  each; otherwise it returns \<open>-1\<close>, or reads outside of a slice that is taken in more parts.
\<close>

theorem tcp_send_wbuf_delivers:
  assumes "send_lawful net" and "\<And>bs. bs \<in> set slices \<Longrightarrow> length bs < 2 ^ 31"
  shows "\<exists>r. tcp_send_wbuf net sock slices cs = Some r \<and>
    (r = Inl OutOfBounds \<or> (\<exists>cs'. r = Inr (- 1, cs')) \<or>
     (\<exists>new. r = Inr (0, cs @ new) \<and> taken net cs new = concat slices \<and> length new \<le> 2 * length slices))"
  using assms(2)
proof (induction slices arbitrary: cs)
  case (Cons bs slices)
  have "length bs < 2 ^ 31" using Cons.prems by simp
  from send_slice_taken [OF assms(1) this, of sock cs] consider
      "send_loop net sock bs (of_nat (length bs)) 0 cs = Some (Inl OutOfBounds)"
    | cs' where "send_loop net sock bs (of_nat (length bs)) 0 cs = Some (Inr (- 1, cs'))"
    | new where "send_loop net sock bs (of_nat (length bs)) 0 cs = Some (Inr (0, cs @ new))"
        "taken net cs new = bs" "length new \<le> 2"
    by blast
  then show ?case
  proof cases
    case (3 new)
    with Cons.IH [of "cs @ new"] Cons.prems show ?thesis
      by (fastforce simp: taken_append intro: exI [of _ "new @ _"])
  qed simp_all
qed simp

lemma tcp_send_wbuf_delivers_witness:
  "\<exists>net :: net. send_lawful net \<and> (\<exists>r. tcp_send_wbuf net 3 [[1, 2], [3]] [] = Some r \<and>
    (r = Inl OutOfBounds \<or> (\<exists>cs'. r = Inr (- 1, cs')) \<or>
     (\<exists>new. r = Inr (0, new) \<and> taken net [] new = [1, 2, 3] \<and> length new \<le> 4)))"
proof -
  let ?net = "\<lparr>net_ret = \<lambda>cs. (case last cs of SkSend _ bs \<Rightarrow> if bs = [] then 0 else 1 | _ \<Rightarrow> 0), net_errno = \<lambda>_. 0,
    net_data = \<lambda>_. [], net_addr = \<lambda>_. [], inet_pton = \<lambda>_. None, session_lease = 0,
    err_invalid_locator = - 1, err_tx_connection = - 2, result_is_union = True\<rparr>"
  have law: "send_lawful ?net" by (auto simp: send_lawful_def Suc_le_eq)
  have len: "length bs < 2 ^ 31" if "bs \<in> set [[1, 2], [3]]" for bs :: bytes using that by auto
  show ?thesis
    using tcp_send_wbuf_delivers [OF law len, of "[[1, 2], [3]]" 3 "[]"] law
    by (intro exI [of _ ?net]) (simp del: tcp_send_wbuf.simps)
qed

text \<open>
  C33: The sockets of a connection attempt. \<open>_zn_open_tx_session\<close> either ends the process or reads what
  is not there, or returns a result. A successful result holds the one socket left open. A failed one
  holds 0: the socket leaks when the address is invalid or the connection fails. After a failed
  \<open>setsockopt\<close> it is closed, unless the result's members share their memory, when the error number is
  closed instead.
\<close>

theorem tcp_open_tx_session_sockets:
  "case tcp_open_tx_session net locator cs of
     Inl e \<Rightarrow> e \<in> {NullDeref, ProcessExit, UninitRead}
   | Inr (res, cs') \<Rightarrow> \<exists>new. cs' = cs @ new \<and>
       (case res_tag res of
          Res_OK \<Rightarrow> open_sockets net cs new = [res_socket res] \<and> (\<exists>a p. last new = SkConnect (res_socket res) a p)
        | Res_ERR \<Rightarrow> res_socket res = 0 \<and>
            (case last new of
               SkConnect sock _ _ \<Rightarrow> open_sockets net cs new = [sock]
             | SkSetsockopt sock _ \<Rightarrow> open_sockets net cs new = [sock] \<and> inet_pton net (net_addr net (cs @ [hd new])) = None
             | SkClose fd \<Rightarrow> if result_is_union net then fd = net_errno net (cs @ butlast new)
                 else open_sockets net cs new = []
             | c \<Rightarrow> open_sockets net cs new = [] \<and> c = SkSocketStream))"
  by (rule open_tx_sockets)

text \<open>
  The interface to scout on. \<open>_zn_select_scout_iface\<close> returns the address of the first suitable
  Ethernet interface, or of the last suitable loopback interface when there is none; without either it
  dereferences a null pointer.
\<close>

theorem select_scout_iface_choice:
  "select_scout_iface (Some ifs) =
    (case List.find eth_suitable ifs of
       Some i \<Rightarrow> Inr (Some (ifa_host i))
     | None \<Rightarrow> (case List.find lo_suitable (rev ifs) of Some i \<Rightarrow> Inr (Some (ifa_host i)) | None \<Rightarrow> Inl NullDeref))"
  using scout_loop_choice [of ifs False "[]"]
  by (cases ifs) (simp_all add: select_scout_iface_def del: scout_loop.simps(2))

end
