(* ===== verification/Tcp_Session.thy ===== *)
theory Tcp_Session
  imports Socket_Loops Serial_Session
begin

text \<open>
  The class \<open>TcpSession\<close> of \<open>src-pico/tcp_session.h\<close> and \<open>src-pico/tcp_session.cpp\<close>: a TCP
  connection to the zenoh router whose descriptor is registered with the worker thread. The record
  keeps, next to the socket, the values emitted on \<open>incoming\<close> and \<open>connected\<close> in their order, the
  calls made to the thread and those made to the network. Nothing is emitted on \<open>disconnected\<close>.
\<close>

section \<open>State and operations\<close>

datatype tcp_emit = Incoming bytes | Connected bool

record TcpSession =
  tcp_socket :: c_int
  tcp_emitted :: "tcp_emit list"
  tcp_thread :: "thread_call list"
  tcp_net :: "sock_call list"

text \<open>The constructor leaves \<open>_socket\<close> uninitialised: \<open>garbage\<close> is what it happens to hold.\<close>

definition TcpSession_new :: "c_int \<Rightarrow> TcpSession" where
  "TcpSession_new garbage = \<lparr>tcp_socket = garbage, tcp_emitted = [], tcp_thread = [], tcp_net = []\<rparr>"

text \<open>The handler of the sink \<open>outgoing\<close>.\<close>

definition TcpSession_outgoing :: "net \<Rightarrow> bytes \<Rightarrow> TcpSession \<Rightarrow> TcpSession" where
  "TcpSession_outgoing net data s =
     (let (rc, cs) = sk net (SkSend (tcp_socket s) data) (tcp_net s) in s\<lparr>tcp_net := cs\<rparr>)"

text \<open>The bytes of \<open>tcp/localhost:7447\<close>.\<close>

definition router_locator :: bytes where
  "router_locator = [0x74, 0x63, 0x70, 0x2F, 0x6C, 0x6F, 0x63, 0x61, 0x6C, 0x68, 0x6F, 0x73, 0x74, 0x3A,
     0x37, 0x34, 0x34, 0x37]"

definition TcpSession_connect :: "net \<Rightarrow> TcpSession \<Rightarrow> (bool \<times> TcpSession) outcome" where
  "TcpSession_connect net s =
     seq (tcp_open_tx_session net router_locator (tcp_net s)) (\<lambda>(result, cs).
       let s = s\<lparr>tcp_net := cs\<rparr> in
       case res_tag result of
         Res_OK \<Rightarrow>
           let s = s\<lparr>tcp_socket := res_socket result\<rparr>;
               s = s\<lparr>tcp_thread := tcp_thread s @ [AddReadInvoker (tcp_socket s)]\<rparr>;
               s = s\<lparr>tcp_thread := tcp_thread s @ [AddErrorInvoker (tcp_socket s)]\<rparr>;
               s = s\<lparr>tcp_emitted := tcp_emitted s @ [Connected True]\<rparr>
           in Inr (False, s)
       | Res_ERR \<Rightarrow>
           let s = s\<lparr>tcp_emitted := tcp_emitted s @ [Connected False]\<rparr>;
               s = s\<lparr>tcp_thread := tcp_thread s @ [DeleteInvoker (tcp_socket s)]\<rparr>
           in Inr (True, s))"

definition TcpSession_disconnect :: "net \<Rightarrow> TcpSession \<Rightarrow> bool \<times> TcpSession" where
  "TcpSession_disconnect net s =
     (let s = s\<lparr>tcp_net := tcp_close_tx_session net (tcp_socket s) (tcp_net s)\<rparr>;
          s = s\<lparr>tcp_emitted := tcp_emitted s @ [Connected False]\<rparr>;
          s = s\<lparr>tcp_thread := tcp_thread s @ [DeleteInvoker (tcp_socket s)]\<rparr>
      in (True, s))"

definition TcpSession_invoke :: "net \<Rightarrow> TcpSession \<Rightarrow> TcpSession" where
  "TcpSession_invoke net s =
     (let (rb, cs) = sk net (SkRecv (tcp_socket s) 512) (tcp_net s); s = s\<lparr>tcp_net := cs\<rparr> in
      if 0 <s rb then
        let msg = take (nat (sint rb)) (net_data net cs)
        in s\<lparr>tcp_emitted := tcp_emitted s @ [Incoming msg]\<rparr>
      else if rb <s 0 then snd (TcpSession_disconnect net s)
      else snd (TcpSession_disconnect net s))"

definition TcpSession_onError :: "net \<Rightarrow> TcpSession \<Rightarrow> TcpSession" where
  "TcpSession_onError net s = snd (TcpSession_disconnect net s)"

section \<open>Life of a session\<close>

inductive tcp_step :: "net \<Rightarrow> TcpSession \<Rightarrow> TcpSession \<Rightarrow> bool" for net where
  step_connect: "TcpSession_connect net s = Inr (b, s') \<Longrightarrow> tcp_step net s s'"
| step_disconnect: "tcp_step net s (snd (TcpSession_disconnect net s))"
| step_send: "tcp_step net s (TcpSession_outgoing net data s)"
| step_invoke: "tcp_step net s (TcpSession_invoke net s)"
| step_error: "tcp_step net s (TcpSession_onError net s)"

text \<open>The last value emitted on \<open>connected\<close>; the descriptors watched are those of theory \<open>Serial_Session\<close>.\<close>

fun note_connected :: "tcp_emit \<Rightarrow> bool \<Rightarrow> bool" where
  "note_connected (Connected b) _ = b"
| "note_connected (Incoming _) b = b"

definition last_connected :: "tcp_emit list \<Rightarrow> bool" where
  "last_connected es = fold note_connected es False"

lemma last_connected_simps [simp]:
  "last_connected (es @ fs) = fold note_connected fs (last_connected es)" "last_connected [] = False"
  "last_connected (e # es) = fold note_connected es (note_connected e False)"
  by (simp_all add: last_connected_def)

lemma connect_cases:
  assumes "TcpSession_connect net s = Inr (b, s')"
  obtains (ok) cs sock where "\<not> b" "s' = \<lparr>tcp_socket = sock, tcp_emitted = tcp_emitted s @ [Connected True],
      tcp_thread = tcp_thread s @ [AddReadInvoker sock, AddErrorInvoker sock], tcp_net = cs\<rparr>"
      "\<exists>res. tcp_open_tx_session net router_locator (tcp_net s) = Inr (res, cs) \<and> res_tag res = Res_OK \<and> res_socket res = sock"
  | (failed) cs where "b" "s' = s\<lparr>tcp_emitted := tcp_emitted s @ [Connected False],
      tcp_thread := tcp_thread s @ [DeleteInvoker (tcp_socket s)], tcp_net := cs\<rparr>"
      "\<exists>res. tcp_open_tx_session net router_locator (tcp_net s) = Inr (res, cs) \<and> res_tag res = Res_ERR"
proof -
  obtain res cs where o: "tcp_open_tx_session net router_locator (tcp_net s) = Inr (res, cs)"
    using assms by (auto simp: TcpSession_connect_def seq_eq_Inr_iff)
  show ?thesis
  proof (cases "res_tag res")
    case Res_OK
    then show ?thesis using assms o by (intro ok) (auto simp: TcpSession_connect_def Let_def)
  next
    case Res_ERR
    then show ?thesis using assms o by (intro failed) (auto simp: TcpSession_connect_def Let_def)
  qed
qed

lemma disconnect_eq:
  "snd (TcpSession_disconnect net s) = s\<lparr>tcp_emitted := tcp_emitted s @ [Connected False],
     tcp_thread := tcp_thread s @ [DeleteInvoker (tcp_socket s)], tcp_net := tcp_net s @ [SkShutdown (tcp_socket s)]\<rparr>"
  by (simp add: TcpSession_disconnect_def tcp_close_tx_session_def sk_def Let_def)

lemma connect_watches:
  assumes "TcpSession_connect net s = Inr (b, s')"
  shows "last_connected (tcp_emitted s') \<longleftrightarrow> \<not> b" "tcp_socket s' \<in> watched (tcp_thread s') \<longleftrightarrow> \<not> b"
  using assms by (cases rule: connect_cases; simp)+

lemma tcp_step_watches:
  assumes "tcp_step net s s'" "last_connected (tcp_emitted s) \<longleftrightarrow> tcp_socket s \<in> watched (tcp_thread s)"
  shows "last_connected (tcp_emitted s') \<longleftrightarrow> tcp_socket s' \<in> watched (tcp_thread s')"
  using assms
  by (cases rule: tcp_step.cases)
    (auto simp: TcpSession_outgoing_def TcpSession_invoke_def TcpSession_onError_def sk_def disconnect_eq Let_def
      connect_watches)

section \<open>Properties\<close>

text \<open>
  C30: Connection state. In every state a session can reach, the last value emitted on \<open>connected\<close> is
  true exactly when the thread watches the session's socket.
\<close>

theorem tcp_session_watches_its_socket:
  assumes "(tcp_step net)\<^sup>*\<^sup>* (TcpSession_new garbage) s"
  shows "last_connected (tcp_emitted s) \<longleftrightarrow> tcp_socket s \<in> watched (tcp_thread s)"
  using assms
  by (induction rule: rtranclp_induct) (simp_all add: TcpSession_new_def tcp_step_watches)

lemma tcp_session_watches_its_socket_witness:
  "\<exists>net s. (tcp_step net)\<^sup>*\<^sup>* (TcpSession_new 7) s \<and> tcp_thread s = [DeleteInvoker 7] \<and>
    \<not> last_connected (tcp_emitted s) \<and> tcp_socket s \<notin> watched (tcp_thread s)"
proof -
  obtain net :: net where True by simp
  have r: "(tcp_step net)\<^sup>*\<^sup>* (TcpSession_new 7) (snd (TcpSession_disconnect net (TcpSession_new 7)))"
    by (intro r_into_rtranclp step_disconnect)
  from tcp_session_watches_its_socket [OF r] r show ?thesis
    by (intro exI [of _ net] exI [of _ "snd (TcpSession_disconnect net (TcpSession_new 7))"])
      (simp add: disconnect_eq TcpSession_new_def)
qed

text \<open>
  Connecting. \<open>connect\<close> returns true when the connection failed: then it emits false and removes
  the registration of the old socket, which it keeps. When it returns false it has emitted true, and its
  socket is the one left open; disconnecting shuts that socket down but leaves it open.
\<close>

theorem tcp_session_connect_and_disconnect:
  "case TcpSession_connect net s of
     Inl e \<Rightarrow> e \<in> {NullDeref, ProcessExit, UninitRead}
   | Inr (failed, s') \<Rightarrow>
       tcp_emitted s' = tcp_emitted s @ [Connected (\<not> failed)] \<and>
       (if failed then tcp_socket s' = tcp_socket s \<and> tcp_socket s' \<notin> watched (tcp_thread s')
        else tcp_socket s' \<in> watched (tcp_thread s') \<and>
          (\<exists>new. tcp_net s' = tcp_net s @ new \<and> open_sockets net (tcp_net s) new = [tcp_socket s'] \<and>
            (let s'' = snd (TcpSession_disconnect net s') in
             tcp_net s'' = tcp_net s @ new @ [SkShutdown (tcp_socket s')] \<and>
             open_sockets net (tcp_net s) (new @ [SkShutdown (tcp_socket s')]) = [tcp_socket s'] \<and>
             tcp_socket s' \<notin> watched (tcp_thread s''))))"
proof (cases "TcpSession_connect net s")
  case (Inl e)
  then have "tcp_open_tx_session net router_locator (tcp_net s) = Inl e"
    by (cases "tcp_open_tx_session net router_locator (tcp_net s)")
      (auto simp: TcpSession_connect_def Let_def split: result_tag.splits)
  then show ?thesis
    using Inl open_tx_sockets [where net = net and locator = router_locator and cs = "tcp_net s"] by simp
next
  case (Inr r)
  obtain failed s' where r: "r = (failed, s')" by (cases r)
  with Inr have "TcpSession_connect net s = Inr (failed, s')" by simp
  then show ?thesis
  proof (cases rule: connect_cases)
    case (ok cs sock)
    then obtain res where "tcp_open_tx_session net router_locator (tcp_net s) = Inr (res, cs)"
      "res_tag res = Res_OK" "res_socket res = sock" by blast
    with open_tx_sockets [where net = net and locator = router_locator and cs = "tcp_net s"]
    obtain new where "cs = tcp_net s @ new" "open_sockets net (tcp_net s) new = [sock]" by auto
    with ok show ?thesis
      unfolding Inr r by (simp add: disconnect_eq open_sockets_shutdown Let_def)
  next
    case failed
    then show ?thesis unfolding Inr r by simp
  qed
qed

text \<open>
  Connecting twice. When a connected session connects again, the socket it had stays watched
  and open after a disconnect: its events are then served with the socket of the new connection.
\<close>

theorem tcp_session_stale_watch:
  assumes "tcp_socket s \<in> watched (tcp_thread s)" and "TcpSession_connect net s = Inr (False, s')"
    and "tcp_socket s' \<noteq> tcp_socket s"
  shows "let s'' = snd (TcpSession_disconnect net s')
    in tcp_socket s \<in> watched (tcp_thread s'') \<and> \<not> last_connected (tcp_emitted s'') \<and> tcp_socket s'' = tcp_socket s'"
  using assms(2)
proof (cases rule: connect_cases)
  case (ok cs sock)
  then show ?thesis using assms(1,3) by (simp add: disconnect_eq)
qed simp

end
