(* ===== verification/Pico_Client.thy ===== *)
theory Pico_Client
  imports Framing Serial
begin

text \<open>
  The client side of the zenoh-pico tunnel, \<open>src_client/unix_serial.cpp\<close>: it replaces the TCP
  transport of zenoh-pico by frames on a serial line whose first byte is a command
  (\<open>src-pico/serial_protocol.h\<close>). The \<open>Serial\<close> class it is written against has a
  \<open>waitForRxd\<close> that the repository's does not have; here the line is the script of what the
  successive calls of \<open>rxd\<close> yield, after which it waits for ever (the value \<open>None\<close>).
\<close>

section \<open>Commands and state\<close>

definition TCP_OPEN :: byte where "TCP_OPEN = 0x4F"
definition TCP_CLOSE :: byte where "TCP_CLOSE = 0x43"
definition TCP_SEND :: byte where "TCP_SEND = 0x53"
definition TCP_RECV :: byte where "TCP_RECV = 0x52"
definition TCP_CONNECTED :: byte where "TCP_CONNECTED = 0x63"
definition TCP_DISCONNECTED :: byte where "TCP_DISCONNECTED = 0x64"

lemmas tcp_commands = TCP_OPEN_def TCP_CLOSE_def TCP_SEND_def TCP_RECV_def TCP_CONNECTED_def
  TCP_DISCONNECTED_def

text \<open>The global variables; \<open>cl_sent\<close> lists the buffers given to \<open>serial.txd\<close>.\<close>

record Client =
  cl_inputStream :: bytes
  cl_eventStream :: bytes
  cl_lastFrameFlag :: u64
  cl_inputFrame :: bytes
  cl_cleanData :: bytes
  cl_sent :: "bytes list"
  cl_serial :: Serial

definition Client_new :: Client where
  "Client_new = \<lparr>cl_inputStream = [], cl_eventStream = [], cl_lastFrameFlag = 0, cl_inputFrame = [],
     cl_cleanData = [], cl_sent = [], cl_serial = Serial_new\<rparr>"

text \<open>The port \<open>/dev/ttyUSB1\<close>.\<close>

definition client_port :: bytes where
  "client_port = [0x2F, 0x64, 0x65, 0x76, 0x2F, 0x74, 0x74, 0x79, 0x55, 0x53, 0x42, 0x31]"

definition cl_frameTimeout :: u64 where
  "cl_frameTimeout = 2000"

section \<open>Operations\<close>

definition sendFrame :: "byte \<Rightarrow> bytes \<Rightarrow> Client \<Rightarrow> nat \<times> Client" where
  "sendFrame header data s =
     (let buffer = [header] @ data; outFrame = ppp_frame buffer
      in (length data, s\<lparr>cl_sent := cl_sent s @ [outFrame]\<rparr>))"

definition cl_handleFrame :: "bytes \<Rightarrow> Client \<Rightarrow> (bool \<times> Client) outcome" where
  "cl_handleFrame bs s =
     (if bs = [] then Inr (False, s)
      else seq (ppp_deframe bs) (\<lambda>(ok, clean).
        let s = s\<lparr>cl_cleanData := clean\<rparr> in
        if ok then
          (case cl_cleanData s of
             [] \<Rightarrow> Inl OutOfBounds
           | event # _ \<Rightarrow>
             if event = TCP_RECV then
               Inr (True, s\<lparr>cl_inputStream := cl_inputStream s @ cl_cleanData s\<rparr>)
             else if event = TCP_CONNECTED then
               Inr (True, s\<lparr>cl_eventStream := cl_eventStream s @ [TCP_CONNECTED]\<rparr>)
             else if event = TCP_DISCONNECTED then
               Inr (True, s\<lparr>cl_eventStream := cl_eventStream s @ [TCP_DISCONNECTED]\<rparr>)
             else Inr (False, s))
        else Inr (False, s)))"

definition cl_rxd_byte :: "u64 \<Rightarrow> byte \<Rightarrow> Client \<Rightarrow> Client outcome" where
  "cl_rxd_byte millis b s =
     (if b = PPP_FLAG_CHAR then
        let s = s\<lparr>cl_lastFrameFlag := millis\<rparr> in
        seq (cl_handleFrame (cl_inputFrame s) s) (\<lambda>(_, s). Inr (s\<lparr>cl_inputFrame := []\<rparr>))
      else Inr (s\<lparr>cl_inputFrame := cl_inputFrame s @ [b]\<rparr>))"

definition cl_handleRxd :: "(nat \<Rightarrow> u64) \<Rightarrow> bytes \<Rightarrow> Client \<Rightarrow> Client outcome" where
  "cl_handleRxd millis bs s =
     seq (for_each (\<lambda>i. cl_rxd_byte (millis i)) 0 bs s) (\<lambda>s.
       if millis (length bs) - cl_lastFrameFlag s > cl_frameTimeout
       then Inr (s\<lparr>cl_inputFrame := []\<rparr>)
       else Inr s)"

text \<open>One entry of the script: the clock, the code and the bytes of a call of \<open>rxd\<close>.\<close>

type_synonym rxd_script = "((nat \<Rightarrow> u64) \<times> c_int \<times> bytes) list"

fun recv_fill :: "nat \<Rightarrow> rxd_script \<Rightarrow> Client \<Rightarrow> (rxd_script \<times> Client) outcome option" where
  "recv_fill capacity [] s =
     (if length (cl_inputStream s) < capacity then None else Some (Inr ([], s)))"
| "recv_fill capacity ((clk, rc, rxdBuffer) # script) s =
     (if length (cl_inputStream s) < capacity then
        (if rc = 0 \<and> rxdBuffer \<noteq> [] then
           (case cl_handleRxd clk rxdBuffer s of
              Inl e \<Rightarrow> Some (Inl e)
            | Inr s \<Rightarrow> recv_fill capacity script s)
         else recv_fill capacity script s)
      else Some (Inr ((clk, rc, rxdBuffer) # script, s)))"

text \<open>\<open>recvData\<close> yields the bytes it puts into the caller's buffer.\<close>

definition recvData :: "nat \<Rightarrow> rxd_script \<Rightarrow> Client \<Rightarrow> (bytes \<times> rxd_script \<times> Client) outcome option" where
  "recvData capacity script s =
     map_option (\<lambda>r. seq r (\<lambda>(script, s).
       Inr (take capacity (cl_inputStream s), script,
            s\<lparr>cl_inputStream := drop capacity (cl_inputStream s)\<rparr>))) (recv_fill capacity script s)"

section \<open>The transport functions\<close>

text \<open>
  \<open>recvData\<close> always fills the whole request, so the loop of \<open>_zn_recv_bytes\<close> runs once; an
  empty request is answered with \<open>-1\<close>.
\<close>

definition zn_recv_bytes :: "nat \<Rightarrow> rxd_script \<Rightarrow> Client \<Rightarrow> (c_int \<times> bytes \<times> rxd_script \<times> Client) outcome option" where
  "zn_recv_bytes len script s =
     map_option (\<lambda>r. seq r (\<lambda>(data, script, s).
       Inr (if length data = 0 then - 1 else 0, data, script, s))) (recvData len script s)"

text \<open>\<open>initSerial\<close> ignores what \<open>connect\<close> returns.\<close>

definition initSerial :: "os \<Rightarrow> Serial \<Rightarrow> c_int \<times> Serial" where
  "initSerial os s =
     (let s = (if \<not> serial_connected s then
           let (_, s) = Serial_set_port client_port s;
               (_, s) = Serial_set_baudrate 115200 s;
               (_, s) = Serial_init s;
               (_, s) = Serial_connect os s
           in s
         else s)
      in (serial_fd s, s))"

text \<open>The result's tag is \<open>_z_res_t_OK\<close>, here \<open>True\<close>; its socket is not set.\<close>

definition zn_open_tx_session :: "os \<Rightarrow> Client \<Rightarrow> bool \<times> Client" where
  "zn_open_tx_session os s =
     (let (_, port) = initSerial os (cl_serial s); s = s\<lparr>cl_serial := port\<rparr>;
          (_, s) = sendFrame TCP_OPEN [] s
      in (True, s))"

definition zn_close_tx_session :: "Client \<Rightarrow> Client" where
  "zn_close_tx_session s = snd (sendFrame TCP_CLOSE [] s)"

text \<open>
  \<open>_zn_send_wbuf\<close> on the slices of a buffer: \<open>sendFrame\<close> reports the whole slice as sent, so the
  inner loop runs once; an empty slice is sent and then taken for an error.
\<close>

fun zn_send_wbuf :: "bytes list \<Rightarrow> Client \<Rightarrow> c_int \<times> Client" where
  "zn_send_wbuf [] s = (0, s)"
| "zn_send_wbuf (bs # slices) s =
     (let (wb, s) = sendFrame TCP_SEND bs s
      in if wb = 0 then (- 1, s) else zn_send_wbuf slices s)"

section \<open>The client implements the abstract framer\<close>

definition client_obs :: "Client \<Rightarrow> bytes \<times> u64 \<times> bytes \<times> bytes \<times> bytes list" where
  "client_obs s = (cl_inputFrame s, cl_lastFrameFlag s, cl_inputStream s, cl_eventStream s, cl_sent s)"

fun client_event :: "bytes \<Rightarrow> bytes \<times> bytes \<times> bytes list \<Rightarrow> (bytes \<times> bytes \<times> bytes list) outcome" where
  "client_event [] st = Inl OutOfBounds"
| "client_event (event # data) (inp, ev, sent) =
     Inr (if event = TCP_RECV then (inp @ event # data, ev, sent)
       else if event = TCP_CONNECTED \<or> event = TCP_DISCONNECTED then (inp, ev @ [event], sent)
       else (inp, ev, sent))"

lemma cl_rxd_byte_refines:
  "map_sum id client_obs (cl_rxd_byte t b s) = framer_byte client_event (\<lambda>_. Inr) t b (client_obs s)"
proof (cases "ppp_deframe (cl_inputFrame s)")
  case (Inr r)
  then show ?thesis
    by (cases "snd r") (auto simp: client_obs_def cl_handleFrame_def cl_rxd_byte_def framer_byte.simps Let_def
        tcp_commands split: prod.splits)
qed (auto simp: client_obs_def cl_handleFrame_def cl_rxd_byte_def framer_byte.simps)

lemma cl_rxd_loop_refines:
  "map_sum id client_obs (for_each (\<lambda>i. cl_rxd_byte (clk i)) i bs s) =
     for_each (\<lambda>i. framer_byte client_event (\<lambda>_. Inr) (clk i)) i bs (client_obs s)"
proof (induction bs arbitrary: i s)
  case (Cons b bs)
  then show ?case
    using cl_rxd_byte_refines [of "clk i" b s, symmetric]
    by (cases "cl_rxd_byte (clk i) b s") auto
qed simp

interpretation client: framer cl_handleRxd client_obs client_event "\<lambda>_. Inr" "\<lambda>_ _. Inr" cl_frameTimeout
proof unfold_locales
  fix clk bs s
  show "map_sum id client_obs (cl_handleRxd clk bs s) =
    framer_chunk client_event (\<lambda>_. Inr) (\<lambda>_ _. Inr) cl_frameTimeout clk bs (client_obs s)"
    using cl_rxd_loop_refines [of clk 0 bs s, symmetric]
    by (cases "for_each (\<lambda>i. cl_rxd_byte (clk i)) 0 bs s")
      (auto simp: cl_handleRxd_def framer_chunk_def client_obs_def)
qed

lemma deliver_received:
  "deliver_all client_event (map (\<lambda>d. TCP_RECV # d) ds) (inp, ev, sent) =
     Inr (inp @ concat (map (\<lambda>d. TCP_RECV # d) ds), ev, sent)"
  by (induction ds arbitrary: inp) simp_all

section \<open>Properties\<close>

text \<open>
  Received data. The frames with which the proxy passes on TCP data, cut into chunks in any
  way, put into the input stream each frame's data with the command byte in front of it: the
  stream zenoh-pico reads is not the stream the peer sent.
\<close>

theorem client_stream_keeps_headers:
  assumes "timely cl_frameTimeout cs (cl_lastFrameFlag s)" and "cl_inputFrame s = []"
    and "concat (map snd cs) = concat (map (\<lambda>d. ppp_frame (TCP_RECV # d)) ds)"
  shows "\<exists>s'. run_chunks cl_handleRxd cs s = Inr s' \<and>
    cl_inputStream s' = cl_inputStream s @ concat (map (\<lambda>d. TCP_RECV # d) ds) \<and>
    cl_eventStream s' = cl_eventStream s"
proof -
  have "client_obs s = ([], cl_lastFrameFlag s, cl_inputStream s, cl_eventStream s, cl_sent s)"
    using assms(2) by (simp add: client_obs_def)
  then obtain s' l' where "run_chunks cl_handleRxd cs s = Inr s'"
    "client_obs s' = ([], l', cl_inputStream s @ concat (map (\<lambda>d. TCP_RECV # d) ds), cl_eventStream s, cl_sent s)"
    using client.delivers [OF assms(1), of s "(cl_inputStream s, cl_eventStream s, cl_sent s)" "map (\<lambda>d. TCP_RECV # d) ds"
        "(cl_inputStream s @ concat (map (\<lambda>d. TCP_RECV # d) ds), cl_eventStream s, cl_sent s)"] assms(3)
    by (auto simp: comp_def deliver_received)
  then show ?thesis
    by (auto simp: client_obs_def)
qed

lemma client_stream_keeps_headers_witness:
  "\<exists>s'. run_chunks cl_handleRxd [(\<lambda>_. 7, ppp_frame (TCP_RECV # [1, 2]) @ ppp_frame (TCP_RECV # [3]))] Client_new = Inr s' \<and>
    cl_inputStream s' = cl_inputStream Client_new @ concat (map (\<lambda>d. TCP_RECV # d) [[1, 2], [3]]) \<and>
    cl_eventStream s' = cl_eventStream Client_new"
  by (rule client_stream_keeps_headers)
    (rule timely_constant, simp_all add: Client_new_def ppp_frame_body)

text \<open>
  The line bytes \<open>7E 7D 20 00 7E\<close>, an empty payload with a correct checksum whose first
  byte is escaped, make the client read the command of an empty frame.
\<close>

theorem client_empty_frame_fault:
  "cl_handleRxd clk [PPP_FLAG_CHAR, PPP_ESC_CHAR, 0x20, 0, PPP_FLAG_CHAR] (s\<lparr>cl_inputFrame := []\<rparr>) = Inl OutOfBounds"
proof -
  have "ppp_deframe [PPP_ESC_CHAR, 0x20, 0] = Inr (True, [])"
    by (simp add: ppp_deframe_def ppp_chars fcs_eval pop_back_def)
  then show ?thesis
    by (simp add: cl_handleRxd_def cl_rxd_byte_def cl_handleFrame_def ppp_chars)
qed

text \<open>
  \<open>recvData\<close> returns exactly as many bytes as asked, the first of the input stream, and
  leaves the others; with enough bytes in the stream it does not touch the line.
\<close>

theorem client_recvData:
  assumes "recvData n script s = Some (Inr (data, script', s'))"
  shows "length data = n \<and>
    (n \<le> length (cl_inputStream s) \<longrightarrow> script' = script \<and> data @ cl_inputStream s' = cl_inputStream s) \<and>
    (\<exists>used. script = used @ script')"
proof -
  have fill: "recv_fill n script s = Some (Inr (script', t)) \<Longrightarrow>
      n \<le> length (cl_inputStream t) \<and> (\<exists>used. script = used @ script')" for t
  proof (induction n script s rule: recv_fill.induct)
    case (2 n clk rc buf script s)
    then show ?case
      by (auto split: if_splits sum.splits)
  qed (auto split: if_splits)
  have enough: "recv_fill n script s = Some (Inr (script, s))" if "n \<le> length (cl_inputStream s)"
    using that by (cases script) auto
  obtain t where t: "recv_fill n script s = Some (Inr (script', t))"
    "data = take n (cl_inputStream t)" "s' = t\<lparr>cl_inputStream := drop n (cl_inputStream t)\<rparr>"
    using assms by (auto simp: recvData_def seq_eq_Inr_iff)
  then show ?thesis
    using fill [OF t(1)] enough by auto
qed

lemma client_recvData_witness:
  "recvData 2 [] (Client_new\<lparr>cl_inputStream := [5, 6, 7]\<rparr>) = Some (Inr ([5, 6], [], Client_new\<lparr>cl_inputStream := [7]\<rparr>)) \<and>
    length [5, 6 :: byte] = 2"
proof -
  have r: "recvData 2 [] (Client_new\<lparr>cl_inputStream := [5, 6, 7]\<rparr>) =
      Some (Inr ([5, 6], [], Client_new\<lparr>cl_inputStream := [7]\<rparr>))"
    by (simp add: recvData_def Client_new_def)
  with client_recvData [OF r] show ?thesis by blast
qed

text \<open>
  Sending. Every nonempty slice of a buffer becomes one frame with the command
  \<open>TCP_SEND\<close>, in order; an empty slice is sent as a frame as well and then ends the transfer with
  \<open>-1\<close>, so that the slices behind it are not sent.
\<close>

theorem client_send_wbuf:
  "zn_send_wbuf slices s =
    (let sent = takeWhile (\<lambda>bs. bs \<noteq> []) slices; all = ([] \<notin> set slices)
     in (if all then 0 else - 1,
         s\<lparr>cl_sent := cl_sent s @ map (\<lambda>bs. ppp_frame (TCP_SEND # bs)) (if all then slices else sent @ [[]])\<rparr>))"
proof (induction slices arbitrary: s)
  case (Cons bs slices)
  then show ?case
    by (cases bs) (simp_all add: sendFrame_def Let_def)
qed simp

end
