(* ===== verification/Pico_Proxy.thy ===== *)
theory Pico_Proxy
  imports Tcp_Session Pico_Client
begin

text \<open>
  The proxy of \<open>src-pico/proxy.cpp\<close> between the serial line of a zenoh-pico client and a TCP
  connection to the router: \<open>header_frame\<close>, \<open>cmd_frame\<close> and the flows that \<open>main\<close> sets up. The
  field \<open>serial_outgoing\<close> lists what has been handed to \<open>serial.outgoing\<close>, whose handler is
  \<open>outgoing_on\<close> of theory \<open>Serial_Session\<close>. The commands are those of \<open>src-pico/serial_protocol.h\<close>,
  defined in theory \<open>Pico_Client\<close>.
\<close>

section \<open>Frames and state\<close>

definition header_frame :: "byte \<Rightarrow> bytes \<Rightarrow> bytes" where
  "header_frame header data = ppp_frame ([header] @ data)"

definition cmd_frame :: "byte \<Rightarrow> bytes" where
  "cmd_frame header = ppp_frame [header]"

record PicoProxy =
  pico_serial :: SerialSession
  pico_tcp :: TcpSession
  serial_outgoing :: "bytes list"

text \<open>\<open>main\<close> up to the flows: the configuration is the port and the baud rate.\<close>

definition pico_start :: "os \<Rightarrow> bytes \<Rightarrow> u32 \<Rightarrow> c_int \<Rightarrow> PicoProxy" where
  "pico_start os cfg_port cfg_baudrate garbage =
     (let serial = SerialSession_new cfg_port cfg_baudrate;
          tcp = TcpSession_new garbage;
          (_, serial) = SerialSession_init serial;
          (_, serial) = SerialSession_connect os serial
      in \<lparr>pico_serial = serial, pico_tcp = tcp, serial_outgoing = []\<rparr>)"

section \<open>Flows\<close>

text \<open>The frames that the subscribers of \<open>tcp.incoming\<close> and \<open>tcp.connected\<close> hand to \<open>serial.outgoing\<close>.\<close>

definition tcp_incoming_on :: "bytes \<Rightarrow> bytes" where
  "tcp_incoming_on data = header_frame TCP_RECV data"

definition tcp_connected_on :: "bool \<Rightarrow> bytes" where
  "tcp_connected_on isConnected = (if isConnected then cmd_frame TCP_CONNECTED else cmd_frame TCP_DISCONNECTED)"

declare tcp_incoming_on_def [simp] tcp_connected_on_def [simp]

fun pico_relay :: "tcp_emit \<Rightarrow> bytes" where
  "pico_relay (Incoming data) = tcp_incoming_on data"
| "pico_relay (Connected isConnected) = tcp_connected_on isConnected"

text \<open>The state after an operation of the TCP session, whose new emissions are relayed.\<close>

definition pico_after :: "TcpSession \<Rightarrow> PicoProxy \<Rightarrow> PicoProxy" where
  "pico_after tcp p =
     (let emitted = drop (length (tcp_emitted (pico_tcp p))) (tcp_emitted tcp)
      in p\<lparr>pico_tcp := tcp, serial_outgoing := serial_outgoing p @ map pico_relay emitted\<rparr>)"

text \<open>
  The subscriber of \<open>serial.incoming\<close>: the command is the first byte of the chunk as it was read
  from the line. In a chunk of one byte \<open>&frame[1]\<close> is the address behind it, and no data is sent.
\<close>

definition pico_serial_incoming :: "net \<Rightarrow> bytes \<Rightarrow> PicoProxy \<Rightarrow> PicoProxy outcome" where
  "pico_serial_incoming net frame p =
     (case frame of
        [] \<Rightarrow> Inl OutOfBounds
      | header # data \<Rightarrow>
          if header = TCP_OPEN then
            seq (TcpSession_connect net (pico_tcp p)) (\<lambda>(_, tcp). Inr (pico_after tcp p))
          else if header = TCP_CLOSE then Inr (pico_after (snd (TcpSession_disconnect net (pico_tcp p))) p)
          else if header = TCP_SEND then Inr (pico_after (TcpSession_outgoing net data (pico_tcp p)) p)
          else Inr p)"

text \<open>The subscriber of \<open>serial.connected\<close>.\<close>

definition pico_serial_connected :: "net \<Rightarrow> bool \<Rightarrow> PicoProxy \<Rightarrow> PicoProxy" where
  "pico_serial_connected net isConnected p =
     (if \<not> isConnected then pico_after (snd (TcpSession_disconnect net (pico_tcp p))) p else p)"

text \<open>What the worker thread runs: the flows and the two invokers of the TCP session.\<close>

datatype pico_event = SerialChunk bytes | SerialConnected bool | TcpReadable | TcpFailed

fun pico_step :: "net \<Rightarrow> pico_event \<Rightarrow> PicoProxy \<Rightarrow> PicoProxy outcome" where
  "pico_step net (SerialChunk frame) p = pico_serial_incoming net frame p"
| "pico_step net (SerialConnected isConnected) p = Inr (pico_serial_connected net isConnected p)"
| "pico_step net TcpReadable p = Inr (pico_after (TcpSession_invoke net (pico_tcp p)) p)"
| "pico_step net TcpFailed p = Inr (pico_after (TcpSession_onError net (pico_tcp p)) p)"

definition pico_run :: "net \<Rightarrow> pico_event list \<Rightarrow> PicoProxy \<Rightarrow> PicoProxy outcome" where
  "pico_run net es p = for_each (\<lambda>_. pico_step net) 0 es p"

text \<open>What \<open>main\<close> does behind \<open>workerThread.run()\<close>.\<close>

definition pico_finish :: "os \<Rightarrow> net \<Rightarrow> PicoProxy \<Rightarrow> PicoProxy outcome" where
  "pico_finish os net p =
     (let (_, serial) = SerialSession_disconnect os (pico_serial p); p = p\<lparr>pico_serial := serial\<rparr> in
      seq (TcpSession_connect net (pico_tcp p)) (\<lambda>(_, tcp).
      let p = pico_after tcp p
      in Inr (pico_after (snd (TcpSession_disconnect net (pico_tcp p))) p)))"

section \<open>Everything the session emits is relayed\<close>

lemma emitted_grows:
  "\<exists>es. tcp_emitted (TcpSession_outgoing net data t) = tcp_emitted t @ es"
  "\<exists>es. tcp_emitted (snd (TcpSession_disconnect net t)) = tcp_emitted t @ es"
  "\<exists>es. tcp_emitted (TcpSession_invoke net t) = tcp_emitted t @ es"
  "\<exists>es. tcp_emitted (TcpSession_onError net t) = tcp_emitted t @ es"
  by (auto simp: TcpSession_outgoing_def TcpSession_invoke_def TcpSession_onError_def disconnect_eq sk_def Let_def)

lemma connect_emitted_grows:
  "TcpSession_connect net t = Inr (b, t') \<Longrightarrow> \<exists>es. tcp_emitted t' = tcp_emitted t @ es"
  by (erule connect_cases) simp_all

definition relayed :: "PicoProxy \<Rightarrow> tcp_emit list \<Rightarrow> PicoProxy \<Rightarrow> bool" where
  "relayed p es p' \<longleftrightarrow> tcp_emitted (pico_tcp p') = tcp_emitted (pico_tcp p) @ es \<and>
     serial_outgoing p' = serial_outgoing p @ map pico_relay es"

lemma relayed_refl: "relayed p [] p"
  by (simp add: relayed_def)

lemma relayed_none: "\<exists>es. relayed p es p"
  using relayed_refl by blast

lemma relayed_trans: "relayed p es p' \<Longrightarrow> relayed p' fs p'' \<Longrightarrow> relayed p (es @ fs) p''"
  by (simp add: relayed_def)

lemma relayed_after:
  "\<exists>es. tcp_emitted t = tcp_emitted (pico_tcp p) @ es \<Longrightarrow> \<exists>es. relayed p es (pico_after t p)"
  by (auto simp: relayed_def pico_after_def)

lemma pico_step_relays:
  assumes "pico_step net e p = Inr p'"
  shows "\<exists>es. relayed p es p'"
proof (cases e)
  case (SerialChunk frame)
  with assms show ?thesis
    by (auto simp: pico_serial_incoming_def seq_eq_Inr_iff relayed_after emitted_grows split: list.splits if_splits
        intro: relayed_after connect_emitted_grows relayed_none)
next
  case (SerialConnected b)
  with assms show ?thesis
    by (auto simp: pico_serial_connected_def relayed_after emitted_grows relayed_none)
qed (use assms in \<open>auto simp: relayed_after emitted_grows\<close>)

lemma pico_run_relays:
  assumes "pico_run net es p = Inr p'"
  shows "\<exists>xs. relayed p xs p'"
proof -
  have "for_each (\<lambda>_. pico_step net) i es p = Inr p' \<Longrightarrow> ?thesis" for i
  proof (induction es arbitrary: i p)
    case Nil
    then show ?case using relayed_refl by auto
  next
    case (Cons e es)
    from Cons.prems obtain q where q: "pico_step net e p = Inr q" "for_each (\<lambda>_. pico_step net) (Suc i) es q = Inr p'"
      by (auto simp: seq_eq_Inr_iff)
    obtain xs where xs: "relayed p xs q" using pico_step_relays [OF q(1)] by blast
    obtain ys where "relayed q ys p'" using Cons.IH [OF q(2)] by blast
    then show ?case using relayed_trans [OF xs] by blast
  qed
  then show ?thesis using assms by (auto simp: pico_run_def)
qed

section \<open>What the client makes of it\<close>

fun relay_payload :: "tcp_emit \<Rightarrow> bytes" where
  "relay_payload (Incoming data) = TCP_RECV # data"
| "relay_payload (Connected b) = [if b then TCP_CONNECTED else TCP_DISCONNECTED]"

lemma pico_relay_payload: "pico_relay e = ppp_frame (relay_payload e)" "relay_payload e \<noteq> []"
  by (cases e; simp add: header_frame_def cmd_frame_def)+

lemma map_pico_relay: "map pico_relay es = map ppp_frame (map relay_payload es)"
  by (simp add: pico_relay_payload)

fun received_data :: "tcp_emit \<Rightarrow> bytes" where
  "received_data (Incoming data) = TCP_RECV # data"
| "received_data (Connected b) = []"

fun connection_event :: "tcp_emit \<Rightarrow> bytes" where
  "connection_event (Incoming data) = []"
| "connection_event (Connected b) = [if b then TCP_CONNECTED else TCP_DISCONNECTED]"

lemma deliver_relayed:
  "deliver_all client_event (map relay_payload es) (inp, ev, sent) =
     Inr (inp @ concat (map received_data es), ev @ concat (map connection_event es), sent)"
proof (induction es arbitrary: inp ev)
  case (Cons e es)
  then show ?case by (cases e) (auto simp: tcp_commands)
qed simp

lemma client_reads_relayed:
  assumes "timely cl_frameTimeout cs (cl_lastFrameFlag s)" and "cl_inputFrame s = []"
    and "concat (map snd cs) = concat (map pico_relay es)"
  shows "\<exists>s'. run_chunks cl_handleRxd cs s = Inr s' \<and>
    cl_inputStream s' = cl_inputStream s @ concat (map received_data es) \<and>
    cl_eventStream s' = cl_eventStream s @ concat (map connection_event es)"
proof -
  have "client_obs s = ([], cl_lastFrameFlag s, cl_inputStream s, cl_eventStream s, cl_sent s)"
    using assms(2) by (simp add: client_obs_def)
  moreover have "concat (map snd cs) = concat (map ppp_frame (map relay_payload es))"
    using assms(3) by (simp only: map_pico_relay)
  ultimately obtain s' l' where "run_chunks cl_handleRxd cs s = Inr s'"
    "client_obs s' = ([], l', cl_inputStream s @ concat (map received_data es),
       cl_eventStream s @ concat (map connection_event es), cl_sent s)"
    using client.delivers [OF assms(1), of s "(cl_inputStream s, cl_eventStream s, cl_sent s)" "map relay_payload es"
        "(cl_inputStream s @ concat (map received_data es), cl_eventStream s @ concat (map connection_event es), cl_sent s)"]
    by (auto simp: deliver_relayed pico_relay_payload)
  then show ?thesis
    by (auto simp: client_obs_def)
qed

section \<open>Properties\<close>

text \<open>
  C17: From the router to the client. Whatever the worker thread runs, the frames handed to
  \<open>serial.outgoing\<close>, cut into chunks in any way, give the client exactly what the TCP session has
  emitted meanwhile: the data of every read, each with the command byte in front, in its input stream,
  and every change of the connection in its event stream, in order.
\<close>

theorem pico_serves_client:
  assumes "pico_run net es p = Inr p'" and "serial_outgoing p = []"
    and "timely cl_frameTimeout cs (cl_lastFrameFlag s)" and "cl_inputFrame s = []"
    and "concat (map snd cs) = concat (serial_outgoing p')"
  shows "\<exists>emitted s'. tcp_emitted (pico_tcp p') = tcp_emitted (pico_tcp p) @ emitted \<and>
    run_chunks cl_handleRxd cs s = Inr s' \<and>
    cl_inputStream s' = cl_inputStream s @ concat (map received_data emitted) \<and>
    cl_eventStream s' = cl_eventStream s @ concat (map connection_event emitted)"
proof -
  obtain emitted where e: "tcp_emitted (pico_tcp p') = tcp_emitted (pico_tcp p) @ emitted"
      "serial_outgoing p' = map pico_relay emitted"
    using pico_run_relays [OF assms(1)] assms(2) by (auto simp: relayed_def)
  then show ?thesis
    using client_reads_relayed [OF assms(3,4), of emitted] assms(5) by auto
qed

definition pico_idle :: PicoProxy where
  "pico_idle = \<lparr>pico_serial = SerialSession_new [] 0, pico_tcp = TcpSession_new 5, serial_outgoing = []\<rparr>"

definition talking_net :: net where
  "talking_net = \<lparr>net_ret = \<lambda>cs. 2, net_errno = \<lambda>_. 0, net_data = \<lambda>_. [8, 9], net_addr = \<lambda>_. [],
     inet_pton = \<lambda>_. None, session_lease = 0, err_invalid_locator = - 1, err_tx_connection = - 2, result_is_union = True\<rparr>"

lemma pico_serves_client_witness:
  "\<exists>p' s'. pico_run talking_net [TcpReadable, TcpFailed] pico_idle = Inr p' \<and>
    run_chunks cl_handleRxd [(\<lambda>_. 7, concat (serial_outgoing p'))] Client_new = Inr s' \<and>
    cl_inputStream s' = [TCP_RECV, 8, 9] \<and> cl_eventStream s' = [TCP_DISCONNECTED]"
proof -
  let ?p = "pico_idle\<lparr>pico_tcp := \<lparr>tcp_socket = 5, tcp_emitted = [Incoming [8, 9], Connected False],
      tcp_thread = [DeleteInvoker 5], tcp_net = [SkRecv 5 512, SkShutdown 5]\<rparr>,
    serial_outgoing := [header_frame TCP_RECV [8, 9], cmd_frame TCP_DISCONNECTED]\<rparr>"
  have r: "pico_run talking_net [TcpReadable, TcpFailed] pico_idle = Inr ?p"
    by (simp add: pico_run_def pico_idle_def talking_net_def TcpSession_new_def TcpSession_invoke_def sk_def Let_def
        word_sless_alt TcpSession_onError_def disconnect_eq pico_after_def)
  have i: "serial_outgoing pico_idle = []" "cl_inputFrame Client_new = []"
    by (simp_all add: pico_idle_def Client_new_def)
  have t: "timely cl_frameTimeout [(\<lambda>_. 7, concat (serial_outgoing ?p))] (cl_lastFrameFlag Client_new)"
    by (rule timely_constant) (simp add: cmd_frame_def ppp_frame_body)
  from pico_serves_client [OF r i(1) t i(2)] r show ?thesis
    by (auto simp: pico_idle_def TcpSession_new_def Client_new_def)
qed

text \<open>
  C39: From the client to the router. The proxy takes the first byte of what it reads from the line
  for the command, and does not unframe it: a chunk that begins with a frame of the client does
  nothing, whatever its command; a chunk that begins behind the flag of a \<open>TCP_SEND\<close> frame is passed to
  the router with the data still stuffed and followed by the checksum and the closing flag.
\<close>

theorem pico_commands_are_raw:
  "let frame = last (cl_sent (snd (sendFrame header data s))) in
    pico_serial_incoming net (frame @ rest) p = Inr p \<and>
    pico_serial_incoming net (tl (last (cl_sent (snd (sendFrame TCP_SEND data s))))) p =
      Inr (p\<lparr>pico_tcp := TcpSession_outgoing net
        (stuff (data @ fcs_trailer (fcs_bytes Fcs_new (TCP_SEND # data))) @ [PPP_FLAG_CHAR]) (pico_tcp p)\<rparr>)"
proof -
  have "escape TCP_SEND = [TCP_SEND]" by (simp add: escape_def ppp_chars tcp_commands)
  then have "frame_body (TCP_SEND # data) = TCP_SEND # stuff (data @ fcs_trailer (fcs_bytes Fcs_new (TCP_SEND # data)))"
    by (simp add: frame_body_def)
  then show ?thesis
    by (simp add: sendFrame_def ppp_frame_body Let_def pico_serial_incoming_def pico_after_def
        TcpSession_outgoing_def sk_def tcp_commands ppp_chars)
qed

end
