(* ===== verification/Pico_Transport.thy ===== *)
theory Pico_Transport
  imports Pico_Client Sockets
begin

text \<open>
  The rest of the transport interface of zenoh-pico that \<open>src_client/unix_serial.cpp\<close> provides:
  \<open>_zn_recv_zbuf\<close> on the read buffers of theory \<open>Sockets\<close>, and the functions that only report that
  they should not be called. \<open>_zn_create_udp_socket\<close> copies the uninitialised socket to the error.
\<close>

section \<open>Functions\<close>

text \<open>The \<open>int\<close> that \<open>recvData\<close> returns is the requested number of bytes.\<close>

definition client_recv_zbuf ::
    "'z zbuf_api \<Rightarrow> rxd_script \<Rightarrow> 'z \<Rightarrow> Client \<Rightarrow> (c_int \<times> 'z \<times> rxd_script \<times> Client) outcome option" where
  "client_recv_zbuf zb script rbf s =
     map_option (\<lambda>r. seq r (\<lambda>(data, script, s).
       let rb = of_nat (length data) :: c_int; rbf = zbuf_write zb data rbf in
       if 0 <s rb then Inr (rb, zbuf_set_wpos zb (zbuf_get_wpos zb rbf + nat (sint rb)) rbf, script, s)
       else Inr (rb, rbf, script, s)))
     (recvData (zbuf_space_left zb rbf) script s)"

definition client_make_socket_address :: "bytes \<Rightarrow> c_int \<Rightarrow> (u32 \<times> u16) option" where
  "client_make_socket_address addr port = None"

definition client_create_udp_socket :: "c_int \<Rightarrow> bytes \<Rightarrow> c_int \<Rightarrow> c_int \<Rightarrow> socket_result" where
  "client_create_udp_socket garbage addr port timeout_usec =
     (let r = \<lparr>res_tag = Res_ERR, res_socket = garbage, res_error = None\<rparr>;
          r = r\<lparr>res_error := Some (res_socket r)\<rparr>
      in r\<lparr>res_socket := - 1\<rparr>)"

definition client_send_dgram_to :: "c_int \<Rightarrow> bytes list \<Rightarrow> c_int" where
  "client_send_dgram_to sock wbf = - 1"

definition client_recv_dgram_from :: "c_int \<Rightarrow> 'z \<Rightarrow> c_int" where
  "client_recv_dgram_from sock rbf = - 1"

text \<open>The bytes of \<open>UNKNOWN\<close>.\<close>

definition client_select_scout_iface :: bytes where
  "client_select_scout_iface = [0x55, 0x4E, 0x4B, 0x4E, 0x4F, 0x57, 0x4E]"

text \<open>The two lines that \<open>dump\<close> logs of what is sent.\<close>

definition client_dump :: "(nat \<Rightarrow> string) \<Rightarrow> string \<Rightarrow> bytes \<Rightarrow> string list" where
  "client_dump fmt prefix data = [prefix @ '' '' @ hexDump fmt data '' '', prefix @ '' '' @ charDump data]"

section \<open>Properties\<close>

lemma recv_fill_enough:
  "recv_fill n script s = Some (Inr (script', s')) \<Longrightarrow> n \<le> length (cl_inputStream s')"
proof (induction n script s rule: recv_fill.induct)
  case (2 n clk rc buf script s)
  then show ?case by (auto split: if_splits sum.splits)
qed (auto split: if_splits)

text \<open>
  Reading into a buffer. Unlike \<open>recv\<close> on a socket, \<open>_zn_recv_zbuf\<close> of the client returns only
  when the whole free space of the buffer is filled, however little the peer has sent: the count it
  returns is the free space.
\<close>

theorem client_recv_zbuf_fills:
  assumes "client_recv_zbuf zb script rbf s = Some (Inr (rb, rbf', script', s'))"
  shows "rb = of_nat (zbuf_space_left zb rbf) \<and>
    (\<exists>t. recv_fill (zbuf_space_left zb rbf) script s = Some (Inr (script', t)) \<and>
       zbuf_space_left zb rbf \<le> length (cl_inputStream t) \<and>
       cl_inputStream s' = drop (zbuf_space_left zb rbf) (cl_inputStream t))"
proof -
  obtain data where d: "recvData (zbuf_space_left zb rbf) script s = Some (Inr (data, script', s'))"
    "rb = of_nat (length data)"
    using assms by (auto simp: client_recv_zbuf_def Let_def seq_eq_Inr_iff split: if_splits)
  from d(1) obtain t where t: "recv_fill (zbuf_space_left zb rbf) script s = Some (Inr (script', t))"
    "data = take (zbuf_space_left zb rbf) (cl_inputStream t)"
    "s' = t\<lparr>cl_inputStream := drop (zbuf_space_left zb rbf) (cl_inputStream t)\<rparr>"
    by (auto simp: recvData_def seq_eq_Inr_iff)
  with recv_fill_enough [OF t(1)] d(2) show ?thesis by simp
qed

text \<open>A buffer of four bytes that keeps what it is given.\<close>

definition list_zbuf :: "(bytes \<times> nat) zbuf_api" where
  "list_zbuf = \<lparr>zbuf_space_left = (\<lambda>(bs, n). 4 - n), zbuf_write = (\<lambda>data (bs, n). (take n bs @ data, n)),
     zbuf_get_wpos = snd, zbuf_set_wpos = (\<lambda>k (bs, n). (bs, k))\<rparr>"

lemma client_recv_zbuf_fills_witness:
  "client_recv_zbuf list_zbuf [] ([], 0) (Client_new\<lparr>cl_inputStream := [1, 2, 3]\<rparr>) = None \<and>
    (\<exists>rbf script s. client_recv_zbuf list_zbuf [] ([], 0) (Client_new\<lparr>cl_inputStream := [1, 2, 3, 4, 5]\<rparr>) =
      Some (Inr (4, rbf, script, s)) \<and> cl_inputStream s = [5])"
proof -
  have r: "client_recv_zbuf list_zbuf [] ([], 0) (Client_new\<lparr>cl_inputStream := [1, 2, 3, 4, 5]\<rparr>) =
      Some (Inr (4, ([1, 2, 3, 4], 4), [], Client_new\<lparr>cl_inputStream := [5]\<rparr>))"
    by (simp add: client_recv_zbuf_def list_zbuf_def recvData_def Client_new_def Let_def word_sless_alt)
  have "client_recv_zbuf list_zbuf [] ([], 0) (Client_new\<lparr>cl_inputStream := [1, 2, 3]\<rparr>) = None"
    by (simp add: client_recv_zbuf_def list_zbuf_def recvData_def Client_new_def)
  with client_recv_zbuf_fills [OF r] r show ?thesis by simp
qed

end
