(* ===== verification/Watcher.thy ===== *)
theory Watcher
  imports Prelude
begin

text \<open>
  The class \<open>Watcher\<close> of \<open>src-pico/listener.h\<close>, which waits with \<open>select\<close> for events on the
  descriptors of its listeners. Listeners are identified by their address, a value of \<open>'l\<close>; the
  function \<open>fd\<close> gives what \<open>Listener::fd()\<close> returns at the time of the call. \<open>std::set<int>\<close> is a
  sorted list without duplicates, an \<open>fd_set\<close> a set. The callbacks are listed, and taken not to
  call the watcher. \<open>_timeout\<close> is not used.
\<close>

section \<open>State and operations\<close>

record 'l Watcher =
  w_fd :: "int list"
  w_listeners :: "(int \<times> 'l) list"
  w_rfds :: "int set"
  w_wfds :: "int set"
  w_efds :: "int set"
  w_maxFd :: int

definition Watcher_new :: "'l Watcher" where
  "Watcher_new = \<lparr>w_fd = [], w_listeners = [], w_rfds = {}, w_wfds = {}, w_efds = {}, w_maxFd = 0\<rparr>"

text \<open>The capacity of an \<open>fd_set\<close>; setting a descriptor outside of it is undefined.\<close>

definition FD_SETSIZE :: int where
  "FD_SETSIZE = 1024"

definition FD_SET :: "int \<Rightarrow> int set \<Rightarrow> int set outcome" where
  "FD_SET fd fds = (if 0 \<le> fd \<and> fd < FD_SETSIZE then Inr (insert fd fds) else Inl OutOfBounds)"

definition std_insert :: "int \<Rightarrow> int list \<Rightarrow> int list" where
  "std_insert x xs = (if x \<in> set xs then xs else insort x xs)"

fun fds_loop :: "int list \<Rightarrow> 'l Watcher \<Rightarrow> 'l Watcher outcome" where
  "fds_loop [] w = Inr w"
| "fds_loop (fd # fds) w =
     seq (FD_SET fd (w_rfds w)) (\<lambda>rfds. let w = w\<lparr>w_rfds := rfds\<rparr> in
     seq (FD_SET fd (w_efds w)) (\<lambda>efds. let w = w\<lparr>w_efds := efds\<rparr>;
       w = (if w_maxFd w < fd then w\<lparr>w_maxFd := fd\<rparr> else w)
     in fds_loop fds w))"

definition Watcher_addFd :: "('l \<Rightarrow> int) \<Rightarrow> 'l \<Rightarrow> 'l Watcher \<Rightarrow> 'l Watcher outcome" where
  "Watcher_addFd fd listener w =
     (let w = w\<lparr>w_listeners := um_emplace (fd listener) listener (w_listeners w)\<rparr>;
          w = w\<lparr>w_fd := std_insert (fd listener) (w_fd w)\<rparr>;
          w = w\<lparr>w_rfds := {}, w_wfds := {}, w_efds := {}, w_maxFd := 0\<rparr>
      in seq (fds_loop (w_fd w) w) (\<lambda>w. Inr (w\<lparr>w_maxFd := w_maxFd w + 1\<rparr>)))"

definition Watcher_removeFd :: "('l \<Rightarrow> int) \<Rightarrow> 'l \<Rightarrow> 'l Watcher \<Rightarrow> 'l Watcher outcome" where
  "Watcher_removeFd fd listener w =
     (let w = w\<lparr>w_fd := remove1 (fd listener) (w_fd w)\<rparr>;
          w = w\<lparr>w_fd := remove1 (fd listener) (w_fd w)\<rparr>;
          w = w\<lparr>w_rfds := {}, w_wfds := {}, w_efds := {}, w_maxFd := 0\<rparr>
      in if w_fd w \<noteq> [] then fds_loop (w_fd w) w else Inr w)"

section \<open>Waiting\<close>

text \<open>
  \<open>select\<close> is given the number of descriptors, the two sets and the time, and returns its result and
  the sets of ready descriptors. A descriptor without a listener would dereference the end of the map.
\<close>

type_synonym select_fun = "int \<Rightarrow> int set \<Rightarrow> int set \<Rightarrow> u32 \<times> u32 \<Rightarrow> c_int \<times> int set \<times> int set"

datatype 'l callback = OnRxd 'l | OnError 'l

definition ETIMEDOUT :: c_int where "ETIMEDOUT = 110"
definition EIO :: c_int where "EIO = 5"

definition timeval :: "u32 \<Rightarrow> u32 \<times> u32" where
  "timeval msec = (msec div 1000, (msec * 1000) mod 1000000)"

fun wait_loop :: "int list \<Rightarrow> int set \<Rightarrow> int set \<Rightarrow> (int \<times> 'l) list \<Rightarrow> 'l callback list outcome" where
  "wait_loop [] rfds efds m = Inr []"
| "wait_loop (fd # fds) rfds efds m =
     seq (if fd \<in> rfds then (case map_of m fd of None \<Rightarrow> Inl NullDeref | Some l \<Rightarrow> Inr [OnRxd l]) else Inr []) (\<lambda>r.
     seq (if fd \<in> efds then (case map_of m fd of None \<Rightarrow> Inl NullDeref | Some l \<Rightarrow> Inr [OnError l]) else Inr []) (\<lambda>e.
     seq (wait_loop fds rfds efds m) (\<lambda>rest. Inr (r @ e @ rest))))"

definition Watcher_waitIO :: "select_fun \<Rightarrow> u32 \<Rightarrow> 'l Watcher \<Rightarrow> (c_int \<times> 'l callback list) outcome" where
  "Watcher_waitIO select msec w =
     (let (rc, rfds, efds) = select (w_maxFd w) (w_rfds w) (w_efds w) (timeval msec) in
      if rc = 0 then Inr (ETIMEDOUT, [])
      else if rc <s 0 then Inr (EIO, [])
      else seq (wait_loop (w_fd w) rfds efds (w_listeners w)) (\<lambda>calls. Inr (EIO, calls)))"

section \<open>Reachable watchers\<close>

inductive watcher_step :: "('l \<Rightarrow> int) \<Rightarrow> 'l Watcher \<Rightarrow> 'l Watcher \<Rightarrow> bool" for fd where
  step_add: "Watcher_addFd fd l w = Inr w' \<Longrightarrow> watcher_step fd w w'"
| step_remove: "Watcher_removeFd fd l w = Inr w' \<Longrightarrow> watcher_step fd w w'"

definition watcher_ok :: "'l Watcher \<Rightarrow> bool" where
  "watcher_ok w \<longleftrightarrow> sorted (w_fd w) \<and> distinct (w_fd w) \<and> set (w_fd w) \<subseteq> {0..<FD_SETSIZE} \<and>
     w_rfds w = set (w_fd w) \<and> w_efds w = set (w_fd w) \<and> w_wfds w = {} \<and>
     fst ` set (w_listeners w) \<supseteq> set (w_fd w) \<and> distinct (map fst (w_listeners w)) \<and>
     (if w_fd w = [] then w_maxFd w = 0 else w_maxFd w \<in> {Max (set (w_fd w)), Max (set (w_fd w)) + 1})"

lemma fds_loop_eq:
  "fds_loop fds w =
    (if set fds \<subseteq> {0..<FD_SETSIZE}
     then Inr (w\<lparr>w_rfds := w_rfds w \<union> set fds, w_efds := w_efds w \<union> set fds, w_maxFd := fold max fds (w_maxFd w)\<rparr>)
     else Inl OutOfBounds)"
proof (induction fds arbitrary: w)
  case (Cons fd fds)
  have "(if w_maxFd w < fd then w\<lparr>w_maxFd := fd\<rparr> else w) = w\<lparr>w_maxFd := max fd (w_maxFd w)\<rparr>" for w :: "'a Watcher"
    by (simp add: max_def)
  then show ?case
    by (simp add: Cons.IH FD_SET_def Let_def max.commute insert_commute)
qed simp

lemma fold_max_Max:
  assumes "set fds \<subseteq> {0..<FD_SETSIZE}"
  shows "fold max fds (0 :: int) = (if fds = [] then 0 else Max (set fds))"
proof -
  have "0 \<le> Max (set fds)" if "fds \<noteq> []"
    using assms that by (meson List.finite_set Max_in atLeastLessThan_iff set_empty subsetD)
  then show ?thesis
    by (auto simp: Max.set_eq_fold [symmetric] max_absorb2)
qed

lemma set_std_insert [simp]: "set (std_insert x xs) = insert x (set xs)"
  by (auto simp: std_insert_def set_insort_key)

lemma addFd_eq:
  "Watcher_addFd fd l w =
    (let fds = std_insert (fd l) (w_fd w) in
     if set fds \<subseteq> {0..<FD_SETSIZE}
     then Inr (w\<lparr>w_fd := fds, w_listeners := um_emplace (fd l) l (w_listeners w), w_rfds := set fds, w_wfds := {},
       w_efds := set fds, w_maxFd := Max (set fds) + 1\<rparr>)
     else Inl OutOfBounds)"
proof -
  have "std_insert (fd l) (w_fd w) \<noteq> []" by (metis insert_not_empty set_empty set_std_insert)
  then show ?thesis
    by (simp add: Watcher_addFd_def fds_loop_eq fold_max_Max Let_def del: set_std_insert)
qed

lemma removeFd_eq:
  "Watcher_removeFd fd l w =
    (let fds = remove1 (fd l) (remove1 (fd l) (w_fd w)) in
     if set fds \<subseteq> {0..<FD_SETSIZE}
     then Inr (w\<lparr>w_fd := fds, w_rfds := set fds, w_wfds := {}, w_efds := set fds,
       w_maxFd := (if fds = [] then 0 else Max (set fds))\<rparr>)
     else Inl OutOfBounds)"
  by (simp add: Watcher_removeFd_def fds_loop_eq fold_max_Max Let_def)

lemma keys_um_emplace: "fst ` set (um_emplace k v m) = insert k (fst ` set m)"
  by (force simp: um_emplace_def split: option.split dest: map_of_SomeD)

lemma if_Inr_Inl: "(if P then Inr x else Inl e) = Inr y \<Longrightarrow> y = x \<and> P"
  by (cases P) simp_all

lemma watcher_step_ok:
  assumes "watcher_step fd w w'" "watcher_ok w"
  shows "watcher_ok w'"
  using assms(1)
proof cases
  case (step_add l)
  let ?fds = "std_insert (fd l) (w_fd w)"
  have ok: "sorted (w_fd w)" "distinct (w_fd w)" "set (w_fd w) \<subseteq> fst ` set (w_listeners w)"
      "distinct (map fst (w_listeners w))"
    using assms(2) by (simp_all add: watcher_ok_def)
  have w': "w' = w\<lparr>w_fd := ?fds, w_listeners := um_emplace (fd l) l (w_listeners w), w_rfds := set ?fds, w_wfds := {},
      w_efds := set ?fds, w_maxFd := Max (set ?fds) + 1\<rparr>" "set ?fds \<subseteq> {0..<FD_SETSIZE}"
    using if_Inr_Inl [OF step_add [unfolded addFd_eq Let_def]] by (simp_all only: simp_thms)
  have "sorted ?fds" "distinct ?fds"
    using ok by (simp_all add: std_insert_def sorted_insort distinct_insort)
  moreover have "?fds \<noteq> []" by (metis insert_not_empty set_empty set_std_insert)
  moreover have "set ?fds \<subseteq> fst ` set (um_emplace (fd l) l (w_listeners w))"
    unfolding keys_um_emplace set_std_insert using ok(3) by blast
  moreover have "distinct (map fst (um_emplace (fd l) l (w_listeners w)))"
    using ok(4) by (rule distinct_um_emplace)
  ultimately show ?thesis
    using w'(2) unfolding w'(1) watcher_ok_def by (simp del: set_std_insert)
next
  case (step_remove l)
  let ?fds = "remove1 (fd l) (w_fd w)"
  have ok: "sorted (w_fd w)" "distinct (w_fd w)" "set (w_fd w) \<subseteq> fst ` set (w_listeners w)"
      "distinct (map fst (w_listeners w))"
    using assms(2) by (simp_all add: watcher_ok_def)
  have idem: "remove1 (fd l) ?fds = ?fds" using ok(2) by (simp add: remove1_idem)
  have w': "w' = w\<lparr>w_fd := ?fds, w_rfds := set ?fds, w_wfds := {}, w_efds := set ?fds,
      w_maxFd := (if ?fds = [] then 0 else Max (set ?fds))\<rparr>" "set ?fds \<subseteq> {0..<FD_SETSIZE}"
    using if_Inr_Inl [OF step_remove [unfolded removeFd_eq Let_def idem]] by (simp_all only: simp_thms)
  have "sorted ?fds" "distinct ?fds" using ok by (simp_all add: sorted_remove1)
  moreover have "set ?fds \<subseteq> fst ` set (w_listeners w)"
    using ok(3) set_remove1_subset [of "fd l" "w_fd w"] by (rule order_trans [rotated])
  ultimately show ?thesis
    using w'(2) ok(4) unfolding w'(1) watcher_ok_def by simp
qed

lemma watcher_new_ok: "watcher_ok Watcher_new"
  by (simp add: Watcher_new_def watcher_ok_def)

lemma watcher_reachable_ok:
  "(watcher_step fd)\<^sup>*\<^sup>* Watcher_new w \<Longrightarrow> watcher_ok w"
  by (induction rule: rtranclp_induct) (auto simp: watcher_new_ok intro: watcher_step_ok)

text \<open>POSIX: the descriptors reported ready are among the first \<open>n\<close> and those asked for.\<close>

definition select_lawful :: "select_fun \<Rightarrow> bool" where
  "select_lawful select \<longleftrightarrow> (\<forall>n r e tv. case select n r e tv of (rc, r', e') \<Rightarrow>
     r' \<subseteq> r \<inter> {..<n} \<and> e' \<subseteq> e \<inter> {..<n})"

lemma wait_loop_total:
  assumes "set fds \<subseteq> fst ` set m"
  shows "\<exists>calls. wait_loop fds rfds efds m = Inr calls"
  using assms
proof (induction fds)
  case (Cons fd fds)
  then obtain l where "map_of m fd = Some l"
    by (cases "map_of m fd") (auto simp: map_of_eq_None_iff)
  then show ?case using Cons by auto
qed simp

lemma Max_sorted: "sorted xs \<Longrightarrow> xs \<noteq> [] \<Longrightarrow> Max (set xs) = last (xs :: int list)"
  by (cases xs rule: rev_cases) (auto simp: sorted_append intro: Max_eqI)

lemma wait_loop_snoc:
  "fd \<notin> rfds \<Longrightarrow> fd \<notin> efds \<Longrightarrow> wait_loop (fds @ [fd]) rfds efds m = wait_loop fds rfds efds m"
  by (induction fds) simp_all

section \<open>Properties\<close>


definition demo_watcher :: "int Watcher" where
  "demo_watcher = \<lparr>w_fd = [3, 5], w_listeners = [(5, 5), (3, 3)], w_rfds = {3, 5}, w_wfds = {}, w_efds = {3, 5}, w_maxFd = 6\<rparr>"

lemma demo_watcher_reachable: "(watcher_step id)\<^sup>*\<^sup>* Watcher_new demo_watcher"
proof -
  have "Watcher_addFd id 5 Watcher_new = Inr \<lparr>w_fd = [5], w_listeners = [(5, 5)], w_rfds = {5}, w_wfds = {}, w_efds = {5}, w_maxFd = 6\<rparr>"
    by (simp add: addFd_eq Watcher_new_def std_insert_def um_emplace_def FD_SETSIZE_def)
  moreover have "Watcher_addFd id 3 \<lparr>w_fd = [5], w_listeners = [(5, 5)], w_rfds = {5}, w_wfds = {}, w_efds = {5}, w_maxFd = 6\<rparr> =
      Inr demo_watcher"
    by (simp add: addFd_eq demo_watcher_def std_insert_def um_emplace_def FD_SETSIZE_def)
  ultimately show ?thesis
    by (blast intro: step_add rtranclp.rtrancl_into_rtrancl)
qed

text \<open>A \<open>select\<close> for which everything it is asked for is ready.\<close>

definition all_ready :: select_fun where
  "all_ready n r e tv = (1, {fd \<in> r. fd < n}, {fd \<in> e. fd < n})"


text \<open>
  Removal. After \<open>removeFd\<close> the highest descriptor that is left is not polled any more: \<open>waitIO\<close>
  behaves as if it had been removed too.
\<close>

theorem watcher_remove_loses_highest:
  assumes "(watcher_step fd)\<^sup>*\<^sup>* Watcher_new w" and "Watcher_removeFd fd l w = Inr w'" and "select_lawful select"
  shows "Watcher_waitIO select msec w' = Watcher_waitIO select msec (w'\<lparr>w_fd := butlast (w_fd w')\<rparr>)"
proof (cases "w_fd w' = []")
  case False
  have ok: "watcher_ok w'"
    using watcher_step_ok step_remove assms(2) watcher_reachable_ok [OF assms(1)] by metis
  have "w_maxFd w' = Max (set (w_fd w'))"
    using assms(2) False by (auto simp: removeFd_eq Let_def split: if_splits)
  also have "\<dots> = last (w_fd w')"
    using ok False by (auto simp: watcher_ok_def Max_sorted)
  finally have m: "w_maxFd w' = last (w_fd w')" .
  obtain rc r e where s: "select (w_maxFd w') (w_rfds w') (w_efds w') (timeval msec) = (rc, r, e)"
    by (metis prod.exhaust)
  have "last (w_fd w') \<notin> r" "last (w_fd w') \<notin> e"
    using assms(3) s m unfolding select_lawful_def by (metis (lifting) Int_iff case_prodD lessThan_iff less_irrefl subsetD)+
  then have "wait_loop (w_fd w') r e (w_listeners w') = wait_loop (butlast (w_fd w')) r e (w_listeners w')"
    using wait_loop_snoc [of "last (w_fd w')" r e "butlast (w_fd w')"] False by simp
  then show ?thesis
    by (simp add: Watcher_waitIO_def s)
qed (simp add: Watcher_waitIO_def split: prod.split)

lemma watcher_remove_loses_highest_witness:
  "\<exists>w'. Watcher_removeFd id 5 demo_watcher = Inr w' \<and> w_fd w' = [3] \<and> Watcher_waitIO all_ready 10 w' = Inr (EIO, [])"
proof -
  let ?w = "demo_watcher\<lparr>w_fd := [3], w_rfds := {3}, w_wfds := {}, w_efds := {3}, w_maxFd := 3\<rparr>"
  have r: "Watcher_removeFd id 5 demo_watcher = Inr ?w"
    by (simp add: removeFd_eq demo_watcher_def FD_SETSIZE_def)
  have "select_lawful all_ready" by (auto simp: select_lawful_def all_ready_def)
  from watcher_remove_loses_highest [OF demo_watcher_reachable r this, of 10] r show ?thesis
    by (simp add: Watcher_waitIO_def all_ready_def)
qed

text \<open>
  Listeners stay for ever: whatever is added and removed later, the events of a descriptor go to
  the first listener that was added for it.
\<close>

theorem watcher_keeps_first_listener:
  assumes "(watcher_step fd)\<^sup>*\<^sup>* w w'" and "map_of (w_listeners w) k = Some l"
  shows "map_of (w_listeners w') k = Some l"
  using assms
proof (induction rule: rtranclp_induct)
  case (step w' w'')
  from step.hyps(2) show ?case
    by cases (use step in \<open>auto simp: addFd_eq removeFd_eq Let_def map_of_um_emplace split: if_splits option.splits\<close>)
qed simp

lemma timeval_arith: "(n div 1000) * 1000000 + (n * 1000) mod 1000000 = 1000 * (n :: nat)"
proof -
  have "(n * 1000) mod 1000000 = (n mod 1000) * 1000"
    using mult_mod_right [of 1000 n 1000] by (simp add: mult.commute)
  moreover have "(n div 1000) * 1000 + n mod 1000 = n" by simp
  ultimately show ?thesis by linarith
qed

text \<open>The time given to \<open>select\<close> is the requested one up to 4294967 ms, behind which \<open>msec * 1000\<close> wraps.\<close>

theorem watcher_timeval:
  "unat (snd (timeval msec)) < 1000000 \<and>
    (msec \<le> 4294967 \<longrightarrow> unat (fst (timeval msec)) * 1000000 + unat (snd (timeval msec)) = 1000 * unat msec)"
proof -
  have "unat (snd (timeval msec)) = (unat msec * 1000 mod 2 ^ 32) mod 1000000"
    by (simp add: timeval_def unat_mod unat_word_ariths(2))
  moreover have "unat (fst (timeval msec)) = unat msec div 1000"
    by (simp add: timeval_def unat_div)
  ultimately show ?thesis
    by (auto simp: word_le_nat_alt timeval_arith)
qed

end
