(* ===== verification/Sys_Time.thy ===== *)
theory Sys_Time
  imports Prelude
begin

text \<open>
  The class \<open>Sys\<close> of \<open>src/Sys.cpp\<close>: the time since boot, the wall clock that is set relative to
  it, and the host name. The monotonic clock is an argument: the seconds and nanoseconds that
  \<open>clock_gettime\<close> returns. A host name is a C string, given by its bytes before the terminating
  zero; the buffer \<open>_hostname\<close> has 30 bytes and is zero at the start. The branch for macOS is left out; what
  \<open>__DATE__\<close> and \<open>__TIME__\<close> expand to is the argument of \<open>Sys_getBuild\<close>.
\<close>

section \<open>State\<close>

record Sys =
  sys_upTime :: u64
  sys_boot_time :: u64
  sys_hostname :: bytes

definition Sys_start :: Sys where
  "Sys_start = \<lparr>sys_upTime = 0, sys_boot_time = 0, sys_hostname = replicate 30 0\<rparr>"

section \<open>Time\<close>

definition Sys_millis :: "u64 \<times> u64 \<Rightarrow> Sys \<Rightarrow> u64 \<times> Sys" where
  "Sys_millis deadline s =
     (let s = s\<lparr>sys_upTime := fst deadline * 1000 + snd deadline div 1000000\<rparr> in (sys_upTime s, s))"

definition Sys_now :: "u64 \<times> u64 \<Rightarrow> Sys \<Rightarrow> u64 \<times> Sys" where
  "Sys_now deadline s = (let (t, s) = Sys_millis deadline s in (sys_boot_time s + t, s))"

definition Sys_setNow :: "u64 \<times> u64 \<Rightarrow> u64 \<Rightarrow> Sys \<Rightarrow> Sys" where
  "Sys_setNow deadline n s = (let (t, s) = Sys_millis deadline s in s\<lparr>sys_boot_time := n - t\<rparr>)"

definition SysMillis :: "u64 \<times> u64 \<Rightarrow> Sys \<Rightarrow> u64 \<times> Sys" where
  "SysMillis = Sys_millis"

text \<open>The microseconds that \<open>usleep\<close> is called with.\<close>

definition Sys_delay :: "u32 \<Rightarrow> u32" where
  "Sys_delay time = time * 1000"

section \<open>Host name\<close>

text \<open>
  \<open>strncpy\<close> of the string \<open>src\<close> into the front of the buffer \<open>dest\<close>: it writes \<open>n\<close> bytes, the
  string padded with zeros or its first \<open>n\<close> bytes; behind the end of \<open>dest\<close> that is undefined.
\<close>

definition strncpy :: "bytes \<Rightarrow> bytes \<Rightarrow> nat \<Rightarrow> bytes outcome" where
  "strncpy dest src n =
     (if length dest < n then Inl OutOfBounds
      else Inr (take n src @ replicate (n - length src) 0 @ drop n dest))"

definition read_c_string :: "bytes \<Rightarrow> bytes outcome" where
  "read_c_string buf = (if 0 \<in> set buf then Inr (takeWhile (\<lambda>c. c \<noteq> 0) buf) else Inl OutOfBounds)"

text \<open>
  \<open>gethostname\<close> with 30 bytes: a longer name is cut off without a terminating zero (glibc copies
  what fits and reports an error, which the code ignores).
\<close>

definition Sys_init :: "bytes \<Rightarrow> Sys \<Rightarrow> Sys" where
  "Sys_init nodename s =
     s\<lparr>sys_hostname := take 30 (nodename @ [0]) @ drop (Suc (length nodename)) (sys_hostname s)\<rparr>"

definition Sys_hostname :: "bytes \<Rightarrow> Sys \<Rightarrow> Sys outcome" where
  "Sys_hostname h s = seq (strncpy (sys_hostname s) h 30) (\<lambda>buf. Inr (s\<lparr>sys_hostname := buf\<rparr>))"

definition Sys_setHostname :: "bytes \<Rightarrow> Sys \<Rightarrow> Sys outcome" where
  "Sys_setHostname h s = seq (strncpy (sys_hostname s) h (length h + 1)) (\<lambda>buf. Inr (s\<lparr>sys_hostname := buf\<rparr>))"

text \<open>What a reader of the returned pointer sees.\<close>

definition Sys_get_hostname :: "Sys \<Rightarrow> bytes outcome" where
  "Sys_get_hostname s = read_c_string (sys_hostname s)"

section \<open>Constants\<close>

definition Sys_getSerialId :: u32 where "Sys_getSerialId = 0xDEADBEEF"
definition Sys_getProcessor :: string where "Sys_getProcessor = ''AMD64''"
definition Sys_getBuild :: "string \<Rightarrow> string \<Rightarrow> string" where "Sys_getBuild date time = date @ '' '' @ time"
definition Sys_getFreeHeap :: u32 where "Sys_getFreeHeap = 123456789"

section \<open>Properties\<close>

lemma read_c_string_terminated:
  "0 \<notin> set h \<Longrightarrow> read_c_string (h @ 0 # rest) = Inr h"
  by (induction h) (auto simp: read_c_string_def split: if_splits)

lemma replicate_zero: "0 < n \<Longrightarrow> replicate n (0 :: byte) = 0 # replicate (n - 1) 0"
  by (cases n) simp_all

text \<open>
  The wall clock. After it has been set to \<open>n\<close>, the clock shows \<open>n\<close> plus the milliseconds that
  have passed, modulo \<open>2^64\<close>, whatever was set before.
\<close>

theorem sys_now_after_setNow:
  "fst (Sys_now t' (Sys_setNow t n s)) = n + (fst (Sys_millis t' s) - fst (Sys_millis t s)) \<and>
    sys_boot_time (snd (Sys_now t' (Sys_setNow t n s))) = n - fst (Sys_millis t s) \<and>
    sys_hostname (Sys_setNow t n s) = sys_hostname s"
  by (simp add: Sys_now_def Sys_setNow_def Sys_millis_def)

text \<open>
  C38: The host name. A name of fewer than 30 bytes is read back as it was set, through both
  functions; with a longer one \<open>hostname\<close> leaves a buffer without a terminating zero, so that
  reading the name runs out of it, and \<open>setHostname\<close> writes behind the buffer.
\<close>

theorem sys_hostname_roundtrip:
  assumes "length (sys_hostname s) = 30" and "0 \<notin> set h"
  shows "if length h < 30
    then seq (Sys_hostname h s) Sys_get_hostname = Inr h \<and> seq (Sys_setHostname h s) Sys_get_hostname = Inr h
    else seq (Sys_hostname h s) Sys_get_hostname = Inl OutOfBounds \<and> Sys_setHostname h s = Inl OutOfBounds"
proof (cases "length h < 30")
  case True
  then have "replicate (30 - length h) (0 :: byte) = 0 # replicate (29 - length h) 0"
    using replicate_zero [of "30 - length h"] by simp
  with True show ?thesis
    using assms read_c_string_terminated [OF assms(2)]
    by (simp add: Sys_hostname_def Sys_setHostname_def Sys_get_hostname_def strncpy_def)
next
  case False
  have "0 \<notin> set (take 30 h)" using assms(2) by (meson in_set_takeD)
  with False show ?thesis
    using assms by (simp add: Sys_hostname_def Sys_setHostname_def Sys_get_hostname_def strncpy_def read_c_string_def)
qed

lemma sys_hostname_roundtrip_witness:
  "seq (Sys_hostname [0x70, 0x69] Sys_start) Sys_get_hostname = Inr [0x70, 0x69] \<and>
    Sys_setHostname (replicate 30 0x61) Sys_start = Inl OutOfBounds"
proof -
  have l: "length (sys_hostname Sys_start) = 30" by (simp add: Sys_start_def)
  show ?thesis
    using sys_hostname_roundtrip [OF l, of "[0x70, 0x69]"] sys_hostname_roundtrip [OF l, of "replicate 30 0x61"] by simp
qed

text \<open>The delay is the requested one up to 4294967 ms; a longer one wraps and is shorter.\<close>

theorem sys_delay_wraps:
  "unat (Sys_delay time) = 1000 * unat time \<longleftrightarrow> unat time \<le> 4294967"
proof -
  have "unat (Sys_delay time) = (unat time * 1000) mod 2 ^ 32"
    by (simp add: Sys_delay_def unat_word_ariths(2))
  then show ?thesis
    by (auto simp: mod_less)
qed

end
