(* ===== verification/Spec2Isabelle.thy ===== *)
theory Spec2Isabelle
  imports System_Recovery Broker_Interface Shared_Serializer Board Proxy_Faults Device_Faults Proxy_Log Unit_Tests Publisher_Examples
    Host_Program Pico_Proxy Pico_Transport Watcher Sys_Time
begin

text \<open>
  A verification development for zenoh-proxy, a proxy between Zenoh and microcontrollers on serial
  lines.

  \<^bold>\<open>The program.\<close> A device (\<open>zenoh-arduino/\<close>) owns publishers and subscribers. It talks to the proxy
  (\<open>src/proxy.cpp\<close>) over a serial line: a message (\<open>common/broker_protocol.h\<close>) is serialized as a
  CBOR array (\<open>common/CborSerializer.cpp\<close>), framed with byte stuffing and a checksum
  (\<open>common/ppp_frame.cpp\<close>) and cut into chunks by the line. The proxy finds the frames
  (\<open>common/Frame.cpp\<close>), selects a handler by the message type, and calls the Zenoh broker
  (\<open>src/BrokerZenoh.cpp\<close>); a sample for a subscriber takes the way back. An older pair tunnels the
  TCP stream of zenoh-pico: the client (\<open>src_client/unix_serial.cpp\<close>) sends its data in frames with a
  command byte, and the proxy of \<open>src-pico/\<close> relays between the serial line and a TCP connection to
  the router.

  \<^bold>\<open>Theories: shared parts.\<close>
  \<open>Prelude\<close>: machine types, faults (\<open>Inl\<close> of a fault is undefined behaviour or an abort of the C++
  code), sequencing, loops over vectors, unordered maps.
  \<open>Fcs_Checksum\<close>, \<open>Ppp_Frame\<close>: \<open>common/ppp_frame.cpp\<close>; the checksum against the bitwise CRC, the
  round trip, soundness and error detection of deframing, its faults.
  \<open>Framing\<close>: an abstract framer and the locale \<open>framer\<close> of its implementations, with delivery,
  resynchronisation and independence of the chunks proved once. It is implemented by
  \<open>Frame_Extractor\<close> (\<open>common/Frame.cpp\<close>), \<open>Device_Framer\<close> (\<open>BytesToFrame\<close> of
  \<open>zenoh-arduino/src/BrokerSerial.h\<close>) and \<open>Pico_Client\<close> (\<open>src_client/unix_serial.cpp\<close>).
  \<open>Util\<close>: \<open>common/util.cpp\<close>, \<open>common/util.h\<close>; \<open>src/util.cpp\<close> has the same functions.
  \<open>Broker_Protocol\<close>: messages and their \<open>reflect\<close> templates over any reflector; the locales
  \<open>message_writer\<close> and \<open>message_reader\<close>.
  \<open>Cbor_Codec\<close>: \<open>CborSerializer\<close> and \<open>CborDeserializer\<close> over the parameter \<open>tinycbor\<close>, with the
  documented behaviour of that library as the locale \<open>tinycbor_laws\<close>, which joins those of its
  encoder and of its parser.
  \<open>Cbor_Wire\<close>: an RFC 8949 codec that satisfies these laws and runs the witnesses.
  \<open>Message_Roundtrip\<close>: every message through serializer and deserializer.
  \<open>Cbor_Dump\<close>: \<open>common/CborDump.cpp\<close>, a recursion over the parameter \<open>cbor_iter\<close> that may not end, so
  a partial function; it shows the tree of the items, and returns when every step shortens the rest.

  \<^bold>\<open>Theories: the proxy.\<close>
  \<open>Zenoh_Api\<close>, \<open>Broker_Zenoh\<close>: \<open>src/BrokerZenoh.cpp\<close> over the trace of its zenoh calls, with the
  accounting of declared handles (locale \<open>handle_registry\<close>, interpreted for both maps, and for the
  subscribers of \<open>src-pico/zenoh_session.cpp\<close> in \<open>Zenoh_Session\<close>).
  \<open>Msg_Filter\<close>, \<open>Proxy\<close>, \<open>Host\<close>: \<open>src/proxy.cpp\<close>; the flows and handlers, the abstract
  specification of a message (\<open>broker_effect\<close>, \<open>reply_items\<close>) and its refinement by the pipeline
  from the serial bytes on.
  \<open>Broker_Interface\<close>: \<open>common/BrokerAbstract.h\<close>, its contract (locale \<open>broker_interface\<close>) and the
  refinement of it by \<open>BrokerZenoh\<close>.
  \<open>Codec_Types\<close>: what every message keeps of serializer, deserializer and filters (locale
  \<open>keeps_reflector\<close>); \<open>Proxy_Types\<close>: the well-formedness of the proxy's state, kept over chunks, samples and reconnects.
  \<open>Codec_Faults\<close>: which faults a frame can cause in \<open>ppp_deframe\<close>, the deserializer and the filters
  (locales \<open>reflector_bytes_faults\<close> and \<open>reflector_faults\<close>); \<open>Proxy_Faults\<close> and \<open>Device_Faults\<close>: which ones the bytes of the serial
  line can cause in the proxy and in the device, in any state they can reach.
  \<open>Proxy_Log\<close>: the two flows that log the dump of every message; they return, abort nothing and
  leave what the proxy does as it is.
  \<open>Shared_Serializer\<close>: the serializer that the worker thread and zenoh's thread share, with the calls
  of the two threads interleaved.
  \<open>Host_Start\<close>: configuration, the start of \<open>main\<close>, \<open>src/config.cpp\<close> and the \<open>scout\<close> functions.
  \<open>Host_Program\<close>: serial session, pipeline and broker together, from the reads of a wake-up to the
  writes of the replies; what is left of it when the line is lost.
  \<open>Serial\<close>, \<open>Serial_Session\<close>: \<open>src/serial.cpp\<close>, \<open>src/serial_session.cpp\<close> over the trace of
  their system calls; \<open>txd\<close> and \<open>rxd\<close> are loops that may not end, so partial functions, with
  conditions under which they return.
  \<open>Sys_Time\<close>: \<open>src/Sys.cpp\<close>; the clock and the fixed buffer of the host name.

  \<^bold>\<open>Theories: the device.\<close>
  \<open>Device_Broker\<close>, \<open>Device_Session\<close>, \<open>Device\<close>: \<open>zenoh-arduino/src/broker.h\<close> and
  \<open>BrokerSerial.cpp\<close>; resources, timers as a step relation, latency and registration.
  \<open>Peripherals\<close>: \<open>Button\<close> and \<open>LedBlinker\<close>. \<open>Board\<close>: \<open>zenoh-arduino/src/main.cpp\<close>, the program of the
  microcontroller as a step relation of its timers, queue, serial port and interrupts.

  \<^bold>\<open>Theories: both ends.\<close>
  \<open>Link\<close>, \<open>Loopback\<close>, \<open>Whole_System\<close> and this theory join the device and the proxy by a line: the
  handshake, the message that travels from the device through zenoh back to the device, and the two
  ends with what is under way between them as one state machine, from power on to the loop and over a
  restart of the proxy. \<open>System_Safety\<close>: no order of events, losses of frames and restarts of either end included, makes an
  event of this machine fail, and the device sends nothing but its own messages. \<open>System_Recovery\<close>:
  the proxy's tables hold nothing but the device's resources, and from every state the machine can get into
  the two ends find each other again.

  \<^bold>\<open>Theories: the tunnel.\<close>
  \<open>Pico_Client\<close>, \<open>Pico_Transport\<close>: \<open>src_client/unix_serial.cpp\<close>.
  \<open>Sockets\<close>, \<open>Socket_Loops\<close>: \<open>src-pico/tcp.cpp\<close> over the trace of its socket calls; the receive and
  send loops are partial functions, with what they deliver, when they return and when they leave
  their buffer.
  \<open>Tcp_Session\<close>, \<open>Pico_Proxy\<close>: \<open>src-pico/tcp_session.cpp\<close>, \<open>src-pico/proxy.cpp\<close>; the session as a
  step relation, what the client reads of what the router sends, and what the proxy does with the
  bytes of the client.
  \<open>Watcher\<close>: \<open>src-pico/listener.h\<close>, the sets given to \<open>select\<close>.

  \<^bold>\<open>Theories: tests and examples.\<close>
  \<open>Unit_Tests\<close>: \<open>src/test.cpp\<close>; its tests as programs over the codec, and that they pass.
  \<open>Publisher_Examples\<close>: \<open>src_client/serial_client.cpp\<close> and \<open>src-pico/zn_pubsub.c\<close>; endless loops as the
  state after every number of rounds.

  \<^bold>\<open>Conventions.\<close> The clock is an argument: \<open>clk i\<close> is what the i-th reading of \<open>Sys::millis()\<close> while a
  chunk is handled returns. Memory that the code does not initialise is an argument (\<open>garbage\<close>,
  \<open>junk\<close>). External libraries (tinycbor, zenoh, the operating system) are records of functions
  that the operations take as arguments. Hypotheses on sizes (\<open>message_bytes\<close>) say that a message
  fits the fixed buffers of 1024 bytes in the proxy and 100 bytes on the device.

  \<^bold>\<open>Not modelled.\<close> Log lines other than those of \<open>Proxy_Log\<close>. The conversions of ArduinoJson are parameters. The macOS branch of \<open>src/Sys.cpp\<close>. \<open>zenoh-arduino/src/CborSer.h\<close>, a draft that no file includes and that does
  not compile; \<open>src-pico/broker.h\<close>, declarations without code. The
  limero library is modelled by what the sources use of it: flows call their handlers in the order
  of connection.
\<close>

text \<open>
  C4: Handshake. A device that is not connected and a proxy, joined by a line that delivers every
  frame in time: the keep-alive timer of the device makes it send a connect, the proxy answers,
  the device becomes connected and registers, and the proxy's broker ends in the state that a
  connect and the declaration of every subscriber and publisher of the device lead to, in that
  order and without a further reply.
\<close>

theorem handshake:
  assumes "cbor_channel tc open_array at item_size 1024 1024"
    and "message_bytes item_size (items_MsgConnect \<lparr>clientId = brokerSrcPrefix\<rparr>) \<le> 100"
    and "message_bytes item_size (items_MsgConnect connected_reply) \<le> 1024"
    and "list_all (\<lambda>r. message_bytes item_size (subscriber_items r) \<le> 100) (dev_subscribers (dev_broker v))"
    and "list_all (\<lambda>r. message_bytes item_size (publisher_items r) \<le> 100) (dev_publishers (dev_broker v))"
    and "registration (dev_broker v) \<noteq> []"
    and "ser_capacity (dev_toCbor (dev_broker v)) = 100" and "\<not> dev_connected (dev_broker v)"
    and "device_filters 1024 (dev_filters v)" and "dev_inputFrame (dev_framer v) = []"
    and "proxy_ok 1024 1024 (proxy h)" and "inputFrame (bytesToFrame h) = []"
    and "carries up" and "carries down"
  shows "\<exists>d1 out1 h1 out2 v2 out3 h3.
    on_keepAlive tc g millis (dev_broker v) = Inr d1 \<and>
    serial_written d1 = serial_written (dev_broker v) @ out1 \<and>
    run_chunks (serial_incoming tc z junk) (up (concat out1)) h = Inr h1 \<and>
    serial_out (uplink (core (proxy h1))) = serial_out (uplink (core (proxy h))) @ out2 \<and>
    run_chunks (onRxd tc g gi junk t0 now) (down (concat out2)) (v\<lparr>dev_broker := d1\<rparr>) = Inr v2 \<and>
    serial_written (dev_broker v2) = serial_written d1 @ out3 \<and>
    run_chunks (serial_incoming tc z junk) (up (concat out3)) h1 = Inr h3 \<and>
    dev_connected (dev_broker v2) \<and>
    broker (core (proxy h3)) = fold (broker_effect z (forward_sample tc))
      (Connect \<lparr>clientId = brokerSrcPrefix\<rparr> # registration (dev_broker v)) (broker (core (proxy h))) \<and>
    serial_out (uplink (core (proxy h3))) = serial_out (uplink (core (proxy h1)))"
proof -
  from hello_answered [OF assms(1-3,7,8,11-13), of g millis z junk] obtain d1 out1 h1 bs where
    d1: "on_keepAlive tc g millis (dev_broker v) = Inr d1"
      "sends tc at [items_MsgConnect \<lparr>clientId = brokerSrcPrefix\<rparr>] (dev_broker v) d1"
      "serial_written d1 = serial_written (dev_broker v) @ out1"
    and h1: "run_chunks (serial_incoming tc z junk) (up (concat out1)) h = Inr h1"
      "proxy_ok 1024 1024 (proxy h1)" "inputFrame (bytesToFrame h1) = []"
      "broker (core (proxy h1)) = broker_effect z (forward_sample tc) (Connect \<lparr>clientId = brokerSrcPrefix\<rparr>) (broker (core (proxy h)))"
      "serial_out (uplink (core (proxy h1))) = serial_out (uplink (core (proxy h))) @ [ppp_frame bs]"
    and bs: "cbor_encodes tc at 1024 (items_MsgConnect connected_reply) bs"
    by blast
  note keeps = sends_keeps [OF d1(2)]
  let ?v = "v\<lparr>dev_broker := d1\<rparr>"
  from registers_on_connect [OF assms(1) _ _ _ assms(9) bs, of d1 g gi junk t0 now] assms(4,5,7)
  obtain fs d2 where d2: "bytesToFrame_on tc g gi junk t0 now bs (dev_filters ?v, dev_broker ?v) = Inr (fs, d2)"
    "dev_connected d2"
    "sends tc at (map subscriber_items (dev_subscribers d1) @ map publisher_items (dev_publishers d1))
      (set_connected True d1) d2"
    by (auto simp: keeps)
  from d2(3) obtain out3 where
    out3: "serial_written d2 = serial_written d1 @ out3" "frames_of tc at 100 (map client_items (registration (dev_broker v))) out3"
    by (auto simp: sends_def registration_items keeps)
  have "bs \<noteq> []" using bs by (simp add: cbor_encodes_def)
  from device_reads_frame [OF _ _ this _ d2(1), of "down (ppp_frame bs)"] assms(10) obtain e where
    v2: "run_chunks (onRxd tc g gi junk t0 now) (down (ppp_frame bs)) ?v =
      Inr (?v\<lparr>dev_framer := e, dev_filters := fs, dev_broker := d2\<rparr>)"
    by (auto simp: timeouts carries_frames [OF assms(14)])
  from line_serves_sent [OF assms(1,3) h1(2,3) assms(13) out3(2) assms(6), of z junk] obtain h3 where
    h3: "run_chunks (serial_incoming tc z junk) (up (concat out3)) h1 = Inr h3"
      "broker (core (proxy h3)) = fold (broker_effect z (forward_sample tc)) (registration (dev_broker v)) (broker (core (proxy h1)))"
      "serial_out (uplink (core (proxy h3))) = serial_out (uplink (core (proxy h1)))"
    by (auto simp: registration_items)
  show ?thesis
    by (rule exI [of _ d1], rule exI [of _ out1], rule exI [of _ h1], rule exI [of _ "[ppp_frame bs]"],
        rule exI [of _ "?v\<lparr>dev_framer := e, dev_filters := fs, dev_broker := d2\<rparr>"],
        rule exI [of _ out3], rule exI [of _ h3])
      (use d1(1,3) h1(1,4,5) v2 d2(2) out3(1) h3 in simp)
qed

lemma handshake_witness:
  "\<exists>d1 out1 h1 out2 v2 out3 h3.
    on_keepAlive wire (0, [], False) 7 (dev_broker wire_board) = Inr d1 \<and>
    serial_written d1 = serial_written (dev_broker wire_board) @ out1 \<and>
    run_chunks (serial_incoming wire numbering_zenoh 0) (wire_line (concat out1)) wire_host = Inr h1 \<and>
    serial_out (uplink (core (proxy h1))) = serial_out (uplink (core (proxy wire_host))) @ out2 \<and>
    run_chunks (onRxd wire (0, [], False) [] 0 0 (8, 9)) (wire_line (concat out2)) (wire_board\<lparr>dev_broker := d1\<rparr>) =
      Inr v2 \<and>
    serial_written (dev_broker v2) = serial_written d1 @ out3 \<and>
    run_chunks (serial_incoming wire numbering_zenoh 0) (wire_line (concat out3)) h1 = Inr h3 \<and>
    dev_connected (dev_broker v2) \<and>
    broker (core (proxy h3)) = fold (broker_effect numbering_zenoh (forward_sample wire))
      (Connect \<lparr>clientId = brokerSrcPrefix\<rparr> # registration (dev_broker wire_board)) (broker (core (proxy wire_host))) \<and>
    serial_out (uplink (core (proxy h3))) = serial_out (uplink (core (proxy h1)))"
proof (rule handshake [OF wire.cbor_channel_axioms wire_device_fits(1) connected_fits])
  show "list_all (\<lambda>r. message_bytes wire_size (subscriber_items r) \<le> 100) (dev_subscribers (dev_broker wire_board))"
    "list_all (\<lambda>r. message_bytes wire_size (publisher_items r) \<le> 100) (dev_publishers (dev_broker wire_board))"
    using wire_device_fits(2,3) [of 0] by (simp_all only: wire_board_def Device.simps)
qed (simp_all only: wire_line wire_host_ok, simp_all add: wire_board_def registration_def BytesToFrame_new_def)

text \<open>
  C1: From power on to the loop. A device and a proxy as their programs construct them, whatever was
  in memory, on a line that delivers every frame in time, with a zenoh that opens sessions and
  accepts declarations: after one keep-alive of the device the proxy knows the two publishers and the
  subscriber of the device; at the next keep-alive it writes the device's uptime to the publisher's
  resource; when zenoh hands that value to the subscriber, the device notes the time, the
  difference of its clock to the time sent is written to the resource of the latency publisher,
  and the connect timer keeps the connection for the five seconds that follow.
\<close>

theorem boot_to_loopback:
  fixes env :: "('e, 'i) surroundings"
  assumes "surroundings_ok env open_array at item_size" "zenoh_serves (zenoh_lib env)"
    and "s0 = System_new (Board_new flag garbage enc it null loopback) (Host_new hflag hgarbage henc hit)"
    and "registration_fits item_size (dev_broker (board s0))" and "sent < 2 ^ 31"
    and "uptime_fits item_size 0 sent" "uptime_fits item_size 1 (fst now - sent)" "uptime_fits item_size 2 sent"
  shows "\<exists>s1 s2 s3 rid1 rid2 uptime latency.
    system_run env [KeepAliveTick t, ArriveUp, ArriveDown t', ArriveUp] s0 = Inr s1 \<and>
    dev_connected (dev_broker (board s1)) \<and> knows_own_resources (forward_sample (codec env)) (host_broker s1) \<and>
    system_run env [KeepAliveTick sent, ArriveUp] s1 = Inr s2 \<and>
    zn_calls (host_broker s2) = zn_calls (host_broker s1) @ [ZnWrite (zenoh_session (host_broker s1)) (Rid rid1) uptime] \<and>
    cbor_encodes (codec env) at 100 (uptime_items sent) uptime \<and>
    system_run env [ZenohSample 2 uptime, ArriveDown now, ArriveUp] s2 = Inr s3 \<and>
    loopbackReceived (dev_broker (board s3)) = snd now \<and>
    zn_calls (host_broker s3) = zn_calls (host_broker s2) @ [ZnWrite (zenoh_session (host_broker s1)) (Rid rid2) latency] \<and>
    cbor_encodes (codec env) at 100 (uptime_items (fst now - sent)) latency \<and>
    (\<forall>t. t - snd now \<le> 5000 \<longrightarrow> dev_connected (on_connectTimer t (dev_broker (board s3))))"
proof -
  have s0: "quiet s0" "\<not> dev_connected (dev_broker (board s0))" "has_own_resources (dev_broker (board s0))"
    "host_broker s0 = BrokerZenoh_new"
    by (simp_all add: assms(3) quiet_def)
  then have "registration (dev_broker (board s0)) \<noteq> []" by (simp add: registration_own)
  from system_registers [OF assms(1) s0(1,2) assms(4) this, of t t'] obtain s1 where
    s1: "system_run env [KeepAliveTick t, ArriveUp, ArriveDown t', ArriveUp] s0 = Inr s1" "quiet s1"
      "dev_connected (dev_broker (board s1))" "same_resources (dev_broker (board s0)) (dev_broker (board s1))"
      "knows_own_resources (forward_sample (codec env)) (host_broker s1)"
    using registration_known [OF s0(3) assms(2), of "forward_sample (codec env)"] s0(4) by auto
  from known_device_loops [OF assms(1) s1(2,3) own_resources_same [OF s1(4) s0(3)] s1(5) assms(5-8)] obtain s2 s3 rid1 rid2 v v' bs bs' where
    s2: "system_run env [KeepAliveTick sent, ArriveUp] s1 = Inr s2"
      "dev_broker (board s2) = outgoingFrame_on bs (dev_broker (board s1))"
      "zn_calls (host_broker s2) = zn_calls (host_broker s1) @ [ZnWrite (zenoh_session (host_broker s1)) (Rid rid1) v]"
      "cbor_encodes (codec env) at 100 (uptime_items sent) v"
    and s3: "system_run env [ZenohSample 2 v, ArriveDown now, ArriveUp] s2 = Inr s3"
      "dev_broker (board s3) = outgoingFrame_on bs' (dev_broker (board s2))\<lparr>loopbackReceived := snd now\<rparr>"
      "zn_calls (host_broker s3) = zn_calls (host_broker s2) @ [ZnWrite (zenoh_session (host_broker s1)) (Rid rid2) v']"
      "cbor_encodes (codec env) at 100 (uptime_items (fst now - sent)) v'"
    by blast
  have stays: "dev_connected (on_connectTimer t (dev_broker (board s3)))" if "t - snd now \<le> 5000" for t
    using that s1(3) by (simp add: on_connectTimer_def s3(2) s2(2) outgoingFrame_on_def not_less [symmetric])
  show ?thesis
    by (rule exI [of _ s1], rule exI [of _ s2], rule exI [of _ s3], rule exI [of _ rid1], rule exI [of _ rid2],
        rule exI [of _ v], rule exI [of _ v']) (use s1 s2 s3 stays in simp)
qed

lemma boot_to_loopback_witness:
  "\<exists>s1 s2 s3 uptime.
    system_run wire_surroundings [KeepAliveTick 1000, ArriveUp, ArriveDown (1010 :: u64, 1010 :: u64), ArriveUp] power_on = Inr s1 \<and>
    system_run wire_surroundings [KeepAliveTick 2000, ArriveUp] s1 = Inr s2 \<and>
    system_run wire_surroundings [ZenohSample 2 uptime, ArriveDown (2005 :: u64, 2006 :: u64), ArriveUp] s2 = Inr s3 \<and>
    loopbackReceived (dev_broker (board s3)) = 2006"
proof -
  have "registration_fits wire_size (dev_broker (board power_on))" "(2000 :: u64) < 2 ^ 31"
    by (simp_all add: power_on_def wire_registration_fits)
  from boot_to_loopback [OF wire_surroundings power_on_def this wire_uptime_fits wire_uptime_fits wire_uptime_fits,
      where t = 1000 and t' = "(1010, 1010)" and now = "(2005, 2006)"]
  show ?thesis unfolding snd_conv by blast
qed

text \<open>
  Recovery from a restart of the proxy. A connected device goes on publishing to a proxy that has
  just started anew, and zenoh hears nothing of it. The first connect timer that finds the last
  loopback more than five seconds old ends the connection, and the next keep-alive makes the
  proxy know the device's publishers and subscriber again.
\<close>

theorem recovers_from_proxy_restart:
  fixes env :: "('e, 'i) surroundings"
  assumes "surroundings_ok env open_array at item_size" "zenoh_serves (zenoh_lib env)"
    and "quiet s" "dev_connected (dev_broker (board s))" "has_own_resources (dev_broker (board s))"
    and "registration_fits item_size (dev_broker (board s))" "uptime_fits item_size 0 lost"
    and "5000 < late - loopbackReceived (dev_broker (board s))"
  shows "\<exists>s1 s2.
    system_run env [ProxyRestart (Host_new flag garbage enc it), KeepAliveTick lost, ArriveUp] s = Inr s1 \<and>
    host_broker s1 = BrokerZenoh_new \<and> dev_connected (dev_broker (board s1)) \<and>
    system_run env [ConnectTick late, KeepAliveTick t, ArriveUp, ArriveDown now, ArriveUp] s1 = Inr s2 \<and>
    quiet s2 \<and> dev_connected (dev_broker (board s2)) \<and>
    knows_own_resources (forward_sample (codec env)) (host_broker s2)"
proof -
  let ?s0 = "s\<lparr>host := Host_new flag garbage enc it, going_up := [], going_down := []\<rparr>"
  have s0: "quiet ?s0" "board ?s0 = board s" "host_broker ?s0 = BrokerZenoh_new" "uptimePub (dev_broker (board s)) = \<lparr>res_id = 0, res_key = uptime_key\<rparr>"
    using assms(3,5) by (simp_all add: quiet_def has_own_resources_def)
  from system_sends_uptime [OF assms(1) s0(1), of lost] assms(4,7) obtain s1 v bs where
    s1: "system_run env [KeepAliveTick lost, ArriveUp] ?s0 = Inr s1" "quiet s1"
      "dev_broker (board s1) = outgoingFrame_on bs (dev_broker (board s))"
      "host_broker s1 = broker_effect (zenoh_lib env) (forward_sample (codec env))
        (Publish \<lparr>publish_id = 0, publish_value = v\<rparr>) BrokerZenoh_new"
    unfolding s0 by auto
  have b1: "host_broker s1 = BrokerZenoh_new" "dev_connected (dev_broker (board s1))"
    "has_own_resources (dev_broker (board s1))" "loopbackReceived (dev_broker (board s1)) = loopbackReceived (dev_broker (board s))"
    "registration_fits item_size (dev_broker (board s1))"
    using assms(4-6) by (simp_all add: s1(3,4) BrokerZenoh_publish_def BrokerZenoh_new_def outgoingFrame_on_def
        has_own_resources_def registration_fits_def)
  let ?b = "(board s1)\<lparr>dev_broker := set_connected False (dev_broker (board s1))\<rparr>"
  have late: "system_step env (ConnectTick late) s1 = Inr (s1\<lparr>board := ?b\<rparr>)"
    using assms(8) b1(4) by (simp add: set_board_def on_connectTimer_def)
  have q: "quiet (s1\<lparr>board := ?b\<rparr>)" "\<not> dev_connected (dev_broker ?b)" "has_own_resources (dev_broker ?b)"
    "registration_fits item_size (dev_broker ?b)"
    using s1(2) b1(3,5) by (simp_all add: quiet_def board_ok_def has_own_resources_def registration_fits_def)
  then have "registration (dev_broker ?b) \<noteq> []" by (simp add: registration_own)
  from system_registers [OF assms(1) q(1) _ _ _, of t now] this q obtain s2 where
    s2: "system_run env [KeepAliveTick t, ArriveUp, ArriveDown now, ArriveUp] (s1\<lparr>board := ?b\<rparr>) = Inr s2" "quiet s2"
      "dev_connected (dev_broker (board s2))"
      "knows_own_resources (forward_sample (codec env)) (host_broker s2)"
    using registration_known [OF q(3) assms(2), of "forward_sample (codec env)"] b1(1) by auto
  show ?thesis
    by (rule exI [of _ s1], rule exI [of _ s2]) (use s1(1) b1 late s2 in simp)
qed

text \<open>The board of \<open>power_on\<close>, connected.\<close>

definition connected_power_on :: "(wire_encoder, bytes) System" where
  "connected_power_on = power_on\<lparr>board := (board power_on)\<lparr>dev_broker :=
     (dev_broker (board power_on))\<lparr>dev_connected := True\<rparr>\<rparr>\<rparr>"

lemma connected_power_on: "quiet connected_power_on" "dev_connected (dev_broker (board connected_power_on))"
    "has_own_resources (dev_broker (board connected_power_on))"
    "registration_fits wire_size (dev_broker (board connected_power_on))"
    "5000 < 9000 - loopbackReceived (dev_broker (board connected_power_on))"
proof -
  let ?d = "dev_broker (board power_on)"
  have "board_ok (board power_on)" "host_ok (host power_on)" "has_own_resources ?d" "loopbackReceived ?d = 77"
    by (simp_all add: power_on_def)
  then show "quiet connected_power_on" "dev_connected (dev_broker (board connected_power_on))"
    "has_own_resources (dev_broker (board connected_power_on))"
    "registration_fits wire_size (dev_broker (board connected_power_on))"
    "5000 < 9000 - loopbackReceived (dev_broker (board connected_power_on))"
    using wire_registration_fits [of ?d]
    by (simp_all add: connected_power_on_def quiet_def board_ok_def has_own_resources_def registration_fits_def)
      (simp_all add: power_on_def)
qed

lemma recovers_from_proxy_restart_witness:
  "\<exists>s1 s2.
    system_run wire_surroundings [ProxyRestart (Host_new 0 \<lparr>msgType = 9\<rparr> (0, [], False) []), KeepAliveTick 8000, ArriveUp]
      connected_power_on = Inr s1 \<and>
    host_broker s1 = BrokerZenoh_new \<and>
    system_run wire_surroundings [ConnectTick 9000, KeepAliveTick 9001, ArriveUp, ArriveDown (9010, 9010), ArriveUp] s1 = Inr s2 \<and>
    knows_own_resources (forward_sample (codec wire_surroundings)) (host_broker s2)"
  using recovers_from_proxy_restart [OF wire_surroundings connected_power_on(1-4) wire_uptime_fits connected_power_on(5),
      of 0 "\<lparr>msgType = 9\<rparr>" "(0, [], False)" "[]" 8000 9001 "(9010, 9010)"]
  by blast

end
